(* ===== verification/GoPrelude.thy ===== *)
theory GoPrelude
  imports Main "HOL-Library.Word" "HOL-Library.Char_ord" "HOL-Library.List_Lexorder"
    "HOL-Library.Multiset"
begin

text \<open>
  What the components share of the Go language and its standard library.

  \<^item> A Go \<^verbatim>\<open>string\<close> and a \<^verbatim>\<open>[]byte\<close> are both lists of bytes (HOL's \<^typ>\<open>char\<close> is an
    8-bit value), so \<^verbatim>\<open>len(s)\<close> counts bytes.
  \<^item> A Go \<^verbatim>\<open>int\<close> and \<^verbatim>\<open>int64\<close> is a HOL integer together with the function \<open>i64\<close> that
    wraps a mathematical result into 64-bit two's complement; every place of the code where an
    addition, subtraction or multiplication could leave that range applies it.
  \<^item> A Go \<^verbatim>\<open>error\<close> is a value of \<open>goerr\<close>: a package sentinel, an \<^verbatim>\<open>errors.New\<close> text, or
    an \<^verbatim>\<open>fmt.Errorf\<close> with the operands its \<^verbatim>\<open>%w\<close> verbs wrap; \<^verbatim>\<open>errors.Is\<close> is \<open>errorsIs\<close>.
  \<^item> A \<^verbatim>\<open>time.Time\<close> is a number of nanoseconds since the zero Time (January 1, year 1 UTC) and
    a \<^verbatim>\<open>time.Duration\<close> a number of nanoseconds; \<^verbatim>\<open>Time.Sub\<close> saturates, as the library does.
  \<^item> The functions of \<^verbatim>\<open>strings\<close> and \<^verbatim>\<open>bytes\<close> the code calls.
\<close>

named_theorems limit_simps \<open>unfolding of the size arithmetic\<close>
named_theorems err_simps \<open>classification of errors\<close>

section \<open>Integers\<close>

definition MaxInt :: int where
  "MaxInt = 2 ^ 63 - 1"

definition MinInt :: int where
  "MinInt = - (2 ^ 63)"

definition i64 :: "int \<Rightarrow> int" where
  "i64 x = sint (word_of_int x :: 64 word)"

definition go_int :: "int \<Rightarrow> bool" where
  "go_int x \<longleftrightarrow> MinInt \<le> x \<and> x \<le> MaxInt"

lemma MaxInt_pos [simp]: "0 < MaxInt" "0 \<le> MaxInt" "MinInt < 0" "MinInt \<le> 0"
  by (simp_all add: MaxInt_def MinInt_def)

lemma i64_id [simp]: "go_int x \<Longrightarrow> i64 x = x"
  by (auto simp: i64_def go_int_def MaxInt_def MinInt_def sint_sbintrunc' signed_take_bit_int_eq_self)

lemma go_int_i64 [simp]: "go_int (i64 x)"
proof -
  have "- (2 ^ 63) \<le> sint (word_of_int x :: 64 word) \<and> sint (word_of_int x :: 64 word) < 2 ^ 63"
    using sint_ge [of "word_of_int x :: 64 word"] sint_lt [of "word_of_int x :: 64 word"] by simp
  then show ?thesis by (simp add: go_int_def i64_def MaxInt_def MinInt_def)
qed

lemma i64_wraps: "i64 (MaxInt + 1) = MinInt"
  by (simp add: i64_def MaxInt_def MinInt_def)

abbreviation go_len :: "'a list \<Rightarrow> int" where
  "go_len xs \<equiv> int (length xs)"

text \<open>Go's integer division truncates toward zero.\<close>

definition go_div :: "int \<Rightarrow> int \<Rightarrow> int" where
  "go_div a b = sgn a * sgn b * (\<bar>a\<bar> div \<bar>b\<bar>)"

definition go_mod :: "int \<Rightarrow> int \<Rightarrow> int" where
  "go_mod a b = a - b * go_div a b"

lemma go_div_nonneg [simp]: "0 \<le> a \<Longrightarrow> 0 < b \<Longrightarrow> go_div a b = a div b"
  by (cases "a = 0") (auto simp: go_div_def sgn_if)

section \<open>Errors\<close>

datatype sentinel =
    ErrInvalidSyntaxLimits | ErrSyntaxLimit
  | ErrInvalidSignatureInput | ErrInvalidSignature | ErrInvalidAcceptSignature
  | ErrSignatureBase | ErrSignatureBaseLimit
  | ErrInvalidDigestField | ErrUnsupportedDigestAlgorithm | ErrMissingDigest | ErrDigestMismatch
  | ErrInvalidDigestPreferences
  | ErrReplayDetected | ErrReplayCapacity | ErrInvalidReplayRecord | ErrInvalidReplayConfig
  | ErrUnsupportedSignatureAlgorithm | ErrIncompatibleKey | ErrInvalidSignatureValue
  | ErrSignatureRandomness
  | ErrInvalidSigningProfile | ErrSigningPolicy | ErrSigningKey | ErrSigningProvider
  | ErrSigningBase | ErrSigningCryptographic | ErrInvalidSignedFields
  | ErrInvalidVerificationProfile | ErrKeyNotFound | ErrKeyResolutionFailure
  | ErrReplayBackendFailure
  | ErrInvalidHTTPIntegration | ErrHTTPIntegrationSigning | ErrExistingSignatures
  | ErrHTTPIntegrationVerification | ErrResponseBodyTooLarge | ErrAmbiguousProtectedField
  | ErrInvalidBodyIntegration | ErrBodyTooLarge | ErrBodyRead | ErrExistingDigest
  | ErrInvalidAdapter | ErrSigning | ErrVerification
  | HttpErrBodyNotAllowed | HttpErrNotSupported | IoEOF
  | ContextCanceled | ContextDeadlineExceeded

text \<open>
  \<^verbatim>\<open>ErrSignatureBaseLimit\<close> is itself an \<^verbatim>\<open>fmt.Errorf\<close> around \<^verbatim>\<open>ErrSignatureBase\<close>, so it matches both.
  \<open>Errorf fmt ws vs\<close> is \<^verbatim>\<open>fmt.Errorf(fmt, ...)\<close>; \<open>ws\<close> are the operands of its \<^verbatim>\<open>%w\<close> verbs
  (which \<^verbatim>\<open>errors.Is\<close> follows) and \<open>vs\<close> the errors it only prints. \<open>GoPanic m\<close> stands for a run-time
  panic, which leaves the function instead of a result.
\<close>

datatype goerr =
    Sentinel sentinel
  | NewErr string
  | Errorf string "goerr list" "goerr list"
  | GoPanic string

fun errorsIs :: "goerr \<Rightarrow> sentinel \<Rightarrow> bool" where
  "errorsIs (Sentinel s) t \<longleftrightarrow> s = t \<or> s = ErrSignatureBaseLimit \<and> t = ErrSignatureBase"
| "errorsIs (NewErr m) t \<longleftrightarrow> False"
| "errorsIs (Errorf m ws vs) t \<longleftrightarrow> (\<exists>w \<in> set ws. errorsIs w t)"
| "errorsIs (GoPanic m) t \<longleftrightarrow> False"

definition isPanic :: "goerr + 'a \<Rightarrow> bool" where
  "isPanic r \<longleftrightarrow> (case r of Inl (GoPanic m) \<Rightarrow> True | _ \<Rightarrow> False)"

lemma isPanic_simps [simp]:
  "isPanic (Inl (GoPanic m))" "\<not> isPanic (Inr x)" "\<not> isPanic (Inl (Sentinel s))"
  "\<not> isPanic (Inl (NewErr t))" "\<not> isPanic (Inl (Errorf f ws vs))"
  by (simp_all add: isPanic_def)

type_synonym 'a res = "goerr + 'a"

definition isOk :: "'a res \<Rightarrow> bool" where
  "isOk r \<longleftrightarrow> (case r of Inl e \<Rightarrow> False | Inr x \<Rightarrow> True)"

lemma isOk_simps [simp]: "isOk (Inr x)" "\<not> isOk (Inl e)"
  by (simp_all add: isOk_def)

lemma isOk_iff: "isOk r \<longleftrightarrow> (\<exists>x. r = Inr x)"
  by (cases r) auto

section \<open>Strings and byte slices\<close>

type_synonym bytes = string

abbreviation byte :: "char \<Rightarrow> nat" where
  "byte c \<equiv> of_char c"

lemma byte_less [simp]: "byte c < 256"
  using of_char_of [of "byte c"] by (metis of_char_mod_256 mod_less_divisor zero_less_numeral)

definition isLower :: "char \<Rightarrow> bool" where
  "isLower c \<longleftrightarrow> 97 \<le> byte c \<and> byte c \<le> 122"

definition isUpper :: "char \<Rightarrow> bool" where
  "isUpper c \<longleftrightarrow> 65 \<le> byte c \<and> byte c \<le> 90"

definition isDigit :: "char \<Rightarrow> bool" where
  "isDigit c \<longleftrightarrow> 48 \<le> byte c \<and> byte c \<le> 57"

text \<open>The classes as tests of the bits, for evaluation.\<close>

lemma isLower_bits [code]:
  "isLower (Char b0 b1 b2 b3 b4 b5 b6 b7) =
     (if b7 then False else if \<not> b6 then False else if \<not> b5 then False
      else if b4 then \<not> (b3 \<and> (b2 \<or> b1 \<and> b0)) else b3 \<or> b2 \<or> b1 \<or> b0)"
  by (cases b0; cases b1; cases b2; cases b3; cases b4; cases b5; cases b6; cases b7) (simp_all add: isLower_def)

lemma isUpper_bits [code]:
  "isUpper (Char b0 b1 b2 b3 b4 b5 b6 b7) =
     (if b7 then False else if \<not> b6 then False else if b5 then False
      else if b4 then \<not> (b3 \<and> (b2 \<or> b1 \<and> b0)) else b3 \<or> b2 \<or> b1 \<or> b0)"
  by (cases b0; cases b1; cases b2; cases b3; cases b4; cases b5; cases b6; cases b7) (simp_all add: isUpper_def)

lemma isDigit_bits [code]:
  "isDigit (Char b0 b1 b2 b3 b4 b5 b6 b7) =
     (if b7 then False else if b6 then False else if \<not> b5 then False else if \<not> b4 then False
      else \<not> (b3 \<and> (b2 \<or> b1)))"
  by (cases b0; cases b1; cases b2; cases b3; cases b4; cases b5; cases b6; cases b7) (simp_all add: isDigit_def)

definition trimLeft :: "string \<Rightarrow> string \<Rightarrow> string" where
  "trimLeft cutset s = dropWhile (\<lambda>c. c \<in> set cutset) s"

definition trimRight :: "string \<Rightarrow> string \<Rightarrow> string" where
  "trimRight cutset s = rev (dropWhile (\<lambda>c. c \<in> set cutset) (rev s))"

definition trim :: "string \<Rightarrow> string \<Rightarrow> string" where
  "trim cutset s = trimRight cutset (trimLeft cutset s)"

text \<open>\<^verbatim>\<open>strings.HasPrefix\<close> and \<^verbatim>\<open>strings.CutPrefix\<close>.\<close>

fun hasPrefix :: "string \<Rightarrow> string \<Rightarrow> bool" where
  "hasPrefix s [] = True"
| "hasPrefix [] (p # ps) = False"
| "hasPrefix (c # s) (p # ps) = (c = p \<and> hasPrefix s ps)"

fun join :: "string \<Rightarrow> string list \<Rightarrow> string" where
  "join sep [] = []"
| "join sep [s] = s"
| "join sep (s # t # ts) = s @ sep @ join sep (t # ts)"

text \<open>\<^verbatim>\<open>strings.Split(s, sep)\<close> for a one-byte separator: always at least one part.\<close>

fun split :: "char \<Rightarrow> string \<Rightarrow> string list" where
  "split sep [] = [[]]"
| "split sep (c # s) =
     (if c = sep then [] # split sep s
      else case split sep s of [] \<Rightarrow> [[c]] | p # ps \<Rightarrow> (c # p) # ps)"

text \<open>\<^verbatim>\<open>strings.IndexByte\<close>, with \<open>None\<close> for \<open>-1\<close>.\<close>

fun indexByte :: "string \<Rightarrow> char \<Rightarrow> nat option" where
  "indexByte [] c = None"
| "indexByte (d # s) c = (if d = c then Some 0 else map_option Suc (indexByte s c))"

definition containsAny :: "string \<Rightarrow> string \<Rightarrow> bool" where
  "containsAny s cs \<longleftrightarrow> (\<exists>c \<in> set s. c \<in> set cs)"

text \<open>
  \<^verbatim>\<open>strings.TrimSpace\<close> on bytes: the UTF-8 encodings of the Unicode white-space runes are stripped from
  the left and then from the right.
\<close>

definition spaceEncodings :: "string list" where
  "spaceEncodings =
     [[CHR 0x09], [CHR 0x0A], [CHR 0x0B], [CHR 0x0C], [CHR 0x0D], [CHR 0x20],
      [CHR 0xC2, CHR 0x85], [CHR 0xC2, CHR 0xA0], [CHR 0xE1, CHR 0x9A, CHR 0x80]] @
     map (\<lambda>n. [CHR 0xE2, CHR 0x80, char_of (n::nat)]) ([0x80..<0x8B] @ [0xA8, 0xA9, 0xAF]) @
     [[CHR 0xE2, CHR 0x81, CHR 0x9F], [CHR 0xE3, CHR 0x80, CHR 0x80]]"

fun stripOne :: "string list \<Rightarrow> string \<Rightarrow> string option" where
  "stripOne [] s = None"
| "stripOne (e # es) s =
     (if e \<noteq> [] \<and> hasPrefix s e then Some (drop (length e) s) else stripOne es s)"

lemma hasPrefix_length: "hasPrefix s p \<Longrightarrow> length p \<le> length s"
  by (induction s p rule: hasPrefix.induct) auto

lemma stripOne_length: "stripOne es s = Some t \<Longrightarrow> length t < length s"
proof (induction es)
  case (Cons e es)
  then show ?case
    by (auto split: if_splits dest!: hasPrefix_length) (metis diff_less le_zero_eq length_greater_0_conv not_gr_zero)
qed simp

function stripAll :: "string list \<Rightarrow> string \<Rightarrow> string" where
  "stripAll es s = (case stripOne es s of None \<Rightarrow> s | Some t \<Rightarrow> stripAll es t)"
  by pat_completeness auto
termination
  by (relation "measure (\<lambda>(es, s). length s)") (auto simp: stripOne_length)

declare stripAll.simps [simp del]

definition trimSpace :: "string \<Rightarrow> string" where
  "trimSpace s = rev (stripAll (map rev spaceEncodings) (rev (stripAll spaceEncodings s)))"

text \<open>Visible ASCII at both ends is left alone: the common case, for evaluation.\<close>

fun visibleByte :: "char \<Rightarrow> bool" where
  "visibleByte (Char b0 b1 b2 b3 b4 b5 b6 b7) =
     (if b7 then False else if b6 then True else if \<not> b5 then False else b4 \<or> b3 \<or> b2 \<or> b1 \<or> b0)"

lemma space_heads:
  "list_all (\<lambda>e. \<not> visibleByte (hd e)) spaceEncodings" "list_all (\<lambda>e. \<not> visibleByte (hd e)) (map rev spaceEncodings)"
  by code_simp+

lemma stripAll_visible:
  assumes "list_all (\<lambda>e. \<not> visibleByte (hd e)) es" "s = [] \<or> visibleByte (hd s)"
  shows "stripAll es s = s"
proof -
  have "\<not> hasPrefix s e" if e: "e \<in> set es" "e \<noteq> []" for e
  proof -
    obtain p ps where p: "e = p # ps" using e(2) by (cases e) auto
    then have "\<not> visibleByte p" using assms(1) e(1) by (auto simp: list_all_iff)
    then show ?thesis using assms(2) p by (cases s) auto
  qed
  then have "stripOne es s = None" by (induction es) auto
  then show ?thesis by (simp add: stripAll.simps)
qed

lemma trimSpace_visible [code]:
  "trimSpace s =
     (if s = [] then []
      else if visibleByte (hd s) then
        (if visibleByte (last s) then s else rev (stripAll (map rev spaceEncodings) (rev s)))
      else rev (stripAll (map rev spaceEncodings) (rev (stripAll spaceEncodings s))))"
  using stripAll_visible [OF space_heads(1), of s] stripAll_visible [OF space_heads(2), of "rev s"]
  by (auto simp: trimSpace_def hd_rev)

lemma length_trimLeft [simp]: "length (trimLeft cs s) \<le> length s"
  by (simp add: trimLeft_def length_dropWhile_le)

lemma length_trimRight [simp]: "length (trimRight cs s) \<le> length s"
  using length_dropWhile_le [of "\<lambda>c. c \<in> set cs" "rev s"] by (simp add: trimRight_def)

lemma length_trim [simp]: "length (trim cs s) \<le> length s"
  unfolding trim_def using length_trimRight length_trimLeft le_trans by blast

lemma set_trimLeft: "set (trimLeft cs s) \<subseteq> set s"
  unfolding trimLeft_def by (meson set_dropWhileD subsetI)

lemma set_trimRight: "set (trimRight cs s) \<subseteq> set s"
  unfolding trimRight_def using set_dropWhileD by fastforce

lemma set_trim: "set (trim cs s) \<subseteq> set s"
  unfolding trim_def using set_trimLeft set_trimRight by blast

lemma length_join: "length (join sep xs) = sum_list (map length xs) + length sep * (length xs - 1)"
  by (induction sep xs rule: join.induct) auto

lemma set_join: "set (join sep xs) \<subseteq> set sep \<union> (\<Union>x \<in> set xs. set x)"
  by (induction sep xs rule: join.induct) auto

lemma split_not_Nil [simp]: "split sep s \<noteq> []"
  by (induction s) (auto split: list.splits)

lemma split_parts: "p \<in> set (split sep s) \<Longrightarrow> sep \<notin> set p"
  by (induction s arbitrary: p) (auto split: list.splits if_splits)

lemma join_split: "join [sep] (split sep s) = s"
proof (induction s)
  case Nil
  then show ?case by simp
next
  case (Cons c s)
  obtain p ps where eq: "split sep s = p # ps"
    by (cases "split sep s") auto
  show ?case
  proof (cases "c = sep")
    case True
    with Cons eq show ?thesis by simp
  next
    case False
    have "join [sep] ((c # p) # ps) = c # join [sep] (p # ps)"
      by (cases ps) auto
    with False Cons eq show ?thesis by simp
  qed
qed

section \<open>Time\<close>

type_synonym time = int
type_synonym duration = int

definition second :: duration where
  "second = 1000000000"

text \<open>\<^verbatim>\<open>time.Unix(sec, 0)\<close>: the epoch is 62135596800 seconds after the zero Time.\<close>

definition unixTime :: "int \<Rightarrow> time" where
  "unixTime s = (s + 62135596800) * second"

text \<open>\<^verbatim>\<open>Time.Unix()\<close>: whole seconds since the epoch, rounded toward the past.\<close>

definition timeUnix :: "time \<Rightarrow> int" where
  "timeUnix t = t div second - 62135596800"

definition isZero :: "time \<Rightarrow> bool" where
  "isZero t \<longleftrightarrow> t = 0"

text \<open>\<^verbatim>\<open>Time.Sub\<close> saturates at the largest and smallest Duration.\<close>

definition timeSub :: "time \<Rightarrow> time \<Rightarrow> duration" where
  "timeSub t u = max MinInt (min MaxInt (t - u))"

lemma timeUnix_unixTime [simp]: "timeUnix (unixTime s) = s"
  by (simp add: timeUnix_def unixTime_def second_def)

lemma unixTime_timeUnix: "unixTime (timeUnix t) \<le> t" "t < unixTime (timeUnix t) + second"
  by (simp_all add: timeUnix_def unixTime_def second_def)

lemma unixTime_mono [simp]: "unixTime a \<le> unixTime b \<longleftrightarrow> a \<le> b"
  by (simp add: unixTime_def second_def)

lemma unixTime_less [simp]: "unixTime a < unixTime b \<longleftrightarrow> a < b"
  by (simp add: unixTime_def second_def)

lemma timeSub_le: "timeSub t u \<le> d \<Longrightarrow> d < MaxInt \<Longrightarrow> t - u \<le> d"
  by (auto simp: timeSub_def)

lemma timeSub_leI: "MinInt \<le> d \<Longrightarrow> t - u \<le> d \<Longrightarrow> timeSub t u \<le> d"
  by (auto simp: timeSub_def)

section \<open>Contexts\<close>

text \<open>
  A \<^verbatim>\<open>context.Context\<close> as the code observes it: the successive results of \<^verbatim>\<open>ctx.Err()\<close>, one per
  observation, and whether \<^verbatim>\<open>ctx\<close> itself is nil. The code only ever asks whether an observation is
  an error and which one.
\<close>

type_synonym ctx_err = "goerr option"

end
