(* ===== verification/GoHeap.thy ===== *)
theory GoHeap
  imports GoPrelude
begin

text \<open>
  The part of Go's \<^verbatim>\<open>container/heap\<close> that \<^verbatim>\<open>replay.go\<close> relies on: \<^verbatim>\<open>up\<close>, \<^verbatim>\<open>down\<close> and the
  operations built on them, generic in the three methods of \<^verbatim>\<open>heap.Interface\<close> they call. The locale
  \<open>heap_interface\<close> states what a client owes (\<^verbatim>\<open>Less\<close> compares keys, \<^verbatim>\<open>Swap\<close> exchanges two
  slots and keeps the client's own invariant); inside it the restoration of the heap order is
  proved once. The replay store interprets it on its expiration heap.
\<close>

section \<open>The algorithms\<close>

definition parent :: "nat \<Rightarrow> nat" where
  "parent j = (j - 1) div 2"

function heap_up :: "(nat \<Rightarrow> nat \<Rightarrow> 's \<Rightarrow> bool) \<Rightarrow> (nat \<Rightarrow> nat \<Rightarrow> 's \<Rightarrow> 's) \<Rightarrow> nat \<Rightarrow> 's \<Rightarrow> 's" where
  "heap_up lt swp j h =
     (let i = (j - 1) div 2 in
      if i = j \<or> \<not> lt j i h then h else heap_up lt swp i (swp i j h))"
  by pat_completeness auto
termination
  by (relation "measure (\<lambda>(lt, swp, j, h). j)") auto

function heap_down_loop ::
  "(nat \<Rightarrow> nat \<Rightarrow> 's \<Rightarrow> bool) \<Rightarrow> (nat \<Rightarrow> nat \<Rightarrow> 's \<Rightarrow> 's) \<Rightarrow> nat \<Rightarrow> nat \<Rightarrow> 's \<Rightarrow> nat \<times> 's" where
  "heap_down_loop lt swp i n h =
     (let j1 = 2 * i + 1 in
      if j1 \<ge> n then (i, h)
      else
        let j = (if j1 + 1 < n \<and> lt (j1 + 1) j1 h then j1 + 1 else j1) in
        if \<not> lt j i h then (i, h) else heap_down_loop lt swp j n (swp i j h))"
  by pat_completeness auto
termination
  by (relation "measure (\<lambda>(lt, swp, i, n, h). n - i)") auto

declare heap_up.simps [simp del] heap_down_loop.simps [simp del]

definition heap_down ::
  "(nat \<Rightarrow> nat \<Rightarrow> 's \<Rightarrow> bool) \<Rightarrow> (nat \<Rightarrow> nat \<Rightarrow> 's \<Rightarrow> 's) \<Rightarrow> nat \<Rightarrow> nat \<Rightarrow> 's \<Rightarrow> bool \<times> 's" where
  "heap_down lt swp i0 n h =
     (case heap_down_loop lt swp i0 n h of (i, h') \<Rightarrow> (i > i0, h'))"

text \<open>\<^verbatim>\<open>heap.Fix\<close>: the caller has changed the key in slot \<open>i\<close>.\<close>

definition heap_fix ::
  "(nat \<Rightarrow> nat \<Rightarrow> 's \<Rightarrow> bool) \<Rightarrow> (nat \<Rightarrow> nat \<Rightarrow> 's \<Rightarrow> 's) \<Rightarrow> nat \<Rightarrow> nat \<Rightarrow> 's \<Rightarrow> 's" where
  "heap_fix lt swp len i h =
     (case heap_down lt swp i len h of (moved, h') \<Rightarrow>
        if \<not> moved then heap_up lt swp i h' else h')"

lemma snd_heap_down: "snd (heap_down lt swp i n h) = snd (heap_down_loop lt swp i n h)"
  by (simp add: heap_down_def split: prod.splits)

section \<open>Heap order on key lists\<close>

definition edge :: "'k::linorder list \<Rightarrow> nat \<Rightarrow> bool" where
  "edge ks c \<longleftrightarrow> ks ! parent c \<le> ks ! c"

definition is_heap :: "nat \<Rightarrow> 'k::linorder list \<Rightarrow> bool" where
  "is_heap n ks \<longleftrightarrow> (\<forall>c. 0 < c \<and> c < n \<longrightarrow> edge ks c)"

text \<open>Slot \<open>i\<close> may be out of order with its parent and its children, and only there.\<close>

definition heap_except :: "nat \<Rightarrow> nat \<Rightarrow> 'k::linorder list \<Rightarrow> bool" where
  "heap_except i n ks \<longleftrightarrow>
     (\<forall>c. 0 < c \<and> c < n \<and> c \<noteq> i \<and> parent c \<noteq> i \<longrightarrow> edge ks c) \<and>
     (\<forall>c. 0 < c \<and> c < n \<and> parent c = i \<and> 0 < i \<longrightarrow> ks ! parent i \<le> ks ! c)"

definition children_ok :: "nat \<Rightarrow> nat \<Rightarrow> 'k::linorder list \<Rightarrow> bool" where
  "children_ok i n ks \<longleftrightarrow> (\<forall>c. 0 < c \<and> c < n \<and> parent c = i \<longrightarrow> edge ks c)"

abbreviation exchange :: "nat \<Rightarrow> nat \<Rightarrow> 'a list \<Rightarrow> 'a list" where
  "exchange i j xs \<equiv> xs[i := xs ! j, j := xs ! i]"

lemma parent_less [simp]: "0 < c \<Longrightarrow> parent c < c"
  by (simp add: parent_def)

lemma parent_le: "parent c \<le> c"
  by (simp add: parent_def)

lemma parent_0 [simp]: "parent 0 = 0" "parent (Suc 0) = 0"
  by (simp_all add: parent_def)

lemma parent_eq_iff: "0 < c \<Longrightarrow> parent c = i \<longleftrightarrow> c = 2 * i + 1 \<or> c = 2 * i + 2"
  by (auto simp: parent_def)

lemma is_heap_min:
  assumes "is_heap n ks" "k < n"
  shows "ks ! 0 \<le> ks ! k"
  using assms(2)
proof (induction k rule: less_induct)
  case (less k)
  show ?case
  proof (cases "k = 0")
    case False
    then have "ks ! 0 \<le> ks ! parent k" using less by (simp add: order_le_less_trans [OF parent_le])
    also have "\<dots> \<le> ks ! k" using False less.prems assms(1) by (simp add: is_heap_def edge_def)
    finally show ?thesis .
  qed simp
qed

lemma heap_except_heap:
  "heap_except i n ks \<Longrightarrow> children_ok i n ks \<Longrightarrow> (0 < i \<Longrightarrow> i < n \<Longrightarrow> edge ks i) \<Longrightarrow> is_heap n ks"
  unfolding heap_except_def children_ok_def is_heap_def by blast

lemma is_heap_except: "is_heap n ks \<Longrightarrow> heap_except i n ks"
  unfolding heap_except_def is_heap_def edge_def
  by (metis order_trans order_less_trans parent_less)

lemma heap_except_update:
  assumes "is_heap n ks"
  shows "heap_except i n (ks[i := k])"
proof -
  have ex: "heap_except i n ks" using assms by (rule is_heap_except)
  have child: "c \<noteq> i" if "0 < c" "parent c = i" for c
    using that parent_less [of c] by auto
  have par: "0 < i \<Longrightarrow> parent i \<noteq> i"
    using parent_less [of i] by (simp del: parent_less)
  have "edge (ks[i := k]) c" if "0 < c" "c < n" "c \<noteq> i" "parent c \<noteq> i" for c
    using ex that by (simp add: heap_except_def edge_def)
  moreover have "ks[i := k] ! parent i \<le> ks[i := k] ! c" if "0 < c" "c < n" "parent c = i" "0 < i" for c
    using ex that child [of c] par by (simp add: heap_except_def)
  ultimately show ?thesis by (simp add: heap_except_def)
qed

lemma heap_except_append:
  assumes "is_heap (length ks) ks"
  shows "heap_except (length ks) (Suc (length ks)) (ks @ [k])"
    and "children_ok (length ks) (Suc (length ks)) (ks @ [k])"
proof -
  have no_child: "0 < c \<Longrightarrow> c < Suc (length ks) \<Longrightarrow> parent c \<noteq> length ks" for c
    using parent_less [of c] by linarith
  have "edge (ks @ [k]) c" if "0 < c" "c < length ks" for c
    using assms that order_less_trans [OF parent_less that(2)]
    by (simp add: is_heap_def edge_def nth_append)
  with no_child show "heap_except (length ks) (Suc (length ks)) (ks @ [k])"
    "children_ok (length ks) (Suc (length ks)) (ks @ [k])"
    by (auto simp: heap_except_def children_ok_def)
qed

lemma heap_except_drop_root:
  assumes "is_heap (Suc n) ks" "n < length ks"
  shows "heap_except 0 n (exchange 0 n ks)"
proof -
  have "edge (exchange 0 n ks) c" if c: "0 < c" "c < n" "parent c \<noteq> 0" for c
  proof -
    have "parent c < n" using c parent_less [of c] by linarith
    with assms c show ?thesis by (simp add: is_heap_def edge_def)
  qed
  then show ?thesis by (simp add: heap_except_def)
qed

text \<open>Moving the key of slot \<open>j\<close> one level up.\<close>

lemma heap_except_up:
  assumes "heap_except j n ks" "children_ok j n ks" "0 < j" "j < n" "n \<le> length ks"
    and "ks ! j < ks ! parent j"
  shows "heap_except (parent j) n (exchange (parent j) j ks)"
    and "children_ok (parent j) n (exchange (parent j) j ks)"
proof -
  let ?p = "parent j" and ?ks = "exchange (parent j) j ks"
  have p: "?p < j" using assms by simp
  have at_p: "?ks ! ?p = ks ! j" and at_j: "?ks ! j = ks ! ?p"
    using assms p by (auto simp: nth_list_update)
  have other: "c \<noteq> ?p \<Longrightarrow> c \<noteq> j \<Longrightarrow> ?ks ! c = ks ! c" for c by simp
  have edge_old: "0 < c \<Longrightarrow> c < n \<Longrightarrow> c \<noteq> j \<Longrightarrow> edge ks c" for c
    using assms(1,2) unfolding heap_except_def children_ok_def by blast
  have grand: "0 < c \<Longrightarrow> c < n \<Longrightarrow> parent c = j \<Longrightarrow> ks ! ?p \<le> ks ! c" for c
    using assms(1,3) unfolding heap_except_def by blast
  have new_edge: "edge ?ks c" if c: "0 < c" "c < n" "c \<noteq> ?p" for c
  proof -
    consider "c = j" | "c \<noteq> j" "parent c = j" | "c \<noteq> j" "parent c = ?p" | "c \<noteq> j" "parent c \<noteq> j" "parent c \<noteq> ?p"
      by blast
    then show ?thesis
    proof cases
      case 1 with assms(6) show ?thesis by (simp add: edge_def at_p at_j)
    next
      case 2 with c grand [of c] show ?thesis by (simp add: edge_def at_j other)
    next
      case 3
      then have "ks ! ?p \<le> ks ! c" using edge_old [of c] c by (simp add: edge_def)
      with 3 c assms(6) show ?thesis by (simp add: edge_def at_p other)
    next
      case 4 with c edge_old [of c] show ?thesis by (simp add: edge_def other)
    qed
  qed
  show "children_ok ?p n ?ks"
    unfolding children_ok_def using new_edge by (metis less_irrefl parent_less)
  have "ks ! parent ?p \<le> ?ks ! c" if "0 < c" "c < n" "parent c = ?p" "0 < ?p" for c
  proof -
    have pp: "ks ! parent ?p \<le> ks ! ?p"
      using edge_old [of ?p] that p assms(4) by (simp add: edge_def)
    show ?thesis
    proof (cases "c = j")
      case True with pp show ?thesis by (simp add: at_j)
    next
      case False
      moreover have "c \<noteq> ?p" using that by (metis less_irrefl parent_less)
      moreover have "ks ! ?p \<le> ks ! c" using edge_old [of c] that False by (simp add: edge_def)
      ultimately show ?thesis using pp by (simp add: other)
    qed
  qed
  moreover have "0 < ?p \<Longrightarrow> ?ks ! parent ?p = ks ! parent ?p"
    using p by (metis other less_irrefl parent_less order_less_trans)
  ultimately show "heap_except ?p n ?ks"
    unfolding heap_except_def using new_edge by auto
qed

text \<open>Moving the key of slot \<open>i\<close> one level down, exchanging it with its smaller child \<open>j\<close>.\<close>

lemma heap_except_down:
  assumes "heap_except i n ks" "0 < j" "j < n" "n \<le> length ks" "parent j = i"
    and small: "\<And>c. 0 < c \<Longrightarrow> c < n \<Longrightarrow> parent c = i \<Longrightarrow> ks ! j \<le> ks ! c"
    and less: "ks ! j < ks ! i"
  shows "heap_except j n (exchange i j ks)"
    and "edge (exchange i j ks) j"
    and "0 < i \<Longrightarrow> edge (exchange i j ks) i"
proof -
  let ?ks = "exchange i j ks"
  have i: "i < j" using assms(2,5) parent_less by blast
  have at_i: "?ks ! i = ks ! j" and at_j: "?ks ! j = ks ! i"
    using assms i by (auto simp: nth_list_update)
  have other: "c \<noteq> i \<Longrightarrow> c \<noteq> j \<Longrightarrow> ?ks ! c = ks ! c" for c by simp
  show "edge ?ks j" using less assms(5) by (simp add: edge_def at_i at_j)
  show edge_i: "edge ?ks i" if "0 < i"
  proof -
    have "ks ! parent i \<le> ks ! j"
      using assms(1) that assms(2,3,5) unfolding heap_except_def by blast
    moreover have "parent i \<noteq> i" "parent i \<noteq> j"
      using that i parent_less [of i] by (auto simp del: parent_less)
    ultimately show ?thesis by (simp add: edge_def at_i other)
  qed
  have edge_old: "0 < c \<Longrightarrow> c < n \<Longrightarrow> c \<noteq> i \<Longrightarrow> parent c \<noteq> i \<Longrightarrow> edge ks c" for c
    using assms(1) unfolding heap_except_def by blast
  have "edge ?ks c" if c: "0 < c" "c < n" "c \<noteq> j" "parent c \<noteq> j" for c
  proof -
    consider "c = i" | "c \<noteq> i" "parent c = i" | "c \<noteq> i" "parent c \<noteq> i" by blast
    then show ?thesis
    proof cases
      case 1 with edge_i c show ?thesis by simp
    next
      case 2 with small [of c] c show ?thesis by (simp add: edge_def at_i other)
    next
      case 3 with edge_old [of c] c show ?thesis by (simp add: edge_def other)
    qed
  qed
  moreover have "?ks ! parent j \<le> ?ks ! c" if c: "0 < c" "c < n" "parent c = j" for c
  proof -
    have "j < c" using c parent_less [of c] by simp
    with i have "c \<noteq> i" "c \<noteq> j" by auto
    moreover have "ks ! j \<le> ks ! c"
      using edge_old [of c] c i \<open>c \<noteq> i\<close> by (simp add: edge_def)
    ultimately show ?thesis using assms(5) by (simp add: at_i other)
  qed
  ultimately show "heap_except j n ?ks" unfolding heap_except_def by blast
qed

section \<open>The interface a client implements\<close>

text \<open>
  \<open>keys h\<close> is the list of keys in slot order and \<open>ok\<close> what the client's \<^verbatim>\<open>Swap\<close> needs and keeps.
  Its lemmas say that \<open>up\<close>, \<open>down\<close> and \<open>Fix\<close> restore the heap order, permute the slots only,
  and keep every predicate that \<^verbatim>\<open>Swap\<close> keeps.
\<close>

locale heap_interface =
  fixes Less :: "nat \<Rightarrow> nat \<Rightarrow> 's \<Rightarrow> bool"
    and Swap :: "nat \<Rightarrow> nat \<Rightarrow> 's \<Rightarrow> 's"
    and keys :: "'s \<Rightarrow> 'k::linorder list"
    and ok :: "'s \<Rightarrow> bool"
  assumes Less_keys: "ok h \<Longrightarrow> i < length (keys h) \<Longrightarrow> j < length (keys h) \<Longrightarrow>
      Less i j h \<longleftrightarrow> keys h ! i < keys h ! j"
    and keys_Swap: "ok h \<Longrightarrow> i < length (keys h) \<Longrightarrow> j < length (keys h) \<Longrightarrow>
      keys (Swap i j h) = exchange i j (keys h)"
    and ok_Swap: "ok h \<Longrightarrow> i < length (keys h) \<Longrightarrow> j < length (keys h) \<Longrightarrow> ok (Swap i j h)"
begin

lemma length_keys_Swap:
  "ok h \<Longrightarrow> i < length (keys h) \<Longrightarrow> j < length (keys h) \<Longrightarrow> length (keys (Swap i j h)) = length (keys h)"
  by (simp add: keys_Swap)

lemma up_keeps:
  assumes "\<And>h i j. ok h \<Longrightarrow> P h \<Longrightarrow> i < length (keys h) \<Longrightarrow> j < length (keys h) \<Longrightarrow> P (Swap i j h)"
    and "ok h" "P h" "j < length (keys h)"
  shows "P (heap_up Less Swap j h) \<and> ok (heap_up Less Swap j h)"
  using assms(2-)
proof (induction j arbitrary: h rule: less_induct)
  case (less j)
  show ?case
  proof (cases "parent j = j \<or> \<not> Less j (parent j) h")
    case True
    with less.prems show ?thesis by (subst (1 2) heap_up.simps) (simp add: parent_def Let_def)
  next
    case False
    then have p: "parent j < j" using parent_le [of j] by simp
    with less.prems have "parent j < length (keys (Swap (parent j) j h))"
      and "ok (Swap (parent j) j h)" "P (Swap (parent j) j h)"
      by (simp_all add: length_keys_Swap ok_Swap assms(1))
    with less.IH [OF p] False show ?thesis
      by (subst (1 2) heap_up.simps) (simp add: parent_def Let_def)
  qed
qed

lemma up_heap:
  assumes "ok h" "j < length (keys h)" "heap_except j (length (keys h)) (keys h)"
    "children_ok j (length (keys h)) (keys h)"
  shows "is_heap (length (keys h)) (keys (heap_up Less Swap j h))"
  using assms
proof (induction j arbitrary: h rule: less_induct)
  case (less j)
  let ?n = "length (keys h)" and ?h = "Swap (parent j) j h"
  show ?case
  proof (cases "0 < j \<and> keys h ! j < keys h ! parent j")
    case False
    then have stop: "heap_up Less Swap j h = h"
      using less.prems(1,2) Less_keys [of h j "parent j"]
      by (subst heap_up.simps) (auto simp: parent_def Let_def)
    have "0 < j \<Longrightarrow> edge (keys h) j" using False by (auto simp: edge_def)
    with stop less.prems(3,4) show ?thesis by (simp add: heap_except_heap)
  next
    case True
    then have p: "parent j < j" by simp
    have go: "heap_up Less Swap j h = heap_up Less Swap (parent j) ?h"
      using True p less.prems(1,2) Less_keys [of h j "parent j"]
      by (subst heap_up.simps) (auto simp: parent_def Let_def)
    have k: "keys ?h = exchange (parent j) j (keys h)"
      using less.prems p by (simp add: keys_Swap)
    have "ok ?h" "parent j < length (keys ?h)" "length (keys ?h) = ?n"
      using less.prems p by (simp_all add: ok_Swap k)
    moreover have "heap_except (parent j) ?n (keys ?h)" "children_ok (parent j) ?n (keys ?h)"
      using heap_except_up [of j ?n "keys h"] less.prems True by (simp_all add: k)
    ultimately show ?thesis using less.IH [OF p, of ?h] go by simp
  qed
qed

lemma down_keeps:
  assumes "\<And>h i j. ok h \<Longrightarrow> P h \<Longrightarrow> i < n \<Longrightarrow> j < n \<Longrightarrow> P (Swap i j h)"
    and "ok h" "P h" "n \<le> length (keys h)"
  shows "P (snd (heap_down_loop Less Swap i n h)) \<and> ok (snd (heap_down_loop Less Swap i n h)) \<and>
    i \<le> fst (heap_down_loop Less Swap i n h) \<and>
    (fst (heap_down_loop Less Swap i n h) = i \<longrightarrow> snd (heap_down_loop Less Swap i n h) = h)"
  using assms(2-)
proof (induction "n - i" arbitrary: i h rule: less_induct)
  case less
  define j where "j = (if 2 * i + 1 + 1 < n \<and> Less (2 * i + 1 + 1) (2 * i + 1) h
    then 2 * i + 1 + 1 else 2 * i + 1)"
  show ?case
  proof (cases "2 * i + 1 < n \<and> Less j i h")
    case False
    then have "heap_down_loop Less Swap i n h = (i, h)"
      by (subst heap_down_loop.simps) (auto simp: Let_def j_def)
    with less.prems show ?thesis by simp
  next
    case True
    then have go: "heap_down_loop Less Swap i n h = heap_down_loop Less Swap j n (Swap i j h)"
      by (subst heap_down_loop.simps) (auto simp: Let_def j_def)
    have j: "i < j" "j < n" "n - j < n - i" using True by (auto simp: j_def)
    have "n \<le> length (keys (Swap i j h))" "ok (Swap i j h)" "P (Swap i j h)"
      using j less.prems by (simp_all add: length_keys_Swap ok_Swap assms(1))
    from less.hyps [OF j(3) this(2,3,1)] j show ?thesis
      unfolding go by auto
  qed
qed

lemma down_heap:
  assumes "ok h" "n \<le> length (keys h)" "i < n" "heap_except i n (keys h)"
  shows "(\<forall>c. 0 < c \<and> c < n \<and> c \<noteq> i \<longrightarrow> edge (keys (snd (heap_down_loop Less Swap i n h))) c) \<and>
    (fst (heap_down_loop Less Swap i n h) \<noteq> i \<longrightarrow> 0 < i \<longrightarrow>
     edge (keys (snd (heap_down_loop Less Swap i n h))) i)"
  using assms
proof (induction "n - i" arbitrary: i h rule: less_induct)
  case less
  define j where "j = (if 2 * i + 1 + 1 < n \<and> Less (2 * i + 1 + 1) (2 * i + 1) h
    then 2 * i + 1 + 1 else 2 * i + 1)"
  have child: "0 < c \<and> parent c = i \<longleftrightarrow> c = 2 * i + 1 \<or> c = 2 * i + 2" for c
    using parent_eq_iff [of c i] by auto
  show ?case
  proof (cases "2 * i + 1 < n \<and> Less j i h")
    case False
    then have stop: "heap_down_loop Less Swap i n h = (i, h)"
      by (subst heap_down_loop.simps) (auto simp: Let_def j_def)
    have "edge (keys h) c" if "0 < c" "c < n" "parent c = i" for c
      using that child [of c] False less.prems Less_keys [of h "2 * i + 2" "2 * i + 1"]
        Less_keys [of h "2 * i + 1" i] Less_keys [of h "2 * i + 2" i]
      by (auto simp: edge_def j_def split: if_splits)
    with stop less.prems(4) show ?thesis by (auto simp: heap_except_def)
  next
    case True
    let ?h = "Swap i j h"
    have go: "heap_down_loop Less Swap i n h = heap_down_loop Less Swap j n ?h"
      using True by (subst heap_down_loop.simps) (auto simp: Let_def j_def)
    have j: "i < j" "j < n" "0 < j" "parent j = i"
      using True parent_eq_iff [of j i] by (auto simp: j_def)
    have small: "keys h ! j \<le> keys h ! c" if "0 < c" "c < n" "parent c = i" for c
      using that child [of c] less.prems Less_keys [of h "2 * i + 2" "2 * i + 1"]
      by (auto simp: j_def split: if_splits)
    have lt: "keys h ! j < keys h ! i"
      using True j less.prems Less_keys [of h j i] by simp
    have k: "keys ?h = exchange i j (keys h)"
      using j less.prems by (simp add: keys_Swap)
    note moved = heap_except_down [OF less.prems(4) j(3,2) less.prems(2) j(4) small lt, folded k]
    have oks: "ok ?h" "n \<le> length (keys ?h)" using j less.prems by (simp_all add: ok_Swap k)
    have "n - j < n - i" using j by simp
    note IH = less.hyps [OF this oks j(2) moved(1)]
    have same: "fst (heap_down_loop Less Swap j n ?h) = j \<longrightarrow> snd (heap_down_loop Less Swap j n ?h) = ?h"
      using down_keeps [where P = "\<lambda>_. True" and n = n and h = ?h and i = j] oks by blast
    have "edge (keys (snd (heap_down_loop Less Swap j n ?h))) j"
      using IH same moved(2) j(3) by metis
    then have "\<forall>c. 0 < c \<and> c < n \<longrightarrow> edge (keys (snd (heap_down_loop Less Swap j n ?h))) c"
      using IH by metis
    then show ?thesis using less.prems(3) unfolding go by blast
  qed
qed

lemma fix_heap:
  assumes "ok h" "i < length (keys h)" "heap_except i (length (keys h)) (keys h)"
  shows "is_heap (length (keys h)) (keys (heap_fix Less Swap (length (keys h)) i h))"
proof -
  let ?n = "length (keys h)"
  obtain i' h' where d: "heap_down_loop Less Swap i ?n h = (i', h')" by fastforce
  from down_heap [OF assms(1) order_refl assms(2,3)]
  have e: "\<forall>c. 0 < c \<and> c < ?n \<and> c \<noteq> i \<longrightarrow> edge (keys h') c" "i' \<noteq> i \<Longrightarrow> 0 < i \<Longrightarrow> edge (keys h') i"
    by (simp_all add: d)
  have keep: "i \<le> i'" "i' = i \<longrightarrow> h' = h"
    using down_keeps [where P = "\<lambda>_. True" and n = ?n and h = h and i = i] assms(1) by (simp_all add: d)
  show ?thesis
  proof (cases "i < i'")
    case True
    then show ?thesis using e by (auto simp: heap_fix_def heap_down_def d is_heap_def)
  next
    case False
    then have "h' = h" using keep by simp
    moreover have "children_ok i ?n (keys h)"
      unfolding children_ok_def using e \<open>h' = h\<close> by (metis less_irrefl parent_less)
    ultimately show ?thesis
      using False assms up_heap by (simp add: heap_fix_def heap_down_def d)
  qed
qed

end

end
