(* ===== verification/Replay.thy ===== *)
theory Replay
  imports GoHeap
begin

text \<open>
  The bounded process-local replay store of \<^verbatim>\<open>replay.go\<close>.

  Go shares each \<^verbatim>\<open>*replayEntry\<close> between the map \<^verbatim>\<open>entries\<close> and the slice \<^verbatim>\<open>expiry\<close>, and mutates
  it in place (\<^verbatim>\<open>index\<close> by the heap, \<^verbatim>\<open>expiresAt\<close> by \<^verbatim>\<open>Consume\<close>), so the model has an explicit
  object store: \<open>cells\<close> maps a reference to its entry, \<open>entries\<close> and \<open>expiry\<close> hold references and
  \<open>nextRef\<close> is the next reference an allocation returns.

  \<open>consumeLocked\<close> is the body of \<^verbatim>\<open>Consume\<close> between lock and unlock, \<open>Consume\<close> the whole method for
  one caller with everything it observes of its context and clock. The interleaving of several
  callers around the mutex is in the theory \<^verbatim>\<open>ReplayConc\<close>. The abstract store is a map from
  identity to expiration time (\<open>absReplay\<close>); the locale \<open>replay_contract\<close> states what a
  \<^verbatim>\<open>ReplayStore\<close> promises over that view, and its interpretation is the refinement proof.
\<close>

section \<open>Data\<close>

type_synonym ref = nat

record ReplayRecord =
  RecKeyID :: string
  RecNonce :: string
  RecExpiresAt :: time

record replayIdentity =
  keyID :: string
  nonce :: string

record replayEntry =
  identity :: replayIdentity
  expiresAt :: time
  index :: int

record memoryReplayState =
  cells :: "ref \<Rightarrow> replayEntry"
  nextRef :: ref
  entries :: "replayIdentity \<rightharpoonup> ref"
  expiry :: "ref list"
  latestNow :: time

record MemoryReplayConfig =
  CfgCapacity :: int
  CfgMaxTTL :: duration
  CfgMaxKeyIDBytes :: int
  CfgMaxNonceBytes :: int
  CfgNow :: "time option"

text \<open>
  A store value: \<open>state = None\<close> is the zero value, whose \<^verbatim>\<open>mu\<close>, \<^verbatim>\<open>state\<close> and \<^verbatim>\<open>entries\<close> are nil.
  \<open>clock\<close> is what \<^verbatim>\<open>store.now()\<close> returns to this call, \<open>None\<close> for a nil function.
\<close>

record MemoryReplayStore =
  state :: "memoryReplayState option"
  capacity :: int
  maxTTL :: duration
  maxKeyIDBytes :: int
  maxNonceBytes :: int
  clock :: "time option"

section \<open>The expiration heap: heap.Interface\<close>

definition Len :: "memoryReplayState \<Rightarrow> nat" where
  "Len s = length (expiry s)"

definition Less :: "nat \<Rightarrow> nat \<Rightarrow> memoryReplayState \<Rightarrow> bool" where
  "Less left right s =
     (expiresAt (cells s (expiry s ! left)) < expiresAt (cells s (expiry s ! right)))"

definition setIndex :: "ref \<Rightarrow> int \<Rightarrow> memoryReplayState \<Rightarrow> memoryReplayState" where
  "setIndex r i s = s\<lparr>cells := (cells s)(r := (cells s r)\<lparr>index := i\<rparr>)\<rparr>"

definition Swap :: "nat \<Rightarrow> nat \<Rightarrow> memoryReplayState \<Rightarrow> memoryReplayState" where
  "Swap left right s =
     (let s1 = s\<lparr>expiry := (expiry s)[left := expiry s ! right, right := expiry s ! left]\<rparr>;
          s2 = setIndex (expiry s1 ! left) (int left) s1
      in setIndex (expiry s2 ! right) (int right) s2)"

definition Push :: "ref \<Rightarrow> memoryReplayState \<Rightarrow> memoryReplayState" where
  "Push entry s = (setIndex entry (int (Len s)) s)\<lparr>expiry := expiry s @ [entry]\<rparr>"

text \<open>\<^verbatim>\<open>Pop\<close> removes and returns the last slot; it is only called on a non-empty heap.\<close>

definition Pop :: "memoryReplayState \<Rightarrow> ref \<times> memoryReplayState" where
  "Pop s =
     (let last = Len s - 1; entry = expiry s ! last
      in (entry, setIndex entry (-1) (s\<lparr>expiry := take last (expiry s)\<rparr>)))"

definition heapPush :: "ref \<Rightarrow> memoryReplayState \<Rightarrow> memoryReplayState" where
  "heapPush entry s = (let s' = Push entry s in heap_up Less Swap (Len s' - 1) s')"

definition heapPop :: "memoryReplayState \<Rightarrow> ref \<times> memoryReplayState" where
  "heapPop s = (let n = Len s - 1 in Pop (snd (heap_down Less Swap 0 n (Swap 0 n s))))"

definition heapFix :: "nat \<Rightarrow> memoryReplayState \<Rightarrow> memoryReplayState" where
  "heapFix i s = heap_fix Less Swap (Len s) i s"

section \<open>The store\<close>

definition emptyReplayState :: memoryReplayState where
  "emptyReplayState =
     \<lparr>cells = (\<lambda>_. \<lparr>identity = \<lparr>keyID = '''', nonce = ''''\<rparr>, expiresAt = 0, index = 0\<rparr>),
      nextRef = 0, entries = Map.empty, expiry = [], latestNow = 0\<rparr>"

definition NewMemoryReplayStore :: "MemoryReplayConfig \<Rightarrow> MemoryReplayStore res" where
  "NewMemoryReplayStore config =
     (if CfgCapacity config \<le> 0 \<or> CfgMaxTTL config \<le> 0 \<or> CfgMaxKeyIDBytes config \<le> 0 \<or>
         CfgMaxNonceBytes config \<le> 0 \<or> CfgNow config = None
      then Inl (Sentinel ErrInvalidReplayConfig)
      else Inr \<lparr>state = Some emptyReplayState, capacity = CfgCapacity config,
                maxTTL = CfgMaxTTL config, maxKeyIDBytes = CfgMaxKeyIDBytes config,
                maxNonceBytes = CfgMaxNonceBytes config, clock = CfgNow config\<rparr>)"

definition removeOldestExpired :: "time \<Rightarrow> memoryReplayState \<Rightarrow> memoryReplayState" where
  "removeOldestExpired now s =
     (if Len s = 0 \<or> expiresAt (cells s (expiry s ! 0)) > now then s
      else case heapPop s of (entry, s') \<Rightarrow>
             s'\<lparr>entries := (entries s')(identity (cells s' entry) := None)\<rparr>)"

text \<open>The critical section of \<^verbatim>\<open>Consume\<close>, from the clamping of the clock to the return.\<close>

definition consumeLocked ::
  "int \<Rightarrow> duration \<Rightarrow> time \<Rightarrow> ReplayRecord \<Rightarrow> memoryReplayState \<Rightarrow> unit res \<times> memoryReplayState" where
  "consumeLocked cap ttl sampled record s0 =
     (let (now, s) = (if sampled < latestNow s0 then (latestNow s0, s0)
                      else (sampled, s0\<lparr>latestNow := sampled\<rparr>)) in
      if \<not> RecExpiresAt record > now \<or> timeSub (RecExpiresAt record) now > ttl
      then (Inl (Sentinel ErrInvalidReplayRecord), s)
      else
        let s1 = removeOldestExpired now s;
            ident = \<lparr>keyID = RecKeyID record, nonce = RecNonce record\<rparr>
        in case entries s1 ident of
             Some existing \<Rightarrow>
               if expiresAt (cells s1 existing) > now
               then (Inl (Sentinel ErrReplayDetected), s1)
               else
                 let s2 = s1\<lparr>cells := (cells s1)(existing :=
                            (cells s1 existing)\<lparr>expiresAt := RecExpiresAt record\<rparr>)\<rparr>
                 in (Inr (), heapFix (nat (index (cells s2 existing))) s2)
           | None \<Rightarrow>
               if int (card (dom (entries s1))) \<ge> cap
               then (Inl (Sentinel ErrReplayCapacity), s1)
               else
                 let entry = nextRef s1;
                     s2 = s1\<lparr>nextRef := Suc entry,
                             cells := (cells s1)(entry :=
                               \<lparr>identity = ident, expiresAt = RecExpiresAt record, index = 0\<rparr>),
                             entries := (entries s1)(ident \<mapsto> entry)\<rparr>
                 in (Inr (), heapPush entry s2))"

text \<open>
  What one call of \<^verbatim>\<open>Consume\<close> observes of its context: nil or not, the two \<^verbatim>\<open>ctx.Err()\<close> before the
  lock, whether \<^verbatim>\<open>lockContext\<close> obtained the lock, and \<^verbatim>\<open>ctx.Err()\<close> after a failed wait.
\<close>

record ctxObs =
  ctxNil :: bool
  errAtEntry :: "goerr option"
  errAfterClock :: "goerr option"
  lockAcquired :: bool
  errAfterWait :: "goerr option"

definition replayContextError :: "goerr option \<Rightarrow> goerr" where
  "replayContextError err = (case err of Some e \<Rightarrow> e | None \<Rightarrow> Sentinel ContextCanceled)"

definition validReplayRecord :: "MemoryReplayStore \<Rightarrow> ReplayRecord \<Rightarrow> bool" where
  "validReplayRecord store record \<longleftrightarrow>
     \<not> (RecKeyID record = '''' \<or> go_len (RecKeyID record) > maxKeyIDBytes store \<or>
        RecNonce record = '''' \<or> go_len (RecNonce record) > maxNonceBytes store \<or>
        isZero (RecExpiresAt record))"

definition Consume ::
  "ctxObs \<Rightarrow> MemoryReplayStore option \<Rightarrow> ReplayRecord \<Rightarrow> unit res \<times> MemoryReplayStore option" where
  "Consume ctx store record =
     (if ctxNil ctx then (Inl (NewErr ''http signature: nil context''), store)
      else case errAtEntry ctx of
        Some err \<Rightarrow> (Inl err, store)
      | None \<Rightarrow>
        case store of
          None \<Rightarrow> (Inl (Sentinel ErrInvalidReplayConfig), store)
        | Some st \<Rightarrow>
          (case (state st, clock st) of
             (Some s, Some now) \<Rightarrow>
               if capacity st \<le> 0 \<or> maxTTL st \<le> 0 \<or> maxKeyIDBytes st \<le> 0 \<or> maxNonceBytes st \<le> 0
               then (Inl (Sentinel ErrInvalidReplayConfig), store)
               else if \<not> validReplayRecord st record
               then (Inl (Sentinel ErrInvalidReplayRecord), store)
               else (case errAfterClock ctx of
                       Some err \<Rightarrow> (Inl err, store)
                     | None \<Rightarrow>
                         if \<not> lockAcquired ctx
                         then (Inl (replayContextError (errAfterWait ctx)), store)
                         else case consumeLocked (capacity st) (maxTTL st) now record s of
                                (r, s') \<Rightarrow> (r, Some (st\<lparr>state := Some s'\<rparr>)))
           | _ \<Rightarrow> (Inl (Sentinel ErrInvalidReplayConfig), store)))"

section \<open>Representation invariant\<close>

abbreviation keyOf :: "memoryReplayState \<Rightarrow> ref \<Rightarrow> time" where
  "keyOf s r \<equiv> expiresAt (cells s r)"

definition heapKeys :: "memoryReplayState \<Rightarrow> time list" where
  "heapKeys s = map (keyOf s) (expiry s)"

text \<open>Every slot's entry records its slot, and no entry occupies two slots.\<close>

definition indexed :: "memoryReplayState \<Rightarrow> bool" where
  "indexed s \<longleftrightarrow> distinct (expiry s) \<and> (\<forall>i < length (expiry s). index (cells s (expiry s ! i)) = int i)"

text \<open>The map and the heap hold the same entries, under the identity each entry records.\<close>

definition linked :: "memoryReplayState \<Rightarrow> bool" where
  "linked s \<longleftrightarrow>
     (\<forall>i r. entries s i = Some r \<longleftrightarrow> r \<in> set (expiry s) \<and> identity (cells s r) = i) \<and>
     (\<forall>r \<in> set (expiry s). r < nextRef s)"

definition wfReplay :: "memoryReplayState \<Rightarrow> bool" where
  "wfReplay s \<longleftrightarrow> indexed s \<and> linked s \<and> is_heap (length (expiry s)) (heapKeys s)"

text \<open>The abstract store.\<close>

definition absReplay :: "memoryReplayState \<Rightarrow> replayIdentity \<Rightarrow> time option" where
  "absReplay s i = map_option (keyOf s) (entries s i)"

section \<open>The heap operations keep the store\<close>

text \<open>Two states that differ only in the order of the heap and the recorded slots.\<close>

definition sameStore :: "memoryReplayState \<Rightarrow> memoryReplayState \<Rightarrow> bool" where
  "sameStore s h \<longleftrightarrow>
     entries h = entries s \<and> nextRef h = nextRef s \<and> latestNow h = latestNow s \<and>
     set (expiry h) = set (expiry s) \<and> length (expiry h) = length (expiry s) \<and>
     (\<forall>r. keyOf h r = keyOf s r \<and> identity (cells h r) = identity (cells s r))"

lemma setIndex_simps [simp]:
  "expiry (setIndex r i s) = expiry s" "entries (setIndex r i s) = entries s"
  "nextRef (setIndex r i s) = nextRef s" "latestNow (setIndex r i s) = latestNow s"
  "keyOf (setIndex r i s) x = keyOf s x" "identity (cells (setIndex r i s) x) = identity (cells s x)"
  "index (cells (setIndex r i s) x) = (if x = r then i else index (cells s x))"
  by (simp_all add: setIndex_def)

lemma Swap_simps [simp]:
  "expiry (Swap i j s) = exchange i j (expiry s)" "entries (Swap i j s) = entries s"
  "nextRef (Swap i j s) = nextRef s" "latestNow (Swap i j s) = latestNow s"
  "keyOf (Swap i j s) x = keyOf s x" "identity (cells (Swap i j s) x) = identity (cells s x)"
  by (simp_all add: Swap_def Let_def)

lemma length_heapKeys [simp]: "length (heapKeys s) = length (expiry s)"
  by (simp add: heapKeys_def)

lemma heapKeys_Swap:
  "i < length (expiry s) \<Longrightarrow> j < length (expiry s) \<Longrightarrow> heapKeys (Swap i j s) = exchange i j (heapKeys s)"
  by (simp add: heapKeys_def map_update)

lemma set_exchange: "i < length xs \<Longrightarrow> j < length xs \<Longrightarrow> set (exchange i j xs) = set xs"
  by (metis mset_swap set_mset_mset)

lemma distinct_exchange: "i < length xs \<Longrightarrow> j < length xs \<Longrightarrow> distinct (exchange i j xs) = distinct xs"
  by (rule distinct_swap)

lemma indexed_Swap:
  assumes "indexed s" "i < length (expiry s)" "j < length (expiry s)"
  shows "indexed (Swap i j s)"
proof -
  define xs where "xs = exchange i j (expiry s)"
  have d: "distinct xs" using assms by (simp add: xs_def indexed_def)
  have upd: "index (cells (Swap i j s) x) =
      (if x = xs ! j then int j else if x = xs ! i then int i else index (cells s x))" for x
    by (simp add: Swap_def Let_def xs_def)
  have "index (cells (Swap i j s) (xs ! k)) = int k" if k: "k < length (expiry s)" for k
  proof -
    have "xs ! k = xs ! i \<longleftrightarrow> k = i" "xs ! k = xs ! j \<longleftrightarrow> k = j"
      using nth_eq_iff_index_eq [OF d, of k i] nth_eq_iff_index_eq [OF d, of k j] k assms
      by (simp_all add: xs_def)
    moreover have "k \<noteq> i \<Longrightarrow> k \<noteq> j \<Longrightarrow> index (cells s (xs ! k)) = int k"
      using assms k by (simp add: indexed_def xs_def)
    ultimately show ?thesis by (simp add: upd)
  qed
  with d show ?thesis by (simp add: indexed_def xs_def)
qed

lemma sameStore_refl [simp]: "sameStore s s"
  by (simp add: sameStore_def)

lemma sameStore_trans: "sameStore s t \<Longrightarrow> sameStore t u \<Longrightarrow> sameStore s u"
  by (simp add: sameStore_def)

lemma sameStore_Swap:
  "i < length (expiry h) \<Longrightarrow> j < length (expiry h) \<Longrightarrow> sameStore s h \<Longrightarrow> sameStore s (Swap i j h)"
  by (simp add: sameStore_def set_exchange)

interpretation expiryHeap: heap_interface Less Swap heapKeys indexed
  by unfold_locales (simp_all add: Less_def heapKeys_def indexed_Swap map_update)

lemma heap_up_same:
  assumes "indexed s" "j < Len s"
  shows "sameStore s (heap_up Less Swap j s)" "indexed (heap_up Less Swap j s)"
  using expiryHeap.up_keeps [where P = "sameStore s" and h = s and j = j] assms
  by (simp_all add: sameStore_Swap Len_def)

lemma heap_down_same:
  assumes "indexed s" "n \<le> Len s"
  shows "sameStore s (snd (heap_down Less Swap i n s))" "indexed (snd (heap_down Less Swap i n s))"
    and "\<forall>k \<ge> n. expiry (snd (heap_down Less Swap i n s)) ! k = expiry s ! k"
proof -
  let ?P = "\<lambda>h. sameStore s h \<and> (\<forall>k \<ge> n. expiry h ! k = expiry s ! k)"
  have len: "?P h \<Longrightarrow> length (expiry h) = length (expiry s)" for h
    by (simp add: sameStore_def)
  have "?P (Swap i j h)" if "?P h" "i < n" "j < n" for h i j
    using that len [of h] assms(2) by (auto simp: sameStore_Swap Len_def)
  then have "?P (snd (heap_down_loop Less Swap i n s)) \<and> indexed (snd (heap_down_loop Less Swap i n s))"
    using expiryHeap.down_keeps [where P = ?P and h = s and n = n and i = i] assms
    by (simp add: Len_def)
  then show "sameStore s (snd (heap_down Less Swap i n s))" "indexed (snd (heap_down Less Swap i n s))"
    "\<forall>k \<ge> n. expiry (snd (heap_down Less Swap i n s)) ! k = expiry s ! k"
    by (auto simp: heap_down_def split: prod.splits)
qed

lemma heapFix_same:
  assumes "indexed s" "i < Len s"
  shows "sameStore s (heapFix i s)" "indexed (heapFix i s)"
proof -
  obtain b h where d: "heap_down Less Swap i (Len s) s = (b, h)" by fastforce
  have h: "sameStore s h" "indexed h"
    using heap_down_same [OF assms(1), of "Len s" i] by (simp_all add: d)
  then have "i < Len h" using assms(2) by (simp add: sameStore_def Len_def)
  from heap_up_same [OF h(2) this] h
  show "sameStore s (heapFix i s)" "indexed (heapFix i s)"
    by (auto simp: heapFix_def heap_fix_def d intro: sameStore_trans)
qed

section \<open>Invariant and abstract effect of each operation\<close>

lemma linked_same: "linked s \<Longrightarrow> sameStore s h \<Longrightarrow> linked h"
  by (simp add: linked_def sameStore_def)

lemma absReplay_same: "sameStore s h \<Longrightarrow> absReplay h = absReplay s"
  by (auto simp: sameStore_def absReplay_def fun_eq_iff intro!: option.map_cong0)

lemma entries_dom: "linked s \<Longrightarrow> dom (entries s) = (\<lambda>r. identity (cells s r)) ` set (expiry s)"
  by (auto simp: linked_def)

lemma card_entries:
  assumes "indexed s" "linked s"
  shows "card (dom (entries s)) = length (expiry s)"
proof -
  have "inj_on (\<lambda>r. identity (cells s r)) (set (expiry s))"
    using assms(2) by (auto simp: linked_def inj_on_def) (metis option.inject)
  then show ?thesis
    using assms by (simp add: entries_dom card_image indexed_def distinct_card)
qed

lemma linked_inj:
  "linked s \<Longrightarrow> r \<in> set (expiry s) \<Longrightarrow> q \<in> set (expiry s) \<Longrightarrow>
   identity (cells s r) = identity (cells s q) \<Longrightarrow> r = q"
  unfolding linked_def by (metis option.inject)

lemma dom_absReplay: "dom (absReplay s) = dom (entries s)"
  by (auto simp: absReplay_def)

lemma absReplay_expiry:
  "linked s \<Longrightarrow> r \<in> set (expiry s) \<Longrightarrow> absReplay s (identity (cells s r)) = Some (keyOf s r)"
  unfolding linked_def absReplay_def by (metis option.simps(9))

lemma absReplay_SomeD:
  "linked s \<Longrightarrow> absReplay s i = Some t \<Longrightarrow>
   \<exists>r \<in> set (expiry s). entries s i = Some r \<and> identity (cells s r) = i \<and> keyOf s r = t"
  by (auto simp: linked_def absReplay_def)

lemma wf_empty: "wfReplay emptyReplayState"
  by (simp add: wfReplay_def emptyReplayState_def indexed_def linked_def is_heap_def)

lemma heapFix_wf:
  assumes "indexed s" "linked s" "i < Len s" "heap_except i (Len s) (heapKeys s)"
  shows "wfReplay (heapFix i s)" "absReplay (heapFix i s) = absReplay s"
    "latestNow (heapFix i s) = latestNow s"
proof -
  note same = heapFix_same [OF assms(1,3)]
  have "is_heap (Len s) (heapKeys (heapFix i s))"
    using expiryHeap.fix_heap [OF assms(1)] assms(3,4) by (simp add: heapFix_def Len_def)
  with same assms(2) show "wfReplay (heapFix i s)"
    by (simp add: wfReplay_def linked_same) (simp add: sameStore_def Len_def)
  show "absReplay (heapFix i s) = absReplay s" "latestNow (heapFix i s) = latestNow s"
    using same by (auto simp: absReplay_same sameStore_def)
qed

lemma heapPush_wf:
  assumes "indexed s" "is_heap (Len s) (heapKeys s)" "entry \<notin> set (expiry s)"
    and "linked (s\<lparr>expiry := expiry s @ [entry]\<rparr>)"
  shows "wfReplay (heapPush entry s)" "absReplay (heapPush entry s) = absReplay s"
    "latestNow (heapPush entry s) = latestNow s"
proof -
  let ?p = "Push entry s"
  have x: "expiry ?p = expiry s @ [entry]" "entries ?p = entries s" "latestNow ?p = latestNow s"
      "nextRef ?p = nextRef s"
    by (simp_all add: Push_def setIndex_def)
  have c: "keyOf ?p r = keyOf s r" "identity (cells ?p r) = identity (cells s r)" for r
    by (simp_all add: Push_def setIndex_def)
  have ind: "indexed ?p"
    using assms(1,3) by (auto simp: indexed_def x nth_append Push_def setIndex_def Len_def less_Suc_eq)
  have keys: "heapKeys ?p = heapKeys s @ [keyOf s entry]"
    by (simp add: heapKeys_def x c)
  have link: "linked ?p" using assms(4) by (simp add: linked_def x c)
  have abs: "absReplay ?p = absReplay s" by (auto simp: absReplay_def x c intro!: option.map_cong0)
  have n: "Len ?p - 1 = length (heapKeys s)" "Len ?p = Suc (length (heapKeys s))"
    by (simp_all add: Len_def x)
  have "is_heap (Len ?p) (heapKeys (heap_up Less Swap (Len ?p - 1) ?p))"
    using expiryHeap.up_heap [OF ind, of "Len ?p - 1"] heap_except_append [of "heapKeys s"] assms(2) n
    by (simp add: keys Len_def)
  moreover note same = heap_up_same [OF ind, of "Len ?p - 1"]
  ultimately show "wfReplay (heapPush entry s)"
    using n link by (simp add: wfReplay_def heapPush_def Let_def linked_same) (simp add: sameStore_def Len_def)
  show "absReplay (heapPush entry s) = absReplay s" "latestNow (heapPush entry s) = latestNow s"
    using same n abs x by (simp_all add: heapPush_def Let_def absReplay_same) (simp add: sameStore_def)
qed

lemma heapPop_props:
  assumes "indexed s" "is_heap (Len s) (heapKeys s)" "0 < Len s" "heapPop s = (entry, h)"
  shows "entry = expiry s ! 0" "indexed h" "is_heap (Len h) (heapKeys h)"
    "set (expiry h) = set (expiry s) - {entry}" "entries h = entries s" "nextRef h = nextRef s"
    "latestNow h = latestNow s" "\<And>r. keyOf h r = keyOf s r"
    "\<And>r. identity (cells h r) = identity (cells s r)"
proof -
  define n where "n = Len s - 1"
  define s1 where "s1 = Swap 0 n s"
  define s2 where "s2 = snd (heap_down Less Swap 0 n s1)"
  have n: "n < length (expiry s)" "Len s = Suc n" using assms(3) by (auto simp: n_def Len_def)
  have s1: "indexed s1" "sameStore s s1" "Len s1 = Suc n"
    using assms(1) n by (simp_all add: s1_def indexed_Swap sameStore_Swap Len_def)
  have s2: "indexed s2" "sameStore s1 s2" "expiry s2 ! n = expiry s1 ! n"
    using heap_down_same [OF s1(1), of n 0] s1(3) by (simp_all add: s2_def)
  have same: "sameStore s s2" using s1 s2 by (blast intro: sameStore_trans)
  have len: "length (expiry s2) = Suc n" using same n by (simp add: sameStore_def Len_def)
  have pop: "entry = expiry s2 ! n" "h = setIndex entry (-1) (s2\<lparr>expiry := take n (expiry s2)\<rparr>)"
  proof -
    have "heapPop s = Pop s2" by (simp add: heapPop_def n_def s1_def s2_def Let_def)
    moreover have "Len s2 - 1 = n" using len by (simp add: Len_def)
    ultimately show "entry = expiry s2 ! n" "h = setIndex entry (-1) (s2\<lparr>expiry := take n (expiry s2)\<rparr>)"
      using assms(4) by (auto simp: Pop_def Let_def)
  qed
  show entry: "entry = expiry s ! 0"
    using n by (simp add: pop s2 s1_def)
  have x: "expiry h = take n (expiry s2)" by (simp add: pop)
  have split: "expiry s2 = take n (expiry s2) @ [entry]"
    using len pop(1) by (metis lessI take_Suc_conv_app_nth take_all order_refl)
  have d: "distinct (expiry s2)" using s2(1) by (simp add: indexed_def)
  then have notin: "entry \<notin> set (take n (expiry s2))"
    by (subst (asm) split) simp
  show "set (expiry h) = set (expiry s) - {entry}"
    using same split notin unfolding x sameStore_def
    by (metis Diff_insert_absorb insert_is_Un list.set(1) list.simps(15) set_append sup_commute)
  show "indexed h"
    using s2(1) notin d len by (auto simp: indexed_def pop nth_mem [of _ "take n (expiry s2)"])
      (metis in_set_conv_nth length_take min.absorb2 le_SucI order_refl nth_take)
  show fr: "entries h = entries s" "nextRef h = nextRef s" "latestNow h = latestNow s"
    "\<And>r. keyOf h r = keyOf s r" "\<And>r. identity (cells h r) = identity (cells s r)"
    using same by (simp_all add: pop sameStore_def setIndex_def)
  have keys: "heapKeys h = take n (heapKeys s2)"
    using same by (simp add: heapKeys_def x fr take_map sameStore_def)
  have "is_heap n (heapKeys s2)"
  proof (cases "n = 0")
    case False
    have "heap_except 0 n (heapKeys s1)"
      using heap_except_drop_root [of n "heapKeys s"] assms(2) n heapKeys_Swap [of 0 s n]
      by (cases "expiry s = []") (simp_all add: s1_def)
    then show ?thesis
      using expiryHeap.down_heap [OF s1(1), of n 0] False s1(3)
      by (simp add: is_heap_def s2_def snd_heap_down Len_def)
  qed (simp add: is_heap_def)
  then show "is_heap (Len h) (heapKeys h)"
    using len parent_less by (simp add: is_heap_def edge_def keys Len_def x) (metis nth_take order_less_trans parent_less)
qed

text \<open>The head of the heap is an entry with the least expiration.\<close>

lemma head_least:
  assumes "wfReplay s" "absReplay s i = Some t"
  shows "0 < Len s" "keyOf s (expiry s ! 0) \<le> t"
proof -
  obtain r where r: "r \<in> set (expiry s)" "keyOf s r = t"
    using assms by (metis absReplay_SomeD wfReplay_def)
  then obtain k where k: "k < length (expiry s)" "expiry s ! k = r"
    by (metis in_set_conv_nth)
  then show "0 < Len s" by (simp add: Len_def) auto
  have "heapKeys s ! 0 \<le> heapKeys s ! k"
    using assms(1) k by (intro is_heap_min) (auto simp: wfReplay_def)
  with k r show "keyOf s (expiry s ! 0) \<le> t"
    by (metis heapKeys_def nth_map gr_implies_not0 neq0_conv)
qed

lemma removeOldestExpired_spec:
  fixes now :: time
  assumes "wfReplay s"
  defines "s1 \<equiv> removeOldestExpired now s"
  shows "wfReplay s1" "latestNow s1 = latestNow s" "nextRef s1 = nextRef s"
    and "(absReplay s1 = absReplay s \<and> (\<forall>i t. absReplay s i = Some t \<longrightarrow> t > now)) \<or>
     (\<exists>i t. absReplay s i = Some t \<and> t \<le> now \<and>
        (\<forall>j t'. absReplay s j = Some t' \<longrightarrow> t \<le> t') \<and> absReplay s1 = (absReplay s)(i := None))"
proof -
  have inv: "indexed s" "linked s" "is_heap (Len s) (heapKeys s)"
    using assms by (simp_all add: wfReplay_def Len_def)
  have goal: "wfReplay s1 \<and> latestNow s1 = latestNow s \<and> nextRef s1 = nextRef s \<and>
    ((absReplay s1 = absReplay s \<and> (\<forall>i t. absReplay s i = Some t \<longrightarrow> t > now)) \<or>
     (\<exists>i t. absReplay s i = Some t \<and> t \<le> now \<and>
        (\<forall>j t'. absReplay s j = Some t' \<longrightarrow> t \<le> t') \<and> absReplay s1 = (absReplay s)(i := None)))"
  proof (cases "Len s = 0 \<or> keyOf s (expiry s ! 0) > now")
    case True
    then have "s1 = s" by (auto simp: s1_def removeOldestExpired_def)
    moreover have "t > now" if "absReplay s i = Some t" for i t
      using head_least [OF assms(1) that] True by auto
    ultimately show ?thesis using assms by auto
  next
    case False
    obtain entry h where pop: "heapPop s = (entry, h)" by fastforce
    note p = heapPop_props [OF inv(1,3) _ pop]
    have len: "0 < Len s" using False by simp
    note p = p [OF len]
    have s1: "s1 = h\<lparr>entries := (entries h)(identity (cells h entry) := None)\<rparr>"
      using False by (simp add: s1_def removeOldestExpired_def pop)
    have mem: "entry \<in> set (expiry s)" using p(1) len by (simp add: Len_def)
    let ?i = "identity (cells s entry)"
    have "linked s1"
      using inv(2) mem linked_inj [OF inv(2) _ mem] by (auto simp: linked_def s1 p)
    then have "wfReplay s1" using p(2,3) by (simp add: wfReplay_def s1 indexed_def heapKeys_def Len_def)
    moreover have "absReplay s1 = (absReplay s)(?i := None)"
      by (auto simp: absReplay_def s1 p fun_eq_iff intro!: option.map_cong0)
    moreover have "absReplay s ?i = Some (keyOf s entry)"
      using inv(2) mem by (rule absReplay_expiry)
    moreover have "keyOf s entry \<le> now" using False p(1) by simp
    moreover have "keyOf s entry \<le> t'" if "absReplay s j = Some t'" for j t'
      using head_least [OF assms(1) that] p(1) by simp
    ultimately show ?thesis using p(6,7) by (auto simp: s1)
  qed
  then show "wfReplay s1" "latestNow s1 = latestNow s" "nextRef s1 = nextRef s"
    "(absReplay s1 = absReplay s \<and> (\<forall>i t. absReplay s i = Some t \<longrightarrow> t > now)) \<or>
     (\<exists>i t. absReplay s i = Some t \<and> t \<le> now \<and>
        (\<forall>j t'. absReplay s j = Some t' \<longrightarrow> t \<le> t') \<and> absReplay s1 = (absReplay s)(i := None))"
    by blast+
qed

text \<open>The two successful endings of the critical section.\<close>

lemma renew_wf:
  fixes t :: time
  assumes "wfReplay s" "entries s i = Some r"
  defines "s2 \<equiv> s\<lparr>cells := (cells s)(r := (cells s r)\<lparr>expiresAt := t\<rparr>)\<rparr>"
  defines "h \<equiv> heapFix (nat (index (cells s2 r))) s2"
  shows "wfReplay h" "absReplay h = (absReplay s)(i \<mapsto> t)" "latestNow h = latestNow s"
proof -
  have inv: "indexed s" "linked s" "is_heap (Len s) (heapKeys s)"
    using assms(1) by (simp_all add: wfReplay_def Len_def)
  have r: "r \<in> set (expiry s)" "identity (cells s r) = i"
    using inv(2) assms(2) by (auto simp: linked_def)
  then obtain k where k: "k < Len s" "expiry s ! k = r" by (metis in_set_conv_nth Len_def)
  have ind: "nat (index (cells s2 r)) = k"
    using inv(1) k by (auto simp: s2_def indexed_def Len_def)
  have inv2: "indexed s2" "linked s2" "Len s2 = Len s"
    using inv by (auto simp: s2_def indexed_def linked_def Len_def)
  have "distinct (expiry s)" using inv(1) by (simp add: indexed_def)
  then have "heapKeys s2 = (heapKeys s)[k := t]"
    using k by (auto simp: heapKeys_def s2_def list_eq_iff_nth_eq nth_list_update Len_def
        nth_eq_iff_index_eq)
  then have "heap_except k (Len s2) (heapKeys s2)"
    using inv(3) inv2(3) by (simp add: heap_except_update)
  note fix_ = heapFix_wf [OF inv2(1,2) _ this]
  have abs2: "absReplay s2 = (absReplay s)(i \<mapsto> t)"
  proof
    fix j
    have "entries s j = Some x \<Longrightarrow> j \<noteq> i \<Longrightarrow> x \<noteq> r" for x
      using inv(2) r by (auto simp: linked_def)
    then show "absReplay s2 j = ((absReplay s)(i \<mapsto> t)) j"
      using assms(2) by (cases "entries s j") (auto simp: absReplay_def s2_def)
  qed
  show "wfReplay h" "absReplay h = (absReplay s)(i \<mapsto> t)" "latestNow h = latestNow s"
    using fix_ k inv2(3) abs2 by (simp_all add: h_def ind) (simp add: s2_def)
qed

lemma insert_wf:
  fixes t :: time
  assumes "wfReplay s" "entries s i = None"
  defines "s2 \<equiv> s\<lparr>nextRef := Suc (nextRef s),
      cells := (cells s)(nextRef s := \<lparr>identity = i, expiresAt = t, index = 0\<rparr>),
      entries := (entries s)(i \<mapsto> nextRef s)\<rparr>"
  defines "h \<equiv> heapPush (nextRef s) s2"
  shows "wfReplay h" "absReplay h = (absReplay s)(i \<mapsto> t)" "latestNow h = latestNow s"
proof -
  have inv: "indexed s" "linked s" "is_heap (Len s) (heapKeys s)"
    using assms(1) by (simp_all add: wfReplay_def Len_def)
  have fresh: "nextRef s \<notin> set (expiry s)" using inv(2) by (auto simp: linked_def)
  have old: "r \<in> set (expiry s) \<Longrightarrow> cells s2 r = cells s r" for r
    using fresh by (auto simp: s2_def)
  have x: "expiry s2 = expiry s" "Len s2 = Len s" by (simp_all add: s2_def Len_def)
  have "indexed s2" using inv(1) old by (simp add: indexed_def x)
  moreover have "heapKeys s2 = heapKeys s" using old by (simp add: heapKeys_def x)
  moreover have "linked (s2\<lparr>expiry := expiry s2 @ [nextRef s]\<rparr>)"
  proof -
    have "identity (cells s r) \<noteq> i" if "r \<in> set (expiry s)" for r
      using inv(2) assms(2) that by (metis linked_def option.distinct(1))
    then show ?thesis using inv(2) fresh by (auto simp: linked_def s2_def less_Suc_eq)
  qed
  moreover have "absReplay s2 = (absReplay s)(i \<mapsto> t)"
  proof
    fix j
    have "entries s j = Some r \<Longrightarrow> r \<noteq> nextRef s" for r
      using inv(2) by (auto simp: linked_def)
    then show "absReplay s2 j = ((absReplay s)(i \<mapsto> t)) j"
      by (cases "entries s j") (auto simp: absReplay_def s2_def)
  qed
  moreover have "latestNow s2 = latestNow s" by (simp add: s2_def)
  ultimately show "wfReplay h" "absReplay h = (absReplay s)(i \<mapsto> t)" "latestNow h = latestNow s"
    using heapPush_wf [of s2 "nextRef s"] inv(3) fresh x by (simp_all add: h_def)
qed

section \<open>The contract of a replay store\<close>

definition recordIdentity :: "ReplayRecord \<Rightarrow> replayIdentity" where
  "recordIdentity record = \<lparr>keyID = RecKeyID record, nonce = RecNonce record\<rparr>"

text \<open>A sequence of critical sections, each with the clock value its caller sampled.\<close>

fun runReplay ::
  "(time \<Rightarrow> ReplayRecord \<Rightarrow> 's \<Rightarrow> unit res \<times> 's) \<Rightarrow> (time \<times> ReplayRecord) list \<Rightarrow> 's \<Rightarrow>
   unit res list \<times> 's" where
  "runReplay step [] s = ([], s)"
| "runReplay step ((now, record) # ops) s =
     (case step now record s of (r, s') \<Rightarrow> case runReplay step ops s' of (rs, t) \<Rightarrow> (r # rs, t))"

lemma runReplay_Cons [simp]:
  "fst (runReplay step ((now, rec) # ops) s) =
     fst (step now rec s) # fst (runReplay step ops (snd (step now rec s)))"
  "snd (runReplay step ((now, rec) # ops) s) = snd (runReplay step ops (snd (step now rec s)))"
  by (simp_all split: prod.splits)

declare runReplay.simps(2) [simp del]

text \<open>
  What the documentation of \<^verbatim>\<open>ReplayStore\<close> asks of \<^verbatim>\<open>Consume\<close>, over a view of the state as a map
  from identity to the expiration of its last accepted record and a clock that never goes back.
\<close>

locale replay_contract =
  fixes step :: "time \<Rightarrow> ReplayRecord \<Rightarrow> 's \<Rightarrow> unit res \<times> 's"
    and view :: "'s \<Rightarrow> replayIdentity \<Rightarrow> time option"
    and latest :: "'s \<Rightarrow> time"
    and inv :: "'s \<Rightarrow> bool"
  assumes inv_step: "inv s \<Longrightarrow> inv (snd (step now rec s))"
    and latest_step: "inv s \<Longrightarrow> latest (snd (step now rec s)) = max (latest s) now"
    and retained: "inv s \<Longrightarrow> view s i = Some t \<Longrightarrow> max (latest s) now < t \<Longrightarrow>
      view (snd (step now rec s)) i = Some t"
    and accepted: "inv s \<Longrightarrow> fst (step now rec s) = Inr () \<Longrightarrow>
      view (snd (step now rec s)) (recordIdentity rec) = Some (RecExpiresAt rec)"
    and refused: "inv s \<Longrightarrow> view s (recordIdentity rec) = Some t \<Longrightarrow> max (latest s) now < t \<Longrightarrow>
      fst (step now rec s) \<noteq> Inr ()"
begin

definition reserved :: "replayIdentity \<Rightarrow> time \<Rightarrow> 's \<Rightarrow> bool" where
  "reserved i e s \<longleftrightarrow> e \<le> latest s \<or> (\<exists>t. view s i = Some t \<and> e \<le> t)"

lemma reserved_step: "inv s \<Longrightarrow> reserved i e s \<Longrightarrow> reserved i e (snd (step now rec s))"
  unfolding reserved_def latest_step by (metis retained le_max_iff_disj linorder_not_less order_trans)

lemma run_inv: "inv s \<Longrightarrow> inv (snd (runReplay step ops s))"
proof (induction ops arbitrary: s)
  case (Cons op ops)
  then show ?case using inv_step by (cases op) (simp add: inv_step)
qed simp

lemma run_latest: "inv s \<Longrightarrow> latest (snd (runReplay step ops s)) = foldl max (latest s) (map fst ops)"
proof (induction ops arbitrary: s)
  case (Cons op ops)
  obtain now rec where op: "op = (now, rec)" by fastforce
  obtain r s' where st: "step now rec s = (r, s')" by fastforce
  have "inv s'" "latest s' = max (latest s) now"
    using inv_step [OF Cons.prems] latest_step [OF Cons.prems] st by (metis snd_conv)+
  with Cons.IH [of s'] show ?case by (simp add: op st)
qed simp

lemma length_run: "length (fst (runReplay step ops s)) = length ops"
  by (induction ops arbitrary: s) auto

lemma reserved_refuses:
  assumes "inv s" "reserved i e s" "j < length ops" "recordIdentity (snd (ops ! j)) = i"
    "latest s < e" "\<forall>k \<le> j. fst (ops ! k) < e"
  shows "fst (runReplay step ops s) ! j \<noteq> Inr ()"
  using assms
proof (induction ops arbitrary: s j)
  case (Cons op ops)
  obtain now rec where op: "op = (now, rec)" by fastforce
  obtain r s' where st: "step now rec s = (r, s')" by fastforce
  have now: "now < e" using Cons.prems(6) by (metis op fst_conv nth_Cons_0 le0)
  have s': "inv s'" "reserved i e s'" "latest s' < e"
    using inv_step [OF Cons.prems(1), of now rec] reserved_step [OF Cons.prems(1,2), of now rec]
      latest_step [OF Cons.prems(1), of now rec] now Cons.prems(5) by (simp_all add: st)
  show ?case
  proof (cases j)
    case 0
    then have "recordIdentity rec = i" using Cons.prems(4) op by simp
    moreover obtain t where "view s i = Some t" "e \<le> t"
      using Cons.prems(2,5) by (auto simp: reserved_def)
    ultimately have "r \<noteq> Inr ()"
      using refused [OF Cons.prems(1), of rec t now] now Cons.prems(5) st by simp
    then show ?thesis by (simp add: 0 op st)
  next
    case (Suc k)
    have "\<forall>m \<le> k. fst (ops ! m) < e"
      using Cons.prems(6) by (auto simp: Suc dest: spec [of _ "Suc _"])
    with Cons.IH [OF s'(1,2), of k] s'(3) Cons.prems(3,4) show ?thesis
      by (simp add: Suc op st)
  qed
qed simp

text \<open>Exactly one call succeeds before expiration.\<close>

lemma no_second_success:
  assumes "inv s" "i < j" "j < length ops"
    "recordIdentity (snd (ops ! i)) = recordIdentity (snd (ops ! j))"
    "fst (runReplay step ops s) ! i = Inr ()"
    "latest s < RecExpiresAt (snd (ops ! i))"
    "\<forall>k \<le> j. fst (ops ! k) < RecExpiresAt (snd (ops ! i))"
  shows "fst (runReplay step ops s) ! j \<noteq> Inr ()"
  using assms
proof (induction ops arbitrary: s i j)
  case (Cons op ops)
  obtain now rec where op: "op = (now, rec)" by fastforce
  obtain r s' where st: "step now rec s = (r, s')" by fastforce
  obtain k where j: "j = Suc k" using Cons.prems(2) by (cases j) auto
  have inv': "inv s'" and lat: "latest s' = max (latest s) now"
    using inv_step [OF Cons.prems(1), of now rec] latest_step [OF Cons.prems(1), of now rec]
    by (simp_all add: st)
  let ?e = "RecExpiresAt (snd ((op # ops) ! i))"
  have now: "now < ?e" using Cons.prems(7) by (metis op fst_conv nth_Cons_0 le0)
  have later: "\<forall>m \<le> k. fst (ops ! m) < ?e"
    using Cons.prems(7) by (auto simp: j dest: spec [of _ "Suc _"])
  have lat': "latest s' < ?e" using now Cons.prems(6) lat by simp
  show ?case
  proof (cases i)
    case 0
    have "reserved (recordIdentity rec) (RecExpiresAt rec) s'"
      using accepted [OF Cons.prems(1), of now rec] Cons.prems(5) st
      by (simp add: 0 op reserved_def)
    then show ?thesis
      using reserved_refuses [OF inv', of "recordIdentity rec" "RecExpiresAt rec" k ops]
        Cons.prems(3,4) later lat' by (simp add: 0 j op st)
  next
    case (Suc m)
    then show ?thesis
      using Cons.IH [OF inv', of m k] Cons.prems(2-5) later lat'
      by (simp add: j op st)
  qed
qed simp

end

section \<open>Refinement of an abstract store\<close>

text \<open>At most one identity is evicted, an expired one with the least expiration.\<close>

definition evicted ::
  "time \<Rightarrow> (replayIdentity \<Rightarrow> time option) \<Rightarrow> (replayIdentity \<Rightarrow> time option) \<Rightarrow> bool" where
  "evicted now a b \<longleftrightarrow>
     (b = a \<and> (\<forall>i t. a i = Some t \<longrightarrow> now < t)) \<or>
     (\<exists>i t. a i = Some t \<and> t \<le> now \<and> (\<forall>j t'. a j = Some t' \<longrightarrow> t \<le> t') \<and> b = a(i := None))"

text \<open>The abstract \<^verbatim>\<open>Consume\<close> at a clamped clock reading \<open>now\<close>, one rule per outcome.\<close>

inductive replaySpec ::
  "int \<Rightarrow> duration \<Rightarrow> time \<Rightarrow> ReplayRecord \<Rightarrow> (replayIdentity \<Rightarrow> time option) \<Rightarrow> unit res \<Rightarrow>
   (replayIdentity \<Rightarrow> time option) \<Rightarrow> bool"
  for cap :: int and ttl :: duration and now :: time and rec :: ReplayRecord where
  invalid: "RecExpiresAt rec \<le> now \<or> ttl < timeSub (RecExpiresAt rec) now \<Longrightarrow>
     replaySpec cap ttl now rec a (Inl (Sentinel ErrInvalidReplayRecord)) a"
| detected: "now < RecExpiresAt rec \<Longrightarrow> timeSub (RecExpiresAt rec) now \<le> ttl \<Longrightarrow> evicted now a b \<Longrightarrow>
     b (recordIdentity rec) = Some t \<Longrightarrow> now < t \<Longrightarrow>
     replaySpec cap ttl now rec a (Inl (Sentinel ErrReplayDetected)) b"
| renewed: "now < RecExpiresAt rec \<Longrightarrow> timeSub (RecExpiresAt rec) now \<le> ttl \<Longrightarrow> evicted now a b \<Longrightarrow>
     b (recordIdentity rec) = Some t \<Longrightarrow> t \<le> now \<Longrightarrow>
     replaySpec cap ttl now rec a (Inr ()) (b(recordIdentity rec \<mapsto> RecExpiresAt rec))"
| full: "now < RecExpiresAt rec \<Longrightarrow> timeSub (RecExpiresAt rec) now \<le> ttl \<Longrightarrow> evicted now a b \<Longrightarrow>
     b (recordIdentity rec) = None \<Longrightarrow> cap \<le> int (card (dom b)) \<Longrightarrow>
     replaySpec cap ttl now rec a (Inl (Sentinel ErrReplayCapacity)) b"
| inserted: "now < RecExpiresAt rec \<Longrightarrow> timeSub (RecExpiresAt rec) now \<le> ttl \<Longrightarrow> evicted now a b \<Longrightarrow>
     b (recordIdentity rec) = None \<Longrightarrow> int (card (dom b)) < cap \<Longrightarrow>
     replaySpec cap ttl now rec a (Inr ()) (b(recordIdentity rec \<mapsto> RecExpiresAt rec))"

inductive_cases replaySpec_okE: "replaySpec cap ttl now rec a (Inr u) b"
inductive_cases replaySpec_errE: "replaySpec cap ttl now rec a (Inl e) b"

lemma evicted_keeps: "evicted now a b \<Longrightarrow> a i = Some t \<Longrightarrow> now < t \<Longrightarrow> b i = Some t"
  by (auto simp: evicted_def)

lemma evicted_le: "evicted now a b \<Longrightarrow> b i = Some t \<Longrightarrow> a i = Some t"
  by (auto simp: evicted_def split: if_splits)

lemma wfReplay_latestNow [simp]:
  "wfReplay (s\<lparr>latestNow := n\<rparr>) = wfReplay s" "absReplay (s\<lparr>latestNow := n\<rparr>) = absReplay s"
  by (auto simp: wfReplay_def indexed_def linked_def heapKeys_def absReplay_def)

lemma consumeLocked_clamped:
  "consumeLocked cap ttl sampled rec s0 =
   consumeLocked cap ttl (max (latestNow s0) sampled) rec (s0\<lparr>latestNow := max (latestNow s0) sampled\<rparr>)"
proof (cases "sampled < latestNow s0")
  case True
  moreover have "s0\<lparr>latestNow := latestNow s0\<rparr> = s0" by simp
  ultimately show ?thesis by (simp add: consumeLocked_def max_def)
next
  case False
  then show ?thesis by (simp add: consumeLocked_def max_def)
qed

text \<open>One critical section from a clamped state.\<close>

lemma consumeLocked_at:
  assumes "wfReplay s" "latestNow s = now" "consumeLocked cap ttl now rec s = (r, s')"
  shows "wfReplay s' \<and> latestNow s' = now \<and> replaySpec cap ttl now rec (absReplay s) r (absReplay s')"
proof (cases "RecExpiresAt rec \<le> now \<or> timeSub (RecExpiresAt rec) now > ttl")
  case True
  then have "r = Inl (Sentinel ErrInvalidReplayRecord)" "s' = s"
    using assms by (auto simp: consumeLocked_def)
  with True assms show ?thesis by (auto intro: replaySpec.invalid)
next
  case False
  define s1 where "s1 = removeOldestExpired now s"
  have s1: "wfReplay s1" "latestNow s1 = now" and ev: "evicted now (absReplay s) (absReplay s1)"
    using removeOldestExpired_spec [OF assms(1), of now] assms(2)
    by (simp_all add: s1_def evicted_def)
  have card: "card (dom (absReplay s1)) = card (dom (entries s1))" by (simp add: dom_absReplay)
  have fits: "now < RecExpiresAt rec" "timeSub (RecExpiresAt rec) now \<le> ttl" using False by auto
  show ?thesis
  proof (cases "entries s1 (recordIdentity rec)")
    case None
    then have abs: "absReplay s1 (recordIdentity rec) = None" by (simp add: absReplay_def)
    note ins = insert_wf [OF s1(1) None, of "RecExpiresAt rec"]
    show ?thesis
    proof (cases "int (card (dom (entries s1))) \<ge> cap")
      case True
      then have "r = Inl (Sentinel ErrReplayCapacity)" "s' = s1"
        using assms fits None by (auto simp: consumeLocked_def Let_def s1_def recordIdentity_def)
      with True s1 show ?thesis
        using replaySpec.full [OF fits ev abs] by (simp add: card)
    next
      case False
      then have "r = Inr ()" "wfReplay s'" "latestNow s' = now"
        "absReplay s' = (absReplay s1)(recordIdentity rec \<mapsto> RecExpiresAt rec)"
        using assms fits None ins s1(2)
        by (auto simp: consumeLocked_def Let_def s1_def recordIdentity_def)
      with False show ?thesis
        using replaySpec.inserted [OF fits ev abs] by (simp add: card)
    qed
  next
    case (Some r0)
    then have abs: "absReplay s1 (recordIdentity rec) = Some (keyOf s1 r0)" by (simp add: absReplay_def)
    note ren = renew_wf [OF s1(1) Some, of "RecExpiresAt rec"]
    show ?thesis
    proof (cases "keyOf s1 r0 > now")
      case True
      then have "r = Inl (Sentinel ErrReplayDetected)" "s' = s1"
        using assms fits Some by (auto simp: consumeLocked_def Let_def s1_def recordIdentity_def)
      with True s1 show ?thesis using replaySpec.detected [OF fits ev abs] by simp
    next
      case False
      then have "r = Inr ()" "wfReplay s'" "latestNow s' = now"
        "absReplay s' = (absReplay s1)(recordIdentity rec \<mapsto> RecExpiresAt rec)"
        using assms fits Some ren s1(2)
        by (auto simp: consumeLocked_def Let_def s1_def recordIdentity_def)
      with False show ?thesis using replaySpec.renewed [OF fits ev abs] by simp
    qed
  qed
qed

lemma consumeLocked_spec:
  assumes "wfReplay s" "consumeLocked cap ttl sampled rec s = (r, s')"
  shows "wfReplay s'" "latestNow s' = max (latestNow s) sampled"
    "replaySpec cap ttl (max (latestNow s) sampled) rec (absReplay s) r (absReplay s')"
proof -
  let ?s = "s\<lparr>latestNow := max (latestNow s) sampled\<rparr>"
  have "wfReplay ?s" "latestNow ?s = max (latestNow s) sampled" using assms(1) by simp_all
  from consumeLocked_at [OF this trans [OF consumeLocked_clamped [symmetric] assms(2)]]
  show "wfReplay s'" "latestNow s' = max (latestNow s) sampled"
    "replaySpec cap ttl (max (latestNow s) sampled) rec (absReplay s) r (absReplay s')"
    by simp_all
qed

lemma replaySpec_retained:
  "replaySpec cap ttl now rec a r b \<Longrightarrow> a i = Some t \<Longrightarrow> now < t \<Longrightarrow> b i = Some t"
  by (induction rule: replaySpec.induct) (auto dest: evicted_keeps)

lemma replaySpec_accepted:
  "replaySpec cap ttl now rec a (Inr ()) b \<Longrightarrow> b (recordIdentity rec) = Some (RecExpiresAt rec)"
  by (auto elim: replaySpec_okE)

lemma replaySpec_refused:
  "replaySpec cap ttl now rec a r b \<Longrightarrow> a (recordIdentity rec) = Some t \<Longrightarrow> now < t \<Longrightarrow> r \<noteq> Inr ()"
  by (induction rule: replaySpec.induct) (auto dest: evicted_keeps)

interpretation memory: replay_contract "consumeLocked cap ttl" absReplay latestNow wfReplay
proof
  fix s now rec i t
  assume wf: "wfReplay s"
  obtain r s' where st: "consumeLocked cap ttl now rec s = (r, s')" by fastforce
  note spec = consumeLocked_spec [OF wf st]
  show "wfReplay (snd (consumeLocked cap ttl now rec s))"
    "latestNow (snd (consumeLocked cap ttl now rec s)) = max (latestNow s) now"
    using spec by (simp_all add: st)
  show "absReplay (snd (consumeLocked cap ttl now rec s)) i = Some t"
    if "absReplay s i = Some t" "max (latestNow s) now < t"
    using replaySpec_retained [OF spec(3) that] by (simp only: st snd_conv)
  show "absReplay (snd (consumeLocked cap ttl now rec s)) (recordIdentity rec) = Some (RecExpiresAt rec)"
    if "fst (consumeLocked cap ttl now rec s) = Inr ()"
    using replaySpec_accepted spec(3) that by (simp only: st fst_conv snd_conv)
  show "fst (consumeLocked cap ttl now rec s) \<noteq> Inr ()"
    if "absReplay s (recordIdentity rec) = Some t" "max (latestNow s) now < t"
    using replaySpec_refused [OF spec(3) that] by (simp add: st)
qed

text \<open>Capacity: the eviction frees a slot whenever anything is expired.\<close>

lemma finite_absReplay: "wfReplay s \<Longrightarrow> finite (dom (absReplay s))"
  by (simp add: dom_absReplay wfReplay_def entries_dom)

lemma evicted_card: "evicted now a b \<Longrightarrow> finite (dom a) \<Longrightarrow> card (dom b) \<le> card (dom a)"
  by (auto simp: evicted_def card_Diff_subset_Int card_gt_0_iff intro!: diff_le_self)

lemma replaySpec_card:
  assumes "replaySpec cap ttl now rec a r b" "finite (dom a)" "int (card (dom a)) \<le> cap"
  shows "int (card (dom b)) \<le> cap"
  using assms
proof (cases rule: replaySpec.cases)
  case (renewed c t)
  then have "dom b = dom c" by auto
  with evicted_card [OF renewed(5)] assms show ?thesis by simp
next
  case (inserted c)
  have "finite (dom c)"
    using inserted(5) assms(2) by (auto simp: evicted_def)
  moreover have "recordIdentity rec \<notin> dom c" using inserted by auto
  ultimately have "card (dom b) = Suc (card (dom c))" using inserted by simp
  with inserted show ?thesis by simp
qed (use evicted_card in force)+

lemma replaySpec_capacity:
  assumes "replaySpec cap ttl now rec a (Inl (Sentinel ErrReplayCapacity)) b"
    "finite (dom a)" "int (card (dom a)) \<le> cap"
  shows "b = a \<and> int (card (dom a)) = cap \<and> (\<forall>i t. a i = Some t \<longrightarrow> now < t)"
  using assms(1)
proof (cases rule: replaySpec.cases)
  case full
  have "b = a \<and> (\<forall>i t. a i = Some t \<longrightarrow> now < t)"
  proof (rule ccontr)
    assume "\<not> ?thesis"
    with full(3) obtain i t where it: "a i = Some t" "b = a(i := None)" by (auto simp: evicted_def)
    then have "dom b = dom a - {i}" "i \<in> dom a" by auto
    then have "card (dom b) < card (dom a)" using assms(2) by (metis card_Diff1_less)
    with full assms(3) show False by simp
  qed
  with full assms(3) show ?thesis by auto
qed

lemma replaySpec_error:
  "replaySpec cap ttl now rec a (Inl e) b \<Longrightarrow> b \<subseteq>\<^sub>m a"
  by (erule replaySpec_errE) (auto simp: map_le_def dest: evicted_le)

section \<open>Properties\<close>

text \<open>C1. At most one success per identity before expiration: if two calls with the same key
  identifier and nonce run on one store, the earlier one succeeds and no caller up to the later one
  samples a clock at or past the first record's expiration, then the later call does not succeed,
  whatever other records the store consumed, evicted or refused in between.\<close>

theorem consume_at_most_once:
  assumes "wfReplay s" "latestNow s < RecExpiresAt (snd (ops ! i))"
    "i < j" "j < length ops"
    "recordIdentity (snd (ops ! i)) = recordIdentity (snd (ops ! j))"
    "fst (runReplay (consumeLocked cap ttl) ops s) ! i = Inr ()"
    "\<forall>k \<le> j. fst (ops ! k) < RecExpiresAt (snd (ops ! i))"
  shows "fst (runReplay (consumeLocked cap ttl) ops s) ! j \<noteq> Inr ()"
  using memory.no_second_success [OF assms(1,3,4,5,6,2,7)] .

definition exampleRecord :: "time \<Rightarrow> ReplayRecord" where
  "exampleRecord t = \<lparr>RecKeyID = ''k'', RecNonce = ''n'', RecExpiresAt = t\<rparr>"

lemma exampleRun:
  "fst (runReplay (consumeLocked 2 100) [(5, exampleRecord 60), (7, exampleRecord 70)] emptyReplayState) ! 0
    = Inr ()"
  by (simp add: consumeLocked_def exampleRecord_def emptyReplayState_def removeOldestExpired_def
      Len_def timeSub_def MaxInt_def MinInt_def Let_def)

theorem consume_at_most_once_witness:
  "fst (runReplay (consumeLocked 2 100) [(5, exampleRecord 60), (7, exampleRecord 70)] emptyReplayState) ! 0
     = Inr () \<and>
   fst (runReplay (consumeLocked 2 100) [(5, exampleRecord 60), (7, exampleRecord 70)] emptyReplayState) ! 1
     \<noteq> Inr ()"
proof -
  let ?ops = "[(5, exampleRecord 60), (7, exampleRecord 70)]"
  have k: "\<forall>k \<le> 1. fst (?ops ! k) < RecExpiresAt (snd (?ops ! 0))"
    by (simp add: exampleRecord_def le_Suc_eq)
  have "fst (runReplay (consumeLocked 2 100) ?ops emptyReplayState) ! 1 \<noteq> Inr ()"
    by (rule consume_at_most_once [OF wf_empty _ _ _ _ exampleRun k])
      (simp_all add: emptyReplayState_def exampleRecord_def recordIdentity_def)
  with exampleRun show ?thesis by simp
qed

text \<open>C17. The critical section of \<^verbatim>\<open>Consume\<close> refines the abstract store: it keeps the representation
  invariant (heap order, recorded slots, map and heap holding the same entries), moves the store
  clock to the maximum of itself and the sample, and its result and the new identity-to-expiration
  map are those of one outcome of the specification.\<close>

theorem consumeLocked_refines:
  assumes "wfReplay s" "consumeLocked cap ttl sampled rec s = (r, s')"
  shows "wfReplay s' \<and> latestNow s' = max (latestNow s) sampled \<and>
    replaySpec cap ttl (max (latestNow s) sampled) rec (absReplay s) r (absReplay s')"
  using consumeLocked_spec [OF assms] by simp

theorem consumeLocked_refines_witness:
  "\<exists>s'. consumeLocked 2 100 5 (exampleRecord 60) emptyReplayState = (Inr (), s') \<and> wfReplay s' \<and>
     latestNow s' = 5"
proof -
  obtain r s' where st: "consumeLocked 2 100 5 (exampleRecord 60) emptyReplayState = (r, s')"
    by fastforce
  have "r = Inr ()" using exampleRun st by simp
  moreover have "latestNow emptyReplayState = 0" by (simp add: emptyReplayState_def)
  ultimately show ?thesis using consumeLocked_refines [OF wf_empty st] st by auto
qed

text \<open>Capacity: whatever sequence of critical sections runs on a fresh store of positive
  capacity, the store never retains more identities than its capacity, and the map and the
  expiration heap retain the same number.\<close>

theorem replay_capacity_bound:
  assumes "0 < cap"
  shows "let s = snd (runReplay (consumeLocked cap ttl) ops emptyReplayState) in
    int (card (dom (entries s))) \<le> cap \<and> length (expiry s) = card (dom (entries s))"
proof -
  have "wfReplay (snd (runReplay (consumeLocked cap ttl) ops s)) \<and>
      int (card (dom (entries (snd (runReplay (consumeLocked cap ttl) ops s))))) \<le> cap"
    if "wfReplay s" "int (card (dom (entries s))) \<le> cap" for s
    using that
  proof (induction ops arbitrary: s)
    case (Cons op ops)
    obtain now rec where op: "op = (now, rec)" by fastforce
    obtain r s' where st: "consumeLocked cap ttl now rec s = (r, s')" by fastforce
    note spec = consumeLocked_spec [OF Cons.prems(1) st]
    have "int (card (dom (entries s'))) \<le> cap"
      using replaySpec_card [OF spec(3)] finite_absReplay [OF Cons.prems(1)] Cons.prems(2)
      by (simp add: dom_absReplay)
    with Cons.IH [OF spec(1)] show ?case by (simp add: op st)
  qed simp
  moreover have "int (card (dom (entries emptyReplayState))) \<le> cap"
    using assms by (simp add: emptyReplayState_def)
  ultimately show ?thesis
    using wf_empty card_entries unfolding Let_def wfReplay_def by metis
qed

theorem replay_capacity_bound_witness:
  "(0::int) < 2 \<and>
   int (card (dom (entries (snd (runReplay (consumeLocked 2 100) [(5, exampleRecord 60)] emptyReplayState))))) \<le> 2"
  using replay_capacity_bound [of 2 100 "[(5, exampleRecord 60)]"] by (simp add: Let_def)

text \<open>\<^verbatim>\<open>ErrReplayCapacity\<close> is reported only when the store is exactly full of identities that are
  all still unexpired: an expired identity is always evicted first to make room.\<close>

theorem capacity_error_only_when_live:
  assumes "wfReplay s" "int (card (dom (entries s))) \<le> cap"
    "consumeLocked cap ttl sampled rec s = (Inl (Sentinel ErrReplayCapacity), s')"
  shows "int (card (dom (entries s))) = cap \<and>
    (\<forall>i t. absReplay s i = Some t \<longrightarrow> max (latestNow s) sampled < t) \<and> absReplay s' = absReplay s"
  using replaySpec_capacity [OF consumeLocked_spec(3) [OF assms(1,3)] finite_absReplay [OF assms(1)]]
    assms(2) by (simp add: dom_absReplay)

definition exampleFull :: memoryReplayState where
  "exampleFull = snd (consumeLocked 1 100 5 (exampleRecord 60) emptyReplayState)"

lemmas evalConsume = consumeLocked_def exampleRecord_def emptyReplayState_def
  removeOldestExpired_def Len_def timeSub_def MaxInt_def MinInt_def Let_def heapPush_def Push_def
  setIndex_def heap_up.simps

lemma exampleFull_eval:
  "entries exampleFull = [\<lparr>keyID = ''k'', nonce = ''n''\<rparr> \<mapsto> 0]" "expiry exampleFull = [0]"
  "keyOf exampleFull 0 = 60" "latestNow exampleFull = 5"
  by (simp_all add: exampleFull_def evalConsume)

lemma exampleFull_wf: "wfReplay exampleFull"
  unfolding exampleFull_def by (rule memory.inv_step) (rule wf_empty)

theorem capacity_error_only_when_live_witness:
  "\<exists>s'. consumeLocked 1 100 7 ((exampleRecord 70)\<lparr>RecNonce := ''m''\<rparr>) exampleFull =
      (Inl (Sentinel ErrReplayCapacity), s') \<and> absReplay s' = absReplay exampleFull"
proof -
  have e: "\<exists>s'. consumeLocked 1 100 7 ((exampleRecord 70)\<lparr>RecNonce := ''m''\<rparr>) exampleFull =
      (Inl (Sentinel ErrReplayCapacity), s')"
    by (simp add: consumeLocked_def exampleRecord_def removeOldestExpired_def Len_def timeSub_def
        MaxInt_def MinInt_def Let_def exampleFull_eval)
  have "int (card (dom (entries exampleFull))) \<le> 1" by (simp add: exampleFull_eval)
  with e capacity_error_only_when_live [OF exampleFull_wf] show ?thesis by blast
qed

text \<open>A call that fails never extends what the store retains: after any error every retained
  identity was retained before with the same expiration; an error before the lock is obtained leaves
  the store value itself unchanged.\<close>

theorem Consume_error_retains_nothing_new:
  assumes "state st = Some s" "wfReplay s" "Consume ctx (Some st) rec = (Inl e, out)"
  shows "\<exists>st' s'. out = Some st' \<and> state st' = Some s' \<and> wfReplay s' \<and> absReplay s' \<subseteq>\<^sub>m absReplay s \<and>
    (lockAcquired ctx \<or> st' = st)"
proof (cases "clock st")
  case None
  then show ?thesis using assms by (auto simp: Consume_def split: if_splits option.splits)
next
  case (Some now)
  obtain r s' where st: "consumeLocked (capacity st) (maxTTL st) now rec s = (r, s')" by fastforce
  note spec = consumeLocked_spec [OF assms(2) st]
  have "r = Inl e' \<Longrightarrow> absReplay s' \<subseteq>\<^sub>m absReplay s" for e'
    using spec(3) replaySpec_error by blast
  with Some assms spec(1) show ?thesis
    by (auto simp: Consume_def st split: if_splits option.splits)
qed

definition exampleStore :: MemoryReplayStore where
  "exampleStore = \<lparr>state = Some emptyReplayState, capacity = 2, maxTTL = 100, maxKeyIDBytes = 8,
     maxNonceBytes = 8, clock = Some 5\<rparr>"

definition exampleCtx :: ctxObs where
  "exampleCtx = \<lparr>ctxNil = False, errAtEntry = None, errAfterClock = None, lockAcquired = False,
     errAfterWait = None\<rparr>"

theorem Consume_error_retains_nothing_new_witness:
  "Consume exampleCtx (Some exampleStore) (exampleRecord 60) =
     (Inl (Sentinel ContextCanceled), Some exampleStore) \<and>
   (\<exists>st' s'. Some exampleStore = Some st' \<and> state st' = Some s' \<and> wfReplay s' \<and>
      absReplay s' \<subseteq>\<^sub>m absReplay emptyReplayState \<and> (lockAcquired exampleCtx \<or> st' = exampleStore))"
proof -
  have e: "Consume exampleCtx (Some exampleStore) (exampleRecord 60) =
      (Inl (Sentinel ContextCanceled), Some exampleStore)"
    by (simp add: Consume_def exampleCtx_def exampleStore_def exampleRecord_def validReplayRecord_def
        isZero_def replayContextError_def)
  have "state exampleStore = Some emptyReplayState" by (simp add: exampleStore_def)
  from Consume_error_retains_nothing_new [OF this wf_empty e] e show ?thesis by blast
qed

end
