(* ===== verification/ReplayConc.thy ===== *)
theory ReplayConc
  imports Replay
begin

text \<open>
  Concurrent callers of \<^verbatim>\<open>MemoryReplayStore.Consume\<close> around \<^verbatim>\<open>replayMutex\<close>. The mutex is a channel of
  capacity one: \<open>token\<close> counts the items in it, receiving takes one, and the non-blocking send of
  \<^verbatim>\<open>Unlock\<close> panics when the channel is full. Each caller is a small state machine; a step is one
  caller passing one synchronisation point, in any order, so that the reachable states are those of
  every interleaving. Clock and context values are arbitrary at each step. \<open>log\<close> records, in the
  order of the critical sections, who ran with which clock sample and record, and the result.
\<close>

section \<open>The mutex\<close>

definition newReplayMutex :: nat where
  "newReplayMutex = 1"

text \<open>\<^verbatim>\<open>Unlock\<close>: \<open>None\<close> is the panic on an unlocked mutex.\<close>

definition Unlock :: "nat \<Rightarrow> nat option" where
  "Unlock token = (if token < 1 then Some (Suc token) else None)"

definition TryLock :: "nat \<Rightarrow> bool \<times> nat" where
  "TryLock token = (if 0 < token then (True, token - 1) else (False, token))"

text \<open>
  \<^verbatim>\<open>keepLockUnlessCanceled(done)\<close> after the token was received: whether the caller keeps the lock, and
  the token count, or \<open>None\<close> for a panic in \<^verbatim>\<open>Unlock\<close>.
\<close>

definition keepLockUnlessCanceled :: "bool \<Rightarrow> nat \<Rightarrow> (bool \<times> nat) option" where
  "keepLockUnlessCanceled doneClosed token =
     (if doneClosed then map_option (\<lambda>t. (False, t)) (Unlock token) else Some (True, token))"

section \<open>Callers\<close>

datatype caller =
    Idle
  | Waiting time ReplayRecord
  | Acquired time ReplayRecord
  | Holding time ReplayRecord
  | Releasing "unit res"
  | Returned "unit res"

record sys =
  token :: nat
  shared :: memoryReplayState
  callers :: "nat \<Rightarrow> caller"
  log :: "(nat \<times> time \<times> ReplayRecord \<times> unit res) list"
  panicked :: bool

definition initSys :: "memoryReplayState \<Rightarrow> sys" where
  "initSys s0 = \<lparr>token = newReplayMutex, shared = s0, callers = (\<lambda>_. Idle), log = [], panicked = False\<rparr>"

definition setCaller :: "nat \<Rightarrow> caller \<Rightarrow> sys \<Rightarrow> sys" where
  "setCaller p c y = y\<lparr>callers := (callers y)(p := c)\<rparr>"

inductive consumeStep :: "int \<Rightarrow> duration \<Rightarrow> sys \<Rightarrow> sys \<Rightarrow> bool" for cap :: int and ttl :: duration where
  sample: "callers y p = Idle \<Longrightarrow> consumeStep cap ttl y (setCaller p (Waiting now rec) y)"
| early: "callers y p = Idle \<Longrightarrow> consumeStep cap ttl y (setCaller p (Returned (Inl e)) y)"
| abandon: "callers y p = Waiting now rec \<Longrightarrow>
     consumeStep cap ttl y (setCaller p (Returned (Inl e)) y)"
| receive: "callers y p = Waiting now rec \<Longrightarrow> TryLock (token y) = (True, t) \<Longrightarrow>
     consumeStep cap ttl y (setCaller p (Acquired now rec) (y\<lparr>token := t\<rparr>))"
| keep: "callers y p = Acquired now rec \<Longrightarrow> keepLockUnlessCanceled False (token y) = Some (True, t) \<Longrightarrow>
     consumeStep cap ttl y (setCaller p (Holding now rec) (y\<lparr>token := t\<rparr>))"
| cancel: "callers y p = Acquired now rec \<Longrightarrow> keepLockUnlessCanceled True (token y) = Some (False, t) \<Longrightarrow>
     consumeStep cap ttl y (setCaller p (Returned (Inl e)) (y\<lparr>token := t\<rparr>))"
| work: "callers y p = Holding now rec \<Longrightarrow> consumeLocked cap ttl now rec (shared y) = (r, s) \<Longrightarrow>
     consumeStep cap ttl y
       (setCaller p (Releasing r) (y\<lparr>shared := s, log := log y @ [(p, now, rec, r)]\<rparr>))"
| release: "callers y p = Releasing r \<Longrightarrow> Unlock (token y) = Some t \<Longrightarrow>
     consumeStep cap ttl y (setCaller p (Returned r) (y\<lparr>token := t\<rparr>))"
| panic: "callers y p = Releasing r \<or> (\<exists>now rec. callers y p = Acquired now rec) \<Longrightarrow>
     Unlock (token y) = None \<Longrightarrow> consumeStep cap ttl y (y\<lparr>panicked := True\<rparr>)"

inductive reachableSys :: "int \<Rightarrow> duration \<Rightarrow> memoryReplayState \<Rightarrow> sys \<Rightarrow> bool"
  for cap :: int and ttl :: duration and s0 :: memoryReplayState where
  start: "reachableSys cap ttl s0 (initSys s0)"
| step: "reachableSys cap ttl s0 y \<Longrightarrow> consumeStep cap ttl y z \<Longrightarrow> reachableSys cap ttl s0 z"

inductive_cases consumeStepE: "consumeStep cap ttl y z"

section \<open>Invariants\<close>

fun holdsLock :: "caller \<Rightarrow> bool" where
  "holdsLock (Acquired _ _) = True"
| "holdsLock (Holding _ _) = True"
| "holdsLock (Releasing _) = True"
| "holdsLock _ = False"

definition mutexInv :: "sys \<Rightarrow> bool" where
  "mutexInv y \<longleftrightarrow> \<not> panicked y \<and>
     (if token y = 1 then \<forall>p. \<not> holdsLock (callers y p)
      else token y = 0 \<and> (\<exists>p. holdsLock (callers y p) \<and> (\<forall>q. holdsLock (callers y q) \<longrightarrow> q = p)))"

abbreviation opOf :: "nat \<times> time \<times> ReplayRecord \<times> unit res \<Rightarrow> time \<times> ReplayRecord" where
  "opOf e \<equiv> (fst (snd e), fst (snd (snd e)))"

abbreviation resultOf :: "nat \<times> time \<times> ReplayRecord \<times> unit res \<Rightarrow> unit res" where
  "resultOf e \<equiv> snd (snd (snd e))"

text \<open>The critical sections, in their order, are a sequential run.\<close>

definition serialInv :: "int \<Rightarrow> duration \<Rightarrow> memoryReplayState \<Rightarrow> sys \<Rightarrow> bool" where
  "serialInv cap ttl s0 y \<longleftrightarrow>
     runReplay (consumeLocked cap ttl) (map opOf (log y)) s0 = (map resultOf (log y), shared y)"

lemma setCaller_simps [simp]:
  "token (setCaller p c y) = token y" "shared (setCaller p c y) = shared y"
  "log (setCaller p c y) = log y" "panicked (setCaller p c y) = panicked y"
  "callers (setCaller p c y) = (callers y)(p := c)"
  by (simp_all add: setCaller_def)

lemma runReplay_append:
  "runReplay step (ops @ [(now, rec)]) s =
     (fst (runReplay step ops s) @ [fst (step now rec (snd (runReplay step ops s)))],
      snd (step now rec (snd (runReplay step ops s))))"
  by (induction ops arbitrary: s) (auto simp: runReplay.simps split: prod.splits)

lemma mutexInv_holder:
  "mutexInv y \<Longrightarrow> holdsLock (callers y p) \<Longrightarrow>
   token y = 0 \<and> (\<forall>q. holdsLock (callers y q) \<longrightarrow> q = p)"
  by (auto simp: mutexInv_def split: if_splits)

lemma mutexInv_setCaller:
  assumes "mutexInv y" "holdsLock c = holdsLock (callers y p)"
  shows "mutexInv (setCaller p c y)"
proof -
  have "holdsLock (callers (setCaller p c y) q) = holdsLock (callers y q)" for q
    using assms(2) by simp
  with assms(1) show ?thesis unfolding mutexInv_def setCaller_simps(1,4) by presburger
qed

lemma mutexInv_unlock:
  assumes "mutexInv y" "holdsLock (callers y p)"
  shows "Unlock (token y) = Some 1"
    and "\<not> holdsLock c \<Longrightarrow> mutexInv (setCaller p c (y\<lparr>token := 1\<rparr>))"
proof -
  have h: "token y = 0" "\<forall>q. holdsLock (callers y q) \<longrightarrow> q = p"
    using mutexInv_holder [OF assms] by simp_all
  then show "Unlock (token y) = Some 1" by (simp add: Unlock_def)
  show "mutexInv (setCaller p c (y\<lparr>token := 1\<rparr>))" if "\<not> holdsLock c"
    using h(2) assms(1) that by (simp add: mutexInv_def) blast
qed

lemma consumeStep_mutexInv:
  assumes "consumeStep cap ttl y z" "mutexInv y"
  shows "mutexInv z"
  using assms(1)
proof (cases rule: consumeStep.cases)
  case (receive p now rec t)
  then have t: "t = 0" "token y = 1" using assms(2)
    by (auto simp: TryLock_def mutexInv_def split: if_splits)
  then have "\<forall>q. \<not> holdsLock (callers y q)" using assms(2) by (simp add: mutexInv_def)
  with receive t assms(2) show ?thesis by (simp add: mutexInv_def)
next
  case (keep p now rec t)
  then have "z = setCaller p (Holding now rec) y" by (simp add: keepLockUnlessCanceled_def)
  then show ?thesis using mutexInv_setCaller [OF assms(2), of "Holding now rec" p] keep by simp
next
  case (cancel p now rec t e)
  then show ?thesis
    using mutexInv_unlock(1) [OF assms(2), of p] mutexInv_unlock(2) [OF assms(2), of p "Returned (Inl e)"]
    by (simp add: keepLockUnlessCanceled_def)
next
  case (release p r t)
  then show ?thesis using mutexInv_unlock(1) [OF assms(2), of p]
      mutexInv_unlock(2) [OF assms(2), of p "Returned r"] by simp
next
  case (panic p r)
  then have "holdsLock (callers y p)" by auto
  from mutexInv_unlock(1) [OF assms(2) this] panic show ?thesis by simp
next
  case (work p now rec r s)
  have "mutexInv (y\<lparr>shared := s, log := log y @ [(p, now, rec, r)]\<rparr>)"
    using assms(2) by (simp add: mutexInv_def)
  then show ?thesis using work by (simp add: mutexInv_setCaller)
qed (simp_all add: mutexInv_setCaller assms(2))

lemma consumeStep_serialInv:
  assumes "consumeStep cap ttl y z" "serialInv cap ttl s0 y"
  shows "serialInv cap ttl s0 z"
  using assms by (cases rule: consumeStep.cases) (auto simp: serialInv_def runReplay_append)

lemma reachable_inv: "reachableSys cap ttl s0 y \<Longrightarrow> mutexInv y \<and> serialInv cap ttl s0 y"
proof (induction rule: reachableSys.induct)
  case start
  then show ?case by (simp add: mutexInv_def initSys_def newReplayMutex_def serialInv_def)
next
  case (step y z)
  then show ?case using consumeStep_mutexInv consumeStep_serialInv by blast
qed

section \<open>Properties\<close>

text \<open>Mutual exclusion: in every interleaving at most one caller is between receiving the mutex
  token and returning it, the channel then is empty, and \<^verbatim>\<open>Unlock\<close> never panics.\<close>

theorem replay_mutual_exclusion:
  assumes "reachableSys cap ttl s0 y"
  shows "\<not> panicked y \<and> token y \<le> 1 \<and>
    (holdsLock (callers y p) \<longrightarrow> holdsLock (callers y q) \<longrightarrow> p = q) \<and>
    (holdsLock (callers y p) \<longrightarrow> Unlock (token y) = Some 1)"
proof -
  have inv: "mutexInv y" using reachable_inv [OF assms] by simp
  then have "\<not> panicked y" "token y \<le> 1" by (auto simp: mutexInv_def split: if_splits)
  with mutexInv_holder [OF inv] mutexInv_unlock(1) [OF inv, of p] show ?thesis by blast
qed

definition exampleHeld :: sys where
  "exampleHeld = setCaller 0 (Acquired 5 (exampleRecord 60))
     ((setCaller 0 (Waiting 5 (exampleRecord 60)) (initSys emptyReplayState))\<lparr>token := 0\<rparr>)"

lemma exampleHeld_reachable: "reachableSys 2 100 emptyReplayState exampleHeld"
proof -
  let ?y = "setCaller 0 (Waiting 5 (exampleRecord 60)) (initSys emptyReplayState)"
  have "reachableSys 2 100 emptyReplayState ?y"
    by (rule reachableSys.step [OF reachableSys.start consumeStep.sample]) (simp add: initSys_def)
  moreover have "consumeStep 2 100 ?y exampleHeld"
    unfolding exampleHeld_def
    by (rule consumeStep.receive [of _ _ 5]) (simp_all add: TryLock_def initSys_def newReplayMutex_def)
  ultimately show ?thesis by (rule reachableSys.step)
qed

theorem replay_mutual_exclusion_witness:
  "holdsLock (callers exampleHeld 0) \<and> Unlock (token exampleHeld) = Some 1"
  using replay_mutual_exclusion [OF exampleHeld_reachable, of 0 0]
  by (simp add: exampleHeld_def)


text \<open>A run in which caller 0 consumes a record and caller 1 replays it.\<close>

definition exampleLog :: "(nat \<times> time \<times> ReplayRecord \<times> unit res) list" where
  "exampleLog = [(0, 5, exampleRecord 60, Inr ()),
     (1, 7, exampleRecord 70, fst (consumeLocked 2 100 7 (exampleRecord 70)
        (snd (consumeLocked 2 100 5 (exampleRecord 60) emptyReplayState))))]"

lemma run_caller:
  assumes "reachableSys cap ttl s0 y" "callers y p = Idle" "token y = 1"
    "consumeLocked cap ttl now rec (shared y) = (r, s)"
  shows "\<exists>z. reachableSys cap ttl s0 z \<and> token z = 1 \<and> shared z = s \<and>
    log z = log y @ [(p, now, rec, r)] \<and> (\<forall>q. q \<noteq> p \<longrightarrow> callers z q = callers y q)"
proof -
  let ?a = "setCaller p (Waiting now rec) y"
  let ?b = "setCaller p (Acquired now rec) (?a\<lparr>token := 0\<rparr>)"
  let ?c = "setCaller p (Holding now rec) (?b\<lparr>token := 0\<rparr>)"
  let ?d = "setCaller p (Releasing r) (?c\<lparr>shared := s, log := log ?c @ [(p, now, rec, r)]\<rparr>)"
  let ?e = "setCaller p (Returned r) (?d\<lparr>token := 1\<rparr>)"
  have a: "consumeStep cap ttl y ?a" using assms(2) by (rule consumeStep.sample)
  have b: "consumeStep cap ttl ?a ?b"
    by (rule consumeStep.receive) (simp_all add: TryLock_def assms(3))
  have c: "consumeStep cap ttl ?b ?c"
    by (rule consumeStep.keep) (simp_all add: keepLockUnlessCanceled_def)
  have d: "consumeStep cap ttl ?c ?d"
    by (rule consumeStep.work) (simp_all add: assms(4))
  have e: "consumeStep cap ttl ?d ?e"
    by (rule consumeStep.release) (simp_all add: Unlock_def)
  note steps = reachableSys.step [OF assms(1) a]
  note steps = reachableSys.step [OF steps b]
  note steps = reachableSys.step [OF steps c]
  note steps = reachableSys.step [OF steps d]
  have "reachableSys cap ttl s0 ?e" by (rule reachableSys.step [OF steps e])
  then show ?thesis by (intro exI [of _ ?e]) simp
qed

lemma exampleLog_reachable: "\<exists>y. reachableSys 2 100 emptyReplayState y \<and> log y = exampleLog"
proof -
  obtain r s where a: "consumeLocked 2 100 5 (exampleRecord 60) emptyReplayState = (r, s)" by fastforce
  obtain r' s' where b: "consumeLocked 2 100 7 (exampleRecord 70) s = (r', s')" by fastforce
  have r: "r = Inr ()" using exampleRun a by simp
  obtain y where y: "reachableSys 2 100 emptyReplayState y" "token y = 1" "shared y = s"
      "log y = [(0, 5, exampleRecord 60, r)]" "callers y 1 = Idle"
  proof -
    let ?i = "initSys emptyReplayState"
    have i: "callers ?i 0 = Idle" "token ?i = 1" "shared ?i = emptyReplayState" "log ?i = []"
        "callers ?i 1 = Idle"
      by (simp_all add: initSys_def newReplayMutex_def)
    have "consumeLocked 2 100 5 (exampleRecord 60) (shared ?i) = (r, s)" using a i(3) by simp
    from run_caller [OF reachableSys.start i(1,2) this] i(4,5) that show ?thesis
      by (metis append_Nil zero_neq_one)
  qed
  have log: "exampleLog = [(0, 5, exampleRecord 60, r)] @ [(1, 7, exampleRecord 70, r')]"
    by (simp add: exampleLog_def a b r)
  have "consumeLocked 2 100 7 (exampleRecord 70) (shared y) = (r', s')" using b y(3) by simp
  from run_caller [OF y(1,5,2) this] y(4) log show ?thesis by metis
qed


end
