(* ===== verification/Limits.thy ===== *)
theory Limits
  imports GoPrelude
begin

text \<open>
  Resource bounds: the overflow-checked size arithmetic of \<^verbatim>\<open>message_limits.go\<close> and the parser
  bounds of \<^verbatim>\<open>syntax_limits.go\<close>. A Go \<^verbatim>\<open>int\<close> result is passed through \<open>i64\<close> wherever the code
  adds, subtracts or multiplies, so that "the guard excludes overflow" is a theorem here and not
  part of the model. The size bounds that need the Structured Fields types are in \<^verbatim>\<open>Sfv\<close>.
\<close>

section \<open>Checked and saturating arithmetic\<close>

definition safeSizeAdd :: "int \<Rightarrow> int \<Rightarrow> int \<times> bool" where
  "safeSizeAdd left right =
     (if left < 0 \<or> right < 0 \<or> left > i64 (MaxInt - right) then (0, False)
      else (i64 (left + right), True))"

definition safeSizeMultiply :: "int \<Rightarrow> int \<Rightarrow> int \<times> bool" where
  "safeSizeMultiply value multiplier =
     (if value < 0 \<or> multiplier < 0 \<or> multiplier \<noteq> 0 \<and> value > go_div MaxInt multiplier
      then (0, False) else (i64 (value * multiplier), True))"

definition saturatingSizeAdd :: "int \<Rightarrow> int \<Rightarrow> int" where
  "saturatingSizeAdd left right =
     (case safeSizeAdd left right of (value, ok) \<Rightarrow> if \<not> ok then MaxInt else value)"

definition saturatingSizeMultiply :: "int \<Rightarrow> int \<Rightarrow> int" where
  "saturatingSizeMultiply value multiplier =
     (case safeSizeMultiply value multiplier of (result, ok) \<Rightarrow> if \<not> ok then MaxInt else result)"

definition base64EncodedLength :: "int \<Rightarrow> int" where
  "base64EncodedLength n = saturatingSizeMultiply (go_div (saturatingSizeAdd n 2) 3) 4"

text \<open>\<^verbatim>\<open>consumeSize(&remaining, size)\<close> returns the new \<^verbatim>\<open>remaining\<close> and its Boolean result.\<close>

definition consumeSize :: "int \<Rightarrow> int \<Rightarrow> int \<times> bool" where
  "consumeSize remaining n =
     (if n < 0 \<or> n > remaining then (remaining, False) else (i64 (remaining - n), True))"

fun escapedStringLength_loop :: "int \<Rightarrow> string \<Rightarrow> int" where
  "escapedStringLength_loop n [] = n"
| "escapedStringLength_loop n (c # cs) =
     escapedStringLength_loop
       (if c = CHR 0x22 \<or> c = CHR 0x5C then saturatingSizeAdd n 1 else n) cs"

definition escapedStringLength :: "string \<Rightarrow> int" where
  "escapedStringLength value = escapedStringLength_loop (go_len value) value"

fun fieldValuesFit_loop :: "bool \<Rightarrow> bool \<Rightarrow> int \<Rightarrow> string list \<Rightarrow> bool" where
  "fieldValuesFit_loop binary first remaining [] = True"
| "fieldValuesFit_loop binary first remaining (value # values) =
     (case (if first then (remaining, True) else consumeSize remaining 2) of (r1, ok1) \<Rightarrow>
        if \<not> ok1 then False
        else
          let valueSize =
                (if binary then saturatingSizeAdd (base64EncodedLength (go_len value)) 2
                 else go_len value)
          in case consumeSize r1 valueSize of (r2, ok2) \<Rightarrow>
               if \<not> ok2 then False else fieldValuesFit_loop binary False r2 values)"

definition fieldValuesFit :: "string list \<Rightarrow> bool \<Rightarrow> int \<Rightarrow> bool" where
  "fieldValuesFit values binary budget =
     (if budget < 0 then False else fieldValuesFit_loop binary True budget values)"

section \<open>Parser bounds\<close>

record SyntaxLimits =
  MaxFieldBytes :: int
  MaxFieldLines :: int
  MaxDictionaryMembers :: int
  MaxComponentsPerSignature :: int
  MaxParametersPerItem :: int
  MaxBinaryBytes :: int

definition DefaultSyntaxLimits :: SyntaxLimits where
  "DefaultSyntaxLimits =
     \<lparr>MaxFieldBytes = 64 * 1024, MaxFieldLines = 32, MaxDictionaryMembers = 1024,
      MaxComponentsPerSignature = 256, MaxParametersPerItem = 256, MaxBinaryBytes = 16 * 1024\<rparr>"

definition SyntaxLimits_Validate :: "SyntaxLimits \<Rightarrow> unit res" where
  "SyntaxLimits_Validate limits =
     (if MaxFieldLines limits \<le> 0 \<or> MaxDictionaryMembers limits \<le> 0 \<or>
         MaxComponentsPerSignature limits \<le> 0 \<or> MaxParametersPerItem limits \<le> 0 \<or>
         MaxBinaryBytes limits \<le> 0 \<or> MaxBinaryBytes limits > MaxFieldBytes limits
      then Inl (Sentinel ErrInvalidSyntaxLimits) else Inr ())"

fun enforceRawSyntaxLimits_loop :: "bool \<Rightarrow> int \<Rightarrow> string list \<Rightarrow> unit res" where
  "enforceRawSyntaxLimits_loop first remaining [] = Inr ()"
| "enforceRawSyntaxLimits_loop first remaining (value # values) =
     (if \<not> first \<and> remaining < 2 then Inl (Sentinel ErrSyntaxLimit)
      else
        let remaining' = (if first then remaining else i64 (remaining - 2)) in
        if go_len value > remaining' then Inl (Sentinel ErrSyntaxLimit)
        else enforceRawSyntaxLimits_loop False (i64 (remaining' - go_len value)) values)"

definition enforceRawSyntaxLimits :: "string list \<Rightarrow> SyntaxLimits \<Rightarrow> unit res" where
  "enforceRawSyntaxLimits values limits =
     (case SyntaxLimits_Validate limits of
        Inl err \<Rightarrow> Inl err
      | Inr _ \<Rightarrow>
          if values = [] \<or> go_len values > MaxFieldLines limits then Inl (Sentinel ErrSyntaxLimit)
          else enforceRawSyntaxLimits_loop True (MaxFieldBytes limits) values)"

section \<open>Laws of the size arithmetic\<close>

text \<open>A representable non-negative size: what every \<^verbatim>\<open>len\<close> and every size in the code is.\<close>

definition go_size :: "int \<Rightarrow> bool" where
  "go_size n \<longleftrightarrow> 0 \<le> n \<and> n \<le> MaxInt"

lemma go_sizeD: "go_size n \<Longrightarrow> 0 \<le> n" "go_size n \<Longrightarrow> n \<le> MaxInt"
  by (simp_all add: go_size_def)

lemma go_size_int: "go_size n \<Longrightarrow> go_int n"
  by (simp add: go_size_def go_int_def MinInt_def)

lemma i64_diff: "go_size a \<Longrightarrow> 0 \<le> b \<Longrightarrow> b \<le> a \<Longrightarrow> i64 (a - b) = a - b"
  by (rule i64_id, rule go_size_int) (auto simp: go_size_def)

lemma safeSizeAdd_eq:
  "0 \<le> a \<Longrightarrow> go_size b \<Longrightarrow>
   safeSizeAdd a b = (if a + b \<le> MaxInt then (a + b, True) else (0, False))"
  using i64_diff [of MaxInt b] i64_id [OF go_size_int, of "a + b"]
  by (auto simp: safeSizeAdd_def go_size_def)

lemma saturatingSizeAdd_eq [limit_simps]:
  "0 \<le> a \<Longrightarrow> go_size b \<Longrightarrow> saturatingSizeAdd a b = min (a + b) MaxInt"
  by (auto simp: saturatingSizeAdd_def safeSizeAdd_eq)

lemma le_div_iff_mult:
  assumes "0 < (m::int)"
  shows "v \<le> k div m \<longleftrightarrow> v * m \<le> k"
proof
  assume "v \<le> k div m"
  then have "v * m \<le> k div m * m" using assms by simp
  also have "\<dots> \<le> k" using assms by (simp add: minus_mod_eq_div_mult [symmetric])
  finally show "v * m \<le> k" .
next
  assume "v * m \<le> k"
  then have "v * m div m \<le> k div m" using assms by (rule zdiv_mono1)
  then show "v \<le> k div m" using assms by simp
qed

lemma saturatingSizeMultiply_eq [limit_simps]:
  assumes "0 \<le> v" "go_size m"
  shows "saturatingSizeMultiply v m = min (v * m) MaxInt"
proof (cases "m = 0")
  case True
  with assms show ?thesis
    by (auto simp: saturatingSizeMultiply_def safeSizeMultiply_def go_int_def)
next
  case False
  with assms have m: "0 < m" by (simp add: go_size_def)
  then have guard: "(v > go_div MaxInt m) = (v * m > MaxInt)"
    by (simp add: le_div_iff_mult not_le [symmetric])
  have "v * m \<le> MaxInt \<Longrightarrow> i64 (v * m) = v * m"
    using assms m by (intro i64_id go_size_int) (simp add: go_size_def)
  with assms m guard show ?thesis
    by (auto simp: saturatingSizeMultiply_def safeSizeMultiply_def go_size_def)
qed

lemma go_size_saturatingSizeAdd [simp, intro]:
  "0 \<le> a \<Longrightarrow> go_size b \<Longrightarrow> go_size (saturatingSizeAdd a b)"
  by (simp add: saturatingSizeAdd_eq) (auto simp: go_size_def)

lemma go_size_saturatingSizeMultiply [simp, intro]:
  "0 \<le> a \<Longrightarrow> go_size b \<Longrightarrow> go_size (saturatingSizeMultiply a b)"
  by (simp add: saturatingSizeMultiply_eq) (auto simp: go_size_def)

lemma go_size_numerals [simp]: "go_size 0" "go_size 1" "go_size 2" "go_size 3" "go_size 4"
  by (simp_all add: go_size_def MaxInt_def)

lemma consumeSize_eq [limit_simps]:
  "go_size remaining \<Longrightarrow> consumeSize remaining n =
     (if 0 \<le> n \<and> n \<le> remaining then (remaining - n, True) else (remaining, False))"
  by (auto simp: consumeSize_def i64_diff)

lemma consumeSize_rejects: "remaining < 0 \<Longrightarrow> consumeSize remaining n = (remaining, False)"
  by (auto simp: consumeSize_def)

lemma base64EncodedLength_eq [limit_simps]:
  assumes "0 \<le> n"
  shows "base64EncodedLength n = min (4 * ((n + 2) div 3)) MaxInt"
proof -
  have "0 \<le> min (n + 2) MaxInt div 3"
    using assms by (simp add: pos_imp_zdiv_nonneg_iff)
  then have "base64EncodedLength n = min (min (n + 2) MaxInt div 3 * 4) MaxInt"
    using assms by (simp add: base64EncodedLength_def saturatingSizeAdd_eq saturatingSizeMultiply_eq)
  also have "\<dots> = min (4 * ((n + 2) div 3)) MaxInt"
    by (cases "n + 2 \<le> MaxInt") (auto simp: MaxInt_def min_def)
  finally show ?thesis .
qed

text \<open>The size a field value list takes on its canonical line: values, separators, wrapping.\<close>

definition encodedValueSize :: "bool \<Rightarrow> string \<Rightarrow> int" where
  "encodedValueSize binary value =
     (if binary then 4 * ((go_len value + 2) div 3) + 2 else go_len value)"

lemma encodedValueSize_nonneg [simp]: "0 \<le> encodedValueSize binary value"
  by (simp add: encodedValueSize_def)

lemma fieldValuesFit_size:
  "r \<le> MaxInt - 1 \<or> \<not> binary \<Longrightarrow>
   ((if binary then saturatingSizeAdd (base64EncodedLength (go_len value)) 2 else go_len value) \<le> r)
     = (encodedValueSize binary value \<le> r)"
  by (auto simp: limit_simps encodedValueSize_def min_def)

lemma fieldValuesFit_loop_Cons:
  assumes "go_size r" "r < MaxInt"
  shows "fieldValuesFit_loop binary first r (v # vs) \<longleftrightarrow>
     encodedValueSize binary v \<le> (if first then r else r - 2) \<and>
     fieldValuesFit_loop binary False ((if first then r else r - 2) - encodedValueSize binary v) vs"
proof -
  define sz where
    "sz = (if binary then saturatingSizeAdd (base64EncodedLength (go_len v)) 2 else go_len v)"
  define q where "q = (if first then r else r - 2)"
  have sz0: "0 \<le> sz" by (auto simp: sz_def limit_simps)
  have q: "q < MaxInt" using assms by (simp add: q_def)
  have fits: "(sz \<le> q) = (encodedValueSize binary v \<le> q)"
    unfolding sz_def by (rule fieldValuesFit_size) (use q in simp)
  have exact: "sz \<le> q \<Longrightarrow> sz = encodedValueSize binary v"
    using q by (auto simp: sz_def limit_simps encodedValueSize_def min_def split: if_splits)
  have first_step: "(if first then (r, True) else consumeSize r 2) = (if 0 \<le> q then (q, True) else (r, False))"
    using assms by (auto simp: q_def consumeSize_eq go_sizeD)
  have go: "0 \<le> q \<Longrightarrow> go_size q" using q by (simp add: go_size_def)
  have "fieldValuesFit_loop binary first r (v # vs) \<longleftrightarrow>
      0 \<le> q \<and> sz \<le> q \<and> fieldValuesFit_loop binary False (q - sz) vs"
    using first_step sz0 go by (auto simp: Let_def sz_def [symmetric] consumeSize_eq)
  with fits exact sz0 show ?thesis
    unfolding q_def [symmetric] by auto
qed

lemma fieldValuesFit_loop_iff:
  assumes "go_size r" "r < MaxInt"
  shows "fieldValuesFit_loop binary first r xs \<longleftrightarrow>
     xs = [] \<or>
     sum_list (map (encodedValueSize binary) xs) +
       2 * (go_len xs - (if first then 1 else 0)) \<le> r"
  using assms
proof (induction xs arbitrary: first r)
  case Nil
  then show ?case by simp
next
  case (Cons v vs)
  define q where "q = (if first then r else r - 2) - encodedValueSize binary v"
  have nonneg: "0 \<le> sum_list (map (encodedValueSize binary) vs)"
    by (rule sum_list_nonneg) auto
  have "0 \<le> q \<Longrightarrow> go_size q \<and> q < MaxInt"
    using Cons.prems encodedValueSize_nonneg [of binary v]
    by (simp add: q_def go_size_def del: encodedValueSize_nonneg split: if_splits)
  with Cons.IH [of q False] fieldValuesFit_loop_Cons [OF Cons.prems, of binary first v vs] nonneg
  show ?case by (auto simp: q_def split: if_splits)
qed

lemma enforceRawSyntaxLimits_loop_iff:
  assumes "go_size r"
  shows "enforceRawSyntaxLimits_loop first r xs = Inr () \<longleftrightarrow>
     xs = [] \<or> sum_list (map go_len xs) + 2 * (go_len xs - (if first then 1 else 0)) \<le> r"
  using assms
proof (induction xs arbitrary: first r)
  case Nil
  then show ?case by simp
next
  case (Cons v vs)
  let ?r = "if first then r else r - 2"
  have nonneg: "0 \<le> sum_list (map go_len vs)"
    by (rule sum_list_nonneg) auto
  have step: "0 \<le> ?r \<Longrightarrow> (if first then r else i64 (r - 2)) = ?r"
    using Cons.prems by (auto simp: i64_diff)
  show ?case
  proof (cases "0 \<le> ?r \<and> go_len v \<le> ?r")
    case True
    then have "go_size (?r - go_len v)" "go_size ?r"
      using Cons.prems by (auto simp: go_size_def split: if_splits)
    with True step Cons.IH [of "?r - go_len v" False] show ?thesis
      by (auto simp: Let_def i64_diff split: if_splits)
  next
    case False
    with step Cons.prems nonneg show ?thesis
      by (auto simp: Let_def go_size_def split: if_splits)
  qed
qed

lemma enforceRawSyntaxLimits_loop_cases:
  "enforceRawSyntaxLimits_loop first r xs = Inr () \<or>
   enforceRawSyntaxLimits_loop first r xs = Inl (Sentinel ErrSyntaxLimit)"
  by (induction first r xs rule: enforceRawSyntaxLimits_loop.induct) (auto simp: Let_def)

lemma go_len_join:
  "xs \<noteq> [] \<Longrightarrow> go_len (join '', '' xs) = sum_list (map go_len xs) + 2 * (go_len xs - 1)"
proof -
  assume "xs \<noteq> []"
  then have "int (length xs - 1) = go_len xs - 1"
    by (cases xs) auto
  moreover have "int (sum_list (map length xs)) = sum_list (map go_len xs)"
    by (induction xs) auto
  ultimately show ?thesis by (simp add: length_join)
qed

lemma DefaultSyntaxLimits_valid: "SyntaxLimits_Validate DefaultSyntaxLimits = Inr ()"
  by (simp add: SyntaxLimits_Validate_def DefaultSyntaxLimits_def)

lemma enforceRawSyntaxLimits_Inl:
  "enforceRawSyntaxLimits xs limits = Inl e \<Longrightarrow>
   e = Sentinel (if SyntaxLimits_Validate limits = Inr () then ErrSyntaxLimit else ErrInvalidSyntaxLimits)"
  using enforceRawSyntaxLimits_loop_cases [of True "MaxFieldBytes limits" xs]
  by (auto simp: enforceRawSyntaxLimits_def SyntaxLimits_Validate_def split: if_splits sum.splits)

section \<open>Properties\<close>

text \<open>The raw-input gate of every field parser accepts exactly the non-empty lists of at most
  \<^verbatim>\<open>MaxFieldLines\<close> lines whose RFC 8941 combination with comma-space separators is at most
  \<^verbatim>\<open>MaxFieldBytes\<close> bytes long; it refuses everything under an invalid limit set.\<close>

theorem enforceRawSyntaxLimits_iff:
  assumes "MaxFieldBytes limits \<le> MaxInt"
  shows "enforceRawSyntaxLimits xs limits = Inr () \<longleftrightarrow>
     SyntaxLimits_Validate limits = Inr () \<and> xs \<noteq> [] \<and> go_len xs \<le> MaxFieldLines limits \<and>
     go_len (join '', '' xs) \<le> MaxFieldBytes limits"
proof (cases "SyntaxLimits_Validate limits")
  case (Inl e)
  then show ?thesis by (simp add: enforceRawSyntaxLimits_def)
next
  case (Inr u)
  then have "go_size (MaxFieldBytes limits)"
    using assms by (auto simp: SyntaxLimits_Validate_def go_size_def split: if_splits)
  with Inr show ?thesis
    by (auto simp: enforceRawSyntaxLimits_def enforceRawSyntaxLimits_loop_iff go_len_join)
qed

theorem enforceRawSyntaxLimits_iff_witness:
  "MaxFieldBytes DefaultSyntaxLimits \<le> MaxInt \<and>
   enforceRawSyntaxLimits [''a=1'', ''b=2''] DefaultSyntaxLimits = Inr ()"
  using enforceRawSyntaxLimits_iff [of DefaultSyntaxLimits "[''a=1'', ''b=2'']"]
    DefaultSyntaxLimits_valid
  by (simp add: DefaultSyntaxLimits_def MaxInt_def)

text \<open>A field value list passes the pre-allocation check exactly when its canonical line, with
  comma-space separators and, for \<^verbatim>\<open>bs\<close>, base64 and colons around each value, fits the budget:
  the check neither overflows nor is conservative.\<close>

theorem fieldValuesFit_iff:
  assumes "0 \<le> budget" "budget < MaxInt"
  shows "fieldValuesFit xs binary budget \<longleftrightarrow>
     xs = [] \<or> sum_list (map (encodedValueSize binary) xs) + 2 * (go_len xs - 1) \<le> budget"
  using assms fieldValuesFit_loop_iff [of budget binary True xs]
  by (auto simp: fieldValuesFit_def go_size_def)

theorem fieldValuesFit_iff_witness:
  "(0::int) \<le> 9 \<and> (9::int) < MaxInt \<and> fieldValuesFit [''abc'', ''defg''] False 9 \<and>
   \<not> fieldValuesFit [''abc'', ''defg''] False 8"
  using fieldValuesFit_iff [of 9 "[''abc'', ''defg'']" False]
    fieldValuesFit_iff [of 8 "[''abc'', ''defg'']" False]
  by (simp add: MaxInt_def encodedValueSize_def)

end
