(* ===== verification/Base64.thy ===== *)
theory Base64
  imports Limits
begin

text \<open>
  The two encodings of Go's \<^verbatim>\<open>encoding/base64\<close> the repository uses: \<^verbatim>\<open>StdEncoding.EncodeToString\<close>
  (padded) and \<^verbatim>\<open>RawStdEncoding.DecodeString\<close> (unpadded, not strict about trailing bits, skipping
  carriage returns and line feeds), and decimal formatting and parsing of \<^verbatim>\<open>strconv\<close>. The lemmas are the
  round trips and the exact encoded length that the size bounds of the signature base rely on.
\<close>

section \<open>Base64\<close>

definition b64alphabet :: string where
  "b64alphabet = ''ABCDEFGHIJKLMNOPQRSTUVWXYZabcdefghijklmnopqrstuvwxyz0123456789+/''"

definition b64char :: "nat \<Rightarrow> char" where
  "b64char n = b64alphabet ! n"

definition b64value :: "char \<Rightarrow> nat option" where
  "b64value c =
     (if isUpper c then Some (byte c - 65)
      else if isLower c then Some (byte c - 71)
      else if isDigit c then Some (byte c + 4)
      else if c = CHR ''+'' then Some 62
      else if c = CHR ''/'' then Some 63
      else None)"

definition sextets :: "nat \<Rightarrow> nat list" where
  "sextets n = [n div 262144 mod 64, n div 4096 mod 64, n div 64 mod 64, n mod 64]"

fun encodeToString :: "bytes \<Rightarrow> string" where
  "encodeToString [] = []"
| "encodeToString [a] = map b64char (take 2 (sextets (byte a * 65536))) @ ''==''"
| "encodeToString [a, b] = map b64char (take 3 (sextets (byte a * 65536 + byte b * 256))) @ ''=''"
| "encodeToString (a # b # c # rest) =
     map b64char (sextets (byte a * 65536 + byte b * 256 + byte c)) @ encodeToString rest"

fun decodeSextets :: "nat list \<Rightarrow> bytes option" where
  "decodeSextets [] = Some []"
| "decodeSextets [x] = None"
| "decodeSextets [x, y] = Some [char_of ((x * 64 + y) div 16)]"
| "decodeSextets [x, y, z] =
     Some [char_of ((x * 4096 + y * 64 + z) div 1024), char_of ((x * 4096 + y * 64 + z) div 4 mod 256)]"
| "decodeSextets (x # y # z # w # rest) =
     (let n = x * 262144 + y * 4096 + z * 64 + w in
      map_option (\<lambda>bs. char_of (n div 65536) # char_of (n div 256 mod 256) # char_of (n mod 256) # bs)
        (decodeSextets rest))"

fun sextetValues :: "string \<Rightarrow> nat list option" where
  "sextetValues [] = Some []"
| "sextetValues (c # cs) =
     (case b64value c of
        None \<Rightarrow> None
      | Some n \<Rightarrow> map_option (\<lambda>ns. n # ns) (sextetValues cs))"

definition rawDecodeString :: "string \<Rightarrow> bytes option" where
  "rawDecodeString s =
     Option.bind (sextetValues (filter (\<lambda>c. c \<noteq> CHR 0x0D \<and> c \<noteq> CHR 0x0A) s)) decodeSextets"

lemma less_64_cases:
  "n < (64::nat) \<Longrightarrow> n \<in> set [0..<64]"
  by simp

lemma b64value_b64char_all:
  "list_all (\<lambda>n. b64value (b64char n) = Some n \<and> b64char n \<noteq> CHR ''='' \<and>
     b64char n \<noteq> CHR 0x0D \<and> b64char n \<noteq> CHR 0x0A) [0..<64]"
  by code_simp

lemma b64char_props:
  assumes "n < 64"
  shows "b64value (b64char n) = Some n" "b64char n \<noteq> CHR ''=''"
    "b64char n \<noteq> CHR 0x0D" "b64char n \<noteq> CHR 0x0A"
  using b64value_b64char_all less_64_cases [OF assms] unfolding list_all_iff by blast+

lemma sextets_less: "x \<in> set (sextets n) \<Longrightarrow> x < 64"
  by (auto simp: sextets_def)

lemma length_sextets [simp]: "length (sextets n) = 4"
  by (simp add: sextets_def)

lemma length_encodeToString: "length (encodeToString s) = 4 * ((length s + 2) div 3)"
proof (induction s rule: encodeToString.induct)
  case (4 a b c rest)
  have "(length (a # b # c # rest) + 2) div 3 = Suc ((length rest + 2) div 3)" by simp
  then show ?case using 4 by (simp del: length_Cons)
qed simp_all

lemma go_len_encodeToString: "go_len (encodeToString s) = 4 * ((go_len s + 2) div 3)"
  by (simp add: length_encodeToString zdiv_int)

text \<open>The unpadded text of an encoding, as sextets.\<close>

fun encodeSextets :: "bytes \<Rightarrow> nat list" where
  "encodeSextets [] = []"
| "encodeSextets [a] = take 2 (sextets (byte a * 65536))"
| "encodeSextets [a, b] = take 3 (sextets (byte a * 65536 + byte b * 256))"
| "encodeSextets (a # b # c # rest) =
     sextets (byte a * 65536 + byte b * 256 + byte c) @ encodeSextets rest"

lemma encodeSextets_less: "x \<in> set (encodeSextets s) \<Longrightarrow> x < 64"
  by (induction s rule: encodeSextets.induct) (auto dest: sextets_less in_set_takeD)

lemma trimRight_append_pad:
  "c \<notin> set s \<Longrightarrow> trimRight [c] (s @ replicate k c) = s"
proof -
  assume "c \<notin> set s"
  then have "dropWhile (\<lambda>d. d = c) (rev s) = rev s"
    by (cases s rule: rev_cases) auto
  then show ?thesis by (simp add: trimRight_def dropWhile_append)
qed

lemma encodeToString_pads:
  "\<exists>k \<le> 2. encodeToString s = map b64char (encodeSextets s) @ replicate k CHR ''=''"
proof (induction s rule: encodeToString.induct)
  case (4 a b c rest)
  then obtain k where "k \<le> 2"
    "encodeToString rest = map b64char (encodeSextets rest) @ replicate k CHR ''=''" by blast
  then show ?case by (intro exI [of _ k]) simp
qed (auto intro: exI [of _ "0::nat"] exI [of _ "1::nat"] exI [of _ "2::nat"] simp: numeral_2_eq_2)

lemma unpad_encodeToString:
  "trimRight ''='' (encodeToString s) = map b64char (encodeSextets s)"
proof -
  obtain k where "encodeToString s = map b64char (encodeSextets s) @ replicate k CHR ''=''"
    using encodeToString_pads by blast
  moreover have "CHR ''='' \<notin> set (map b64char (encodeSextets s))"
    using encodeSextets_less b64char_props(2) by fastforce
  ultimately show ?thesis using trimRight_append_pad by simp
qed

lemma sextets_sum:
  assumes "n < 16777216"
  shows "n div 262144 mod 64 * 262144 + n div 4096 mod 64 * 4096 + n div 64 mod 64 * 64 + n mod 64 = (n::nat)"
proof -
  have "n mod 4096 = 64 * (n div 64 mod 64) + n mod 64"
    using mod_mult2_eq [of n 64 64] by simp
  moreover have "n mod 262144 = 4096 * (n div 4096 mod 64) + n mod 4096"
    using mod_mult2_eq [of n 4096 64] by simp
  moreover have "n mod 16777216 = 262144 * (n div 262144 mod 64) + n mod 262144"
    using mod_mult2_eq [of n 262144 64] by simp
  ultimately show ?thesis using assms by simp
qed

lemma sextets_obtain:
  assumes "n < 16777216"
  obtains x y z w where "sextets n = [x, y, z, w]" "z < 64" "w < 64"
    "(x * 64 + y) * 4096 + (z * 64 + w) = n"
proof
  show "sextets n = [n div 262144 mod 64, n div 4096 mod 64, n div 64 mod 64, n mod 64]"
    by (simp add: sextets_def)
  show "(n div 262144 mod 64 * 64 + n div 4096 mod 64) * 4096 + (n div 64 mod 64 * 64 + n mod 64) = n"
  proof -
    have regroup: "A * 262144 + B * 4096 + C * 64 + D = m \<Longrightarrow> (A * 64 + B) * 4096 + (C * 64 + D) = m"
      for A B C D m :: nat by simp
    show ?thesis by (rule regroup [OF sextets_sum [OF assms]])
  qed
qed simp_all

lemma div256: "c < 256 \<Longrightarrow> (k * 256 + c) div 256 = (k::nat)"
  and mod256: "c < 256 \<Longrightarrow> (k * 256 + c) mod 256 = (c::nat)"
  by simp_all

lemma div65536:
  assumes "b < 256" "c < 256"
  shows "((a * 256 + b) * 256 + c) div 65536 = (a::nat)"
proof -
  have "((a * 256 + b) * 256 + c) div (256 * 256) = a"
    using assms by (simp only: div_mult2_eq div256)
  moreover have "(256 * 256 :: nat) = 65536" by simp
  ultimately show ?thesis by (simp only:)
qed

lemma quotient_unique:
  assumes "k * m + r = j * m" "r < (m::nat)"
  shows "k = j"
proof -
  have "(k * m + r) div m = k" "(j * m) div m = j" using assms(2) by simp_all
  with assms(1) show ?thesis by simp
qed

lemma decode_encode_sextets: "decodeSextets (encodeSextets s) = Some s"
proof (induction s rule: encodeSextets.induct)
  case (2 a)
  have "byte a * 65536 < 16777216" using byte_less [of a] by linarith
  then obtain x y z w where q: "sextets (byte a * 65536) = [x, y, z, w]" "z < 64" "w < 64"
    "(x * 64 + y) * 4096 + (z * 64 + w) = byte a * 65536" by (rule sextets_obtain)
  have "x * 64 + y = byte a * 16"
    by (rule quotient_unique [where m = 4096 and r = "z * 64 + w"]) (use q(2-4) in simp_all)
  then show ?case by (simp add: q)
next
  case (3 a b)
  have "byte a * 65536 + byte b * 256 < 16777216"
    using byte_less [of a] byte_less [of b] by linarith
  then obtain x y z w where q: "sextets (byte a * 65536 + byte b * 256) = [x, y, z, w]" "z < 64" "w < 64"
    "(x * 64 + y) * 4096 + (z * 64 + w) = byte a * 65536 + byte b * 256" by (rule sextets_obtain)
  have eq: "x * 4096 + y * 64 + z = (byte a * 256 + byte b) * 4"
    by (rule quotient_unique [where m = 64 and r = w]) (use q(3,4) in simp_all)
  have "(byte a * 256 + byte b) * 4 div 1024 = (byte a * 256 + byte b) div 256"
    using div_mult_mult2 [of 4 "byte a * 256 + byte b" 256] by simp
  then have "(byte a * 256 + byte b) * 4 div 1024 = byte a" using byte_less [of b] by simp
  moreover have "(byte a * 256 + byte b) * 4 div 4 mod 256 = byte b" by simp
  ultimately show ?case by (simp add: q eq)
next
  case (4 a b c rest)
  let ?n = "byte a * 65536 + byte b * 256 + byte c"
  have lt: "byte a < 256" "byte b < 256" "byte c < 256" by simp_all
  then have "?n < 16777216" by linarith
  then obtain x y z w where q: "sextets ?n = [x, y, z, w]"
    "(x * 64 + y) * 4096 + (z * 64 + w) = ?n" by (rule sextets_obtain)
  from q(2) have eq: "x * 262144 + y * 4096 + z * 64 + w = (byte a * 256 + byte b) * 256 + byte c"
    by simp
  have hi: "((byte a * 256 + byte b) * 256 + byte c) div 256 = byte a * 256 + byte b"
    using lt(3) by (rule div256)
  then have "((byte a * 256 + byte b) * 256 + byte c) div 256 mod 256 = byte b"
    using lt(2) by (simp only: mod256)
  moreover have "((byte a * 256 + byte b) * 256 + byte c) mod 256 = byte c"
    using lt(3) by (rule mod256)
  moreover have "((byte a * 256 + byte b) * 256 + byte c) div 65536 = byte a"
    using lt(2,3) by (rule div65536)
  ultimately show ?case using 4 by (simp only: encodeSextets.simps q decodeSextets.simps Let_def eq
      append.simps option.map char_of_char)
qed simp

lemma sextetValues_map: "(\<And>n. n \<in> set ns \<Longrightarrow> n < 64) \<Longrightarrow> sextetValues (map b64char ns) = Some ns"
  by (induction ns) (auto simp: b64char_props)

lemma rawDecode_encode: "rawDecodeString (trimRight ''='' (encodeToString s)) = Some s"
proof -
  have "filter (\<lambda>c. c \<noteq> CHR 0x0D \<and> c \<noteq> CHR 0x0A) (map b64char (encodeSextets s)) =
      map b64char (encodeSextets s)"
    by (rule filter_True) (use encodeSextets_less b64char_props in auto)
  then show ?thesis
    using sextetValues_map [of "encodeSextets s"] encodeSextets_less
    by (simp add: rawDecodeString_def unpad_encodeToString decode_encode_sextets)
qed

lemma b64char_not_colon: "n < 64 \<Longrightarrow> b64char n \<noteq> CHR '':''"
proof -
  have "list_all (\<lambda>n. b64char n \<noteq> CHR '':'') [0..<64]" by code_simp
  then show "n < 64 \<Longrightarrow> ?thesis" unfolding list_all_iff using less_64_cases by blast
qed

lemma colon_not_in_encodeToString: "CHR '':'' \<notin> set (encodeToString s)"
proof -
  obtain k where "encodeToString s = map b64char (encodeSextets s) @ replicate k CHR ''=''"
    using encodeToString_pads by blast
  then show ?thesis using encodeSextets_less b64char_not_colon by fastforce
qed

section \<open>Decimal numbers\<close>

function formatNat :: "nat \<Rightarrow> string" where
  "formatNat n = (if n < 10 then [char_of (48 + n)] else formatNat (n div 10) @ [char_of (48 + n mod 10)])"
  by pat_completeness auto
termination
  by (relation "measure id") auto

declare formatNat.simps [simp del]

text \<open>\<^verbatim>\<open>strconv.FormatInt(x, 10)\<close>, which \<^verbatim>\<open>strconv.Itoa\<close> and \<^verbatim>\<open>AppendInt\<close> also compute.\<close>

definition formatInt :: "int \<Rightarrow> string" where
  "formatInt x = (if x < 0 then CHR ''-'' # formatNat (nat (- x)) else formatNat (nat x))"

definition decimalValue :: "string \<Rightarrow> nat" where
  "decimalValue s = foldl (\<lambda>n c. 10 * n + (byte c - 48)) 0 s"

text \<open>\<^verbatim>\<open>strconv.ParseUint(s, 10, bits)\<close>; \<open>None\<close> for a syntax or range error.\<close>

definition parseUint :: "nat \<Rightarrow> string \<Rightarrow> nat option" where
  "parseUint bits s =
     (if s = [] \<or> \<not> list_all isDigit s then None
      else if decimalValue s < 2 ^ bits then Some (decimalValue s) else None)"

definition decimalIntegerLength :: "int \<Rightarrow> int" where
  "decimalIntegerLength value = go_len (formatInt value)"

lemma byte_digit [simp]: "n < 10 \<Longrightarrow> byte (char_of (48 + n)) = 48 + n"
  by simp

lemma formatNat_digits: "list_all isDigit (formatNat n) \<and> formatNat n \<noteq> []"
proof (induction n rule: formatNat.induct)
  case (1 n)
  have d: "m < 10 \<Longrightarrow> isDigit (char_of (48 + m))" for m :: nat by (simp add: isDigit_def)
  show ?case
    using 1 d [of n] d [of "n mod 10"] by (subst (1 2) formatNat.simps) auto
qed

lemma decimalValue_snoc: "decimalValue (s @ [c]) = 10 * decimalValue s + (byte c - 48)"
  by (simp add: decimalValue_def)

lemma decimalValue_formatNat [simp]: "decimalValue (formatNat n) = n"
proof (induction n rule: formatNat.induct)
  case (1 n)
  show ?case
  proof (cases "n < 10")
    case True
    then show ?thesis by (subst formatNat.simps) (simp add: decimalValue_def)
  next
    case False
    then have "decimalValue (formatNat n) = 10 * (n div 10) + (byte (char_of (48 + n mod 10)) - 48)"
      using 1 by (subst formatNat.simps) (simp add: decimalValue_snoc)
    then show ?thesis by simp
  qed
qed

lemma parseUint_formatNat: "n < 2 ^ bits \<Longrightarrow> parseUint bits (formatNat n) = Some n"
  by (simp add: parseUint_def formatNat_digits)

end
