(* ===== verification/Sfv.thy ===== *)
theory Sfv
  imports Base64
begin

text \<open>
  The boundary to the Structured Fields library: the Go values a parameter can hold, the part of the
  \<^verbatim>\<open>httpsfv\<close> API the code calls (as a record of functions, a parameter of every definition that
  reaches it), and \<^verbatim>\<open>structured_field_safe.go\<close>: line combination, the base64 canonicaliser that runs
  before the library's parser, the recovery of library panics, and the decimal repair that runs after
  its serialiser. The type guards \<^verbatim>\<open>isRFC8941*\<close> of \<^verbatim>\<open>message.go\<close> and the parameter conversions of
  \<^verbatim>\<open>signature_fields.go\<close> are here too, since every component uses them.
\<close>

section \<open>Values\<close>

text \<open>
  The dynamic types of a Go \<^verbatim>\<open>any\<close> the code distinguishes. \<open>VToken\<close> is \<^verbatim>\<open>httpsfv.Token\<close>, \<open>VSFToken\<close> the
  package's own \<^verbatim>\<open>SFToken\<close>, \<open>VFloat64\<close> holds the IEEE bits, \<open>VOther\<close> any further type.
\<close>

datatype goval =
    VBool bool
  | VString string
  | VInt64 int
  | VFloat64 "64 word"
  | VBytes bytes
  | VToken string
  | VSFToken string
  | VOther string
  | VNil

record Parameter =
  ParName :: string
  ParValue :: goval

record ComponentIdentifier =
  CompName :: string
  CompParameters :: "Parameter list"

record SignatureInput =
  InLabel :: string
  InComponents :: "ComponentIdentifier list"
  InParameters :: "Parameter list"

record SignatureValue =
  SigLabel :: string
  SigValue :: bytes
  SigParameters :: "Parameter list"

section \<open>The Structured Fields library\<close>

text \<open>
  \<^verbatim>\<open>httpsfv.Params\<close> and \<^verbatim>\<open>httpsfv.Dictionary\<close> are opaque types \<open>'p\<close> and \<open>'d\<close>; a nil \<^verbatim>\<open>*Params\<close> is
  \<open>None\<close>. A parser returns a value, an error, or panics.
\<close>

record 'p sfitem =
  ItemValue :: goval
  ItemParams :: "'p option"

record 'p sfinner =
  Items :: "'p sfitem list"
  InnerParams :: "'p option"

datatype 'p sfmember = MItem "'p sfitem" | MInnerList "'p sfinner"

datatype ('p, 'd) sfvalue =
    SFItem "'p sfitem"
  | SFInnerList "'p sfinner"
  | SFList "'p sfmember list"
  | SFDictionary 'd

datatype 'a parsed = Parses 'a | Fails goerr | Panics

record ('p, 'd) httpsfv =
  NewParams :: 'p
  ParamsAdd :: "'p \<Rightarrow> string \<Rightarrow> goval \<Rightarrow> 'p"
  ParamsNames :: "'p \<Rightarrow> string list"
  ParamsGet :: "'p \<Rightarrow> string \<Rightarrow> goval option"
  NewDictionary :: 'd
  DictAdd :: "'d \<Rightarrow> string \<Rightarrow> 'p sfmember \<Rightarrow> 'd"
  DictNames :: "'d \<Rightarrow> string list"
  DictGet :: "'d \<Rightarrow> string \<Rightarrow> 'p sfmember option"
  Marshal :: "('p, 'd) sfvalue \<Rightarrow> string res"
  UnmarshalDictionary :: "string list \<Rightarrow> 'd parsed"
  UnmarshalList :: "string list \<Rightarrow> 'p sfmember list parsed"
  UnmarshalItem :: "string list \<Rightarrow> 'p sfitem parsed"

definition NewItem :: "('p, 'd) httpsfv \<Rightarrow> goval \<Rightarrow> 'p sfitem" where
  "NewItem h v = \<lparr>ItemValue = v, ItemParams = Some (NewParams h)\<rparr>"

text \<open>An interface value read with \<^verbatim>\<open>value, _ := Get(name)\<close>: nil when absent.\<close>

definition anyOf :: "goval option \<Rightarrow> goval" where
  "anyOf v = (case v of None \<Rightarrow> VNil | Some x \<Rightarrow> x)"

section \<open>Keys\<close>

definition isKeyStart :: "char \<Rightarrow> bool" where
  "isKeyStart c \<longleftrightarrow> c = CHR ''*'' \<or> isLower c"

definition isKeyCharacter :: "char \<Rightarrow> bool" where
  "isKeyCharacter c \<longleftrightarrow>
     isKeyStart c \<or> isDigit c \<or> c = CHR ''_'' \<or> c = CHR ''-'' \<or> c = CHR ''.''"

section \<open>Normalisation before parsing\<close>

definition combineStructuredFieldLines :: "string list \<Rightarrow> string list" where
  "combineStructuredFieldLines values =
     (if length values \<le> 1 then values else [join '', '' values])"

text \<open>
  \<^verbatim>\<open>normalizeStructuredFieldOWS\<close> scans a byte buffer in place: \<open>before\<close> is the (already rewritten)
  prefix, so a decision at a later index sees earlier replacements.
\<close>

definition ows :: string where
  "ows = [CHR '' '', CHR 0x09]"

definition tabIsSeparator :: "string \<Rightarrow> string \<Rightarrow> bool" where
  "tabIsSeparator before after \<longleftrightarrow>
     (case rev (trimRight ows before) of c # _ \<Rightarrow> c = CHR '','' | [] \<Rightarrow> False) \<or>
     hasPrefix (trimLeft ows after) '',''"

fun normalizeOWS_loop :: "string \<Rightarrow> string \<Rightarrow> string" where
  "normalizeOWS_loop before [] = before"
| "normalizeOWS_loop before (c # after) =
     normalizeOWS_loop
       (before @ [if c = CHR 0x09 \<and> tabIsSeparator before after then CHR '' '' else c]) after"

definition normalizeStructuredFieldOWS :: "string list \<Rightarrow> string list" where
  "normalizeStructuredFieldOWS values = map (normalizeOWS_loop []) values"

definition validRFC8941Base64Alphabet :: "string \<Rightarrow> bool" where
  "validRFC8941Base64Alphabet value \<longleftrightarrow>
     list_all (\<lambda>c. isUpper c \<or> isLower c \<or> isDigit c \<or> c = CHR ''+'' \<or> c = CHR ''/'') value"

definition isRFC8941BareItemBoundary :: "string \<Rightarrow> nat \<Rightarrow> bool" where
  "isRFC8941BareItemBoundary value index \<longleftrightarrow>
     index = 0 \<or> value ! (index - 1) \<in> set [CHR '' '', CHR 0x09, CHR ''='', CHR ''('', CHR '','']"

text \<open>The rewriting decision for one \<^verbatim>\<open>:encoded:\<close> candidate: the canonical text, if it replaces it.\<close>

definition canonicalBinary :: "string \<Rightarrow> string option" where
  "canonicalBinary encoded =
     (let unpadded = trimRight ''='' encoded in
      if CHR ''='' \<notin> set unpadded \<and> validRFC8941Base64Alphabet unpadded then
        (case rawDecodeString unpadded of
           None \<Rightarrow> None
         | Some decoded \<Rightarrow>
             let canonical = encodeToString decoded in
             if go_len encoded \<le> go_len canonical \<and> canonical \<noteq> encoded then Some canonical else None)
      else None)"

text \<open>
  The loop of \<^verbatim>\<open>normalizeRFC8941BinaryValue\<close> with its local variables; the result is the final
  \<^verbatim>\<open>(result, segmentStart, changed)\<close>. A closing colon at offset \<open>k\<close> from \<open>index + 1\<close> moves the index past it.
\<close>

function normalizeBinary_loop ::
  "string \<Rightarrow> nat \<Rightarrow> string \<Rightarrow> nat \<Rightarrow> bool \<Rightarrow> bool \<Rightarrow> bool \<Rightarrow> string \<times> nat \<times> bool" where
  "normalizeBinary_loop value index result segmentStart quoted escaped changed =
     (if index \<ge> length value then (result, segmentStart, changed)
      else
        let character = value ! index in
        if quoted then
          (if escaped then normalizeBinary_loop value (index + 1) result segmentStart True False changed
           else if character = CHR 0x5C then normalizeBinary_loop value (index + 1) result segmentStart True True changed
           else if character = CHR 0x22 then normalizeBinary_loop value (index + 1) result segmentStart False escaped changed
           else normalizeBinary_loop value (index + 1) result segmentStart True escaped changed)
        else if character = CHR 0x22 then
          normalizeBinary_loop value (index + 1) result segmentStart True escaped changed
        else if character = CHR '':'' \<and> isRFC8941BareItemBoundary value index then
          (case indexByte (drop (index + 1) value) CHR '':'' of
             None \<Rightarrow> normalizeBinary_loop value (index + 1) result segmentStart quoted escaped changed
           | Some closingOffset \<Rightarrow>
               let closing = index + 1 + closingOffset;
                   encoded = take closingOffset (drop (index + 1) value)
               in case canonicalBinary encoded of
                    Some canonical \<Rightarrow>
                      normalizeBinary_loop value (closing + 1)
                        (result @ take (index + 1 - segmentStart) (drop segmentStart value) @ canonical @ '':'')
                        (closing + 1) quoted escaped True
                  | None \<Rightarrow> normalizeBinary_loop value (closing + 1) result segmentStart quoted escaped changed)
        else normalizeBinary_loop value (index + 1) result segmentStart quoted escaped changed)"
  by pat_completeness auto
termination
  by (relation "measure (\<lambda>(value, index, _). length value - index)") auto

declare normalizeBinary_loop.simps [simp del]

definition normalizeRFC8941BinaryValue :: "string \<Rightarrow> string" where
  "normalizeRFC8941BinaryValue value =
     (case normalizeBinary_loop value 0 [] 0 False False False of
        (result, segmentStart, changed) \<Rightarrow>
          if \<not> changed then value else result @ drop segmentStart value)"

text \<open>Copy on write: \<open>normalized\<close> stays nil until the first line changes.\<close>

fun normalizeBinaryValues_loop :: "string list \<Rightarrow> nat \<Rightarrow> string list \<Rightarrow> string list option \<Rightarrow> string list option" where
  "normalizeBinaryValues_loop all i [] normalized = normalized"
| "normalizeBinaryValues_loop all i (value # vs) normalized =
     (let normalizedValue = normalizeRFC8941BinaryValue value in
      normalizeBinaryValues_loop all (i + 1) vs
        (if normalizedValue \<noteq> value
         then Some ((case normalized of None \<Rightarrow> all | Some n \<Rightarrow> n)[i := normalizedValue])
         else normalized))"

definition normalizeRFC8941BinaryValues :: "string list \<Rightarrow> string list" where
  "normalizeRFC8941BinaryValues values =
     (case normalizeBinaryValues_loop values 0 values None of None \<Rightarrow> values | Some n \<Rightarrow> n)"

section \<open>Parsing with recovery\<close>

definition errStructuredFieldParse :: goerr where
  "errStructuredFieldParse = NewErr ''structured field parser rejected input''"

definition errStructuredFieldRFC8941 :: goerr where
  "errStructuredFieldRFC8941 = NewErr ''structured field value is not RFC 8941''"

definition unmarshalStructuredField :: "string list \<Rightarrow> (string list \<Rightarrow> 'a parsed) \<Rightarrow> 'a res" where
  "unmarshalStructuredField values parse =
     (let combined = normalizeStructuredFieldOWS (combineStructuredFieldLines values) in
      case parse (normalizeRFC8941BinaryValues combined) of
        Panics \<Rightarrow> Inl errStructuredFieldParse
      | Fails e \<Rightarrow> Inl e
      | Parses x \<Rightarrow> Inr x)"

definition unmarshalStructuredDictionary :: "('p, 'd) httpsfv \<Rightarrow> string list \<Rightarrow> 'd res" where
  "unmarshalStructuredDictionary h values = unmarshalStructuredField values (UnmarshalDictionary h)"

definition unmarshalStructuredList :: "('p, 'd) httpsfv \<Rightarrow> string list \<Rightarrow> 'p sfmember list res" where
  "unmarshalStructuredList h values = unmarshalStructuredField values (UnmarshalList h)"

definition unmarshalStructuredItem :: "('p, 'd) httpsfv \<Rightarrow> string list \<Rightarrow> 'p sfitem res" where
  "unmarshalStructuredItem h values = unmarshalStructuredField values (UnmarshalItem h)"

section \<open>Type guards\<close>

fun isRFC8941BareItem :: "goval \<Rightarrow> bool" where
  "isRFC8941BareItem (VBool b) = True"
| "isRFC8941BareItem (VString s) = True"
| "isRFC8941BareItem (VInt64 n) = True"
| "isRFC8941BareItem (VFloat64 f) = True"
| "isRFC8941BareItem (VBytes b) = True"
| "isRFC8941BareItem (VToken t) = True"
| "isRFC8941BareItem v = False"

definition isRFC8941Parameters :: "('p, 'd) httpsfv \<Rightarrow> 'p option \<Rightarrow> bool" where
  "isRFC8941Parameters h parameters =
     (case parameters of
        None \<Rightarrow> False
      | Some p \<Rightarrow> list_all (\<lambda>name. isRFC8941BareItem (anyOf (ParamsGet h p name))) (ParamsNames h p))"

definition isRFC8941Item :: "('p, 'd) httpsfv \<Rightarrow> 'p sfitem \<Rightarrow> bool" where
  "isRFC8941Item h item \<longleftrightarrow> isRFC8941BareItem (ItemValue item) \<and> isRFC8941Parameters h (ItemParams item)"

definition isRFC8941Member :: "('p, 'd) httpsfv \<Rightarrow> 'p sfmember option \<Rightarrow> bool" where
  "isRFC8941Member h member =
     (case member of
        Some (MItem value) \<Rightarrow> isRFC8941Item h value
      | Some (MInnerList value) \<Rightarrow>
          isRFC8941Parameters h (InnerParams value) \<and> list_all (isRFC8941Item h) (Items value)
      | None \<Rightarrow> False)"

fun isRFC8941StructuredField :: "('p, 'd) httpsfv \<Rightarrow> ('p, 'd) sfvalue \<Rightarrow> bool" where
  "isRFC8941StructuredField h (SFItem field) = isRFC8941Item h field"
| "isRFC8941StructuredField h (SFInnerList field) = isRFC8941Member h (Some (MInnerList field))"
| "isRFC8941StructuredField h (SFList field) = list_all (\<lambda>m. isRFC8941Member h (Some m)) field"
| "isRFC8941StructuredField h (SFDictionary field) =
     list_all (\<lambda>name. isRFC8941Member h (DictGet h field name)) (DictNames h field)"

section \<open>Serialisation with the decimal repair\<close>

text \<open>\<open>digitRunStart value start\<close> is the \<^verbatim>\<open>for start > 0 && digit\<close> loop of the look-behind.\<close>

fun digitRunStart :: "string \<Rightarrow> nat \<Rightarrow> nat" where
  "digitRunStart value 0 = 0"
| "digitRunStart value (Suc start) =
     (if isDigit (value ! start) then digitRunStart value start else Suc start)"

definition isEmptyRFC8941DecimalFraction :: "string \<Rightarrow> nat \<Rightarrow> bool" where
  "isEmptyRFC8941DecimalFraction value decimalPoint =
     (if decimalPoint = 0 \<or> \<not> isDigit (value ! (decimalPoint - 1)) then False
      else if decimalPoint + 1 < length value \<and>
              value ! (decimalPoint + 1) \<notin> set [CHR '';'', CHR '' '', CHR '','', CHR '')''] then False
      else
        let start = digitRunStart value decimalPoint;
            start = (if start > 0 \<and> value ! (start - 1) = CHR ''-'' then start - 1 else start)
        in start = 0 \<or> value ! (start - 1) \<in> set [CHR ''='', CHR ''('', CHR '','', CHR '' ''])"

function restoreDecimals_loop :: "string \<Rightarrow> nat \<Rightarrow> string \<Rightarrow> bool \<Rightarrow> bool \<Rightarrow> string" where
  "restoreDecimals_loop serialized index result quoted escaped =
     (if index \<ge> length serialized then result
      else
        let character = serialized ! index in
        if quoted then
          (if escaped then restoreDecimals_loop serialized (index + 1) (result @ [character]) True False
           else if character = CHR 0x5C then restoreDecimals_loop serialized (index + 1) (result @ [character]) True True
           else if character = CHR 0x22 then restoreDecimals_loop serialized (index + 1) (result @ [character]) False escaped
           else restoreDecimals_loop serialized (index + 1) (result @ [character]) True escaped)
        else if character = CHR 0x22 then
          restoreDecimals_loop serialized (index + 1) (result @ [character]) True escaped
        else if character = CHR ''.'' \<and> isEmptyRFC8941DecimalFraction serialized index then
          restoreDecimals_loop serialized (index + 1) (result @ [character] @ ''0'') quoted escaped
        else restoreDecimals_loop serialized (index + 1) (result @ [character]) quoted escaped)"
  by pat_completeness auto
termination
  by (relation "measure (\<lambda>(serialized, index, _). length serialized - index)") auto

declare restoreDecimals_loop.simps [simp del]

definition restoreRFC8941IntegralDecimals :: "string \<Rightarrow> string" where
  "restoreRFC8941IntegralDecimals serialized = restoreDecimals_loop serialized 0 [] False False"

definition marshalRFC8941 :: "('p, 'd) httpsfv \<Rightarrow> ('p, 'd) sfvalue \<Rightarrow> string res" where
  "marshalRFC8941 h value =
     (if \<not> isRFC8941StructuredField h value then Inl errStructuredFieldRFC8941
      else case Marshal h value of
             Inl err \<Rightarrow> Inl err
           | Inr serialized \<Rightarrow> Inr (restoreRFC8941IntegralDecimals serialized))"

definition marshalMember :: "('p, 'd) httpsfv \<Rightarrow> 'p sfmember \<Rightarrow> string res" where
  "marshalMember h member =
     (case marshalRFC8941 h (SFDictionary (DictAdd h (NewDictionary h) ''x'' member)) of
        Inl err \<Rightarrow> Inl err
      | Inr serialized \<Rightarrow>
          if hasPrefix serialized ''x='' then Inr (drop 2 serialized)
          else Inr (''?1'' @ (if hasPrefix serialized ''x'' then drop 1 serialized else serialized)))"

section \<open>Parameters\<close>

fun fromStructuredValue :: "goval \<Rightarrow> goval option" where
  "fromStructuredValue (VBool b) = Some (VBool b)"
| "fromStructuredValue (VString s) = Some (VString s)"
| "fromStructuredValue (VInt64 n) = Some (VInt64 n)"
| "fromStructuredValue (VFloat64 f) = Some (VFloat64 f)"
| "fromStructuredValue (VBytes b) = Some (VBytes b)"
| "fromStructuredValue (VToken t) = Some (VSFToken t)"
| "fromStructuredValue v = None"

fun copyParameters_loop :: "('p, 'd) httpsfv \<Rightarrow> 'p \<Rightarrow> string list \<Rightarrow> Parameter list \<Rightarrow> Parameter list res" where
  "copyParameters_loop h p [] result = Inr result"
| "copyParameters_loop h p (name # names) result =
     (case fromStructuredValue (anyOf (ParamsGet h p name)) of
        None \<Rightarrow> Inl (NewErr ''RFC 9651-only parameter value'')
      | Some converted \<Rightarrow>
          copyParameters_loop h p names (result @ [\<lparr>ParName = name, ParValue = converted\<rparr>]))"

definition copyParameters :: "('p, 'd) httpsfv \<Rightarrow> 'p option \<Rightarrow> Parameter list res" where
  "copyParameters h parameters =
     (case parameters of
        None \<Rightarrow> Inl (NewErr ''missing parameters'')
      | Some p \<Rightarrow> copyParameters_loop h p (ParamsNames h p) [])"

definition toStructuredValue :: "goval \<Rightarrow> goval" where
  "toStructuredValue v = (case v of VSFToken t \<Rightarrow> VToken t | _ \<Rightarrow> v)"

definition addParameters :: "('p, 'd) httpsfv \<Rightarrow> 'p \<Rightarrow> Parameter list \<Rightarrow> 'p" where
  "addParameters h target parameters =
     foldl (\<lambda>p q. ParamsAdd h p (ParName q) (toStructuredValue (ParValue q))) target parameters"

definition cloneParameterValue :: "goval \<Rightarrow> goval" where
  "cloneParameterValue value = (case value of VBytes b \<Rightarrow> VBytes ([] @ b) | _ \<Rightarrow> value)"

definition cloneParameters :: "Parameter list \<Rightarrow> Parameter list" where
  "cloneParameters parameters =
     map (\<lambda>p. \<lparr>ParName = ParName p, ParValue = cloneParameterValue (ParValue p)\<rparr>) parameters"

fun parameter :: "Parameter list \<Rightarrow> string \<Rightarrow> goval option" where
  "parameter [] name = None"
| "parameter (current # rest) name =
     (if ParName current = name then Some (cloneParameterValue (ParValue current)) else parameter rest name)"

section \<open>Laws of copying and conversion\<close>

lemma cloneParameterValue_id [simp]: "cloneParameterValue v = v"
  by (simp add: cloneParameterValue_def split: goval.splits)

lemma cloneParameters_id [simp]: "cloneParameters ps = ps"
  unfolding cloneParameters_def by (rule map_idI) simp

lemma parameter_map_of: "parameter ps name = map_of (map (\<lambda>p. (ParName p, ParValue p)) ps) name"
  by (induction ps) auto

lemma normalizeBinaryValues_loop_map:
  "all = pre @ vs \<Longrightarrow> i = length pre \<Longrightarrow>
   (case normalized of None \<Rightarrow> map normalizeRFC8941BinaryValue pre = pre
    | Some n \<Rightarrow> n = map normalizeRFC8941BinaryValue pre @ vs) \<Longrightarrow>
   (case normalizeBinaryValues_loop all i vs normalized of None \<Rightarrow> all | Some n \<Rightarrow> n) =
     map normalizeRFC8941BinaryValue all"
proof (induction all i vs normalized arbitrary: pre rule: normalizeBinaryValues_loop.induct)
  case (1 all i normalized)
  then show ?case by (auto split: option.splits)
next
  case (2 all i v vs normalized)
  show ?case
    unfolding normalizeBinaryValues_loop.simps Let_def
    by (rule 2(1) [OF refl, of "pre @ [v]"])
      (use 2(2-4) in \<open>auto simp: list_update_append split: option.splits\<close>)
qed

lemma normalizeRFC8941BinaryValues_map:
  "normalizeRFC8941BinaryValues values = map normalizeRFC8941BinaryValue values"
  unfolding normalizeRFC8941BinaryValues_def
  by (rule normalizeBinaryValues_loop_map [where pre = "[]"]) auto

section \<open>The base64 canonicaliser as a scanner\<close>

text \<open>The reference: a scan over the remaining text that knows only the previous byte.\<close>

definition bareBoundary :: "char option \<Rightarrow> bool" where
  "bareBoundary prev =
     (case prev of None \<Rightarrow> True
      | Some c \<Rightarrow> c \<in> set [CHR '' '', CHR 0x09, CHR ''='', CHR ''('', CHR '',''])"

lemma indexByte_less: "indexByte s c = Some k \<Longrightarrow> k < length s"
  by (induction s arbitrary: k) (auto split: if_splits)

lemma indexByte_Some: "indexByte s c = Some k \<Longrightarrow> c \<notin> set (take k s) \<and> drop k s = c # drop (Suc k) s"
  by (induction s arbitrary: k) (auto split: if_splits)

lemma indexByte_None: "indexByte s c = None \<longleftrightarrow> c \<notin> set s"
  by (induction s) auto

lemma indexByte_append: "c \<notin> set x \<Longrightarrow> indexByte (x @ c # y) c = Some (length x)"
  by (induction x) auto

function scanBinary :: "char option \<Rightarrow> bool \<Rightarrow> bool \<Rightarrow> string \<Rightarrow> string" where
  "scanBinary prev quoted escaped [] = []"
| "scanBinary prev quoted escaped (c # cs) =
     (if quoted then
        c # scanBinary (Some c) (escaped \<or> c \<noteq> CHR 0x22) (\<not> escaped \<and> c = CHR 0x5C) cs
      else if c = CHR 0x22 then c # scanBinary (Some c) True False cs
      else if c = CHR '':'' \<and> bareBoundary prev then
        (case indexByte cs CHR '':'' of
           None \<Rightarrow> c # scanBinary (Some c) False False cs
         | Some k \<Rightarrow>
             c # (case canonicalBinary (take k cs) of None \<Rightarrow> take k cs | Some canonical \<Rightarrow> canonical) @
               '':'' @ scanBinary (Some CHR '':'') False False (drop (Suc k) cs))
      else c # scanBinary (Some c) False False cs)"
  by pat_completeness auto
termination
  by (relation "measure (\<lambda>(_, _, _, s). length s)") auto

definition prevByte :: "string \<Rightarrow> nat \<Rightarrow> char option" where
  "prevByte value index = (if index = 0 then None else Some (value ! (index - 1)))"

lemma bareBoundary_prevByte: "bareBoundary (prevByte value index) = isRFC8941BareItemBoundary value index"
  by (simp add: bareBoundary_def prevByte_def isRFC8941BareItemBoundary_def)

lemma prevByte_Suc [simp]: "prevByte value (Suc index) = Some (value ! index)"
  by (simp add: prevByte_def)

lemma drop_segment:
  assumes "segmentStart \<le> index" "index < length value"
  shows "take (index - segmentStart) (drop segmentStart value) @ value ! index # xs =
         take (Suc index - segmentStart) (drop segmentStart value) @ xs"
  using assms by (simp add: Suc_diff_le take_Suc_conv_app_nth)

definition finishBinary :: "string \<Rightarrow> string \<times> nat \<times> bool \<Rightarrow> string" where
  "finishBinary value r = fst r @ drop (fst (snd r)) value"

lemma normalizeBinary_loop_scan:
  "index \<le> length v \<Longrightarrow> segmentStart \<le> index \<Longrightarrow> (escaped \<longrightarrow> quoted) \<Longrightarrow>
   finishBinary v (normalizeBinary_loop v index result segmentStart quoted escaped changed) =
     result @ take (index - segmentStart) (drop segmentStart v) @
     scanBinary (prevByte v index) quoted escaped (drop index v)"
proof (induction "length v - index" arbitrary: index result segmentStart quoted escaped changed
    rule: less_induct)
  case less
  have IH: "finishBinary v (normalizeBinary_loop v i r s q e ch) =
      r @ take (i - s) (drop s v) @ scanBinary (prevByte v i) q e (drop i v)"
    if "index < i" "i \<le> length v" "s \<le> i" "e \<longrightarrow> q" for i r s q e ch
    using that by (intro less.hyps) auto
  show ?case
  proof (cases "index < length v")
    case False
    then have "index = length v" using less.prems(1) by simp
    then show ?thesis using less.prems(2)
      by (subst normalizeBinary_loop.simps) (simp add: finishBinary_def)
  next
    case True
    then have d: "drop index v = v ! index # drop (Suc index) v" by (simp add: Cons_nth_drop_Suc)
    note seg = drop_segment [OF less.prems(2) True]
    have step: "finishBinary v (normalizeBinary_loop v (Suc index) result segmentStart q e changed) =
        result @ take (index - segmentStart) (drop segmentStart v) @
        v ! index # scanBinary (Some (v ! index)) q e (drop (Suc index) v)" if "e \<longrightarrow> q" for q e
      using IH [of "Suc index" segmentStart e q result changed] True less.prems(2) that seg by simp
    show ?thesis
    proof (cases "\<not> quoted \<and> v ! index = CHR '':'' \<and> bareBoundary (prevByte v index) \<and>
        CHR '':'' \<in> set (drop (Suc index) v)")
      case False
      then have none: "\<not> quoted \<Longrightarrow> v ! index = CHR '':'' \<Longrightarrow> isRFC8941BareItemBoundary v index \<Longrightarrow>
          indexByte (drop (Suc index) v) CHR '':'' = None"
        by (simp add: bareBoundary_prevByte indexByte_None)
      show ?thesis
      proof (cases quoted)
        case q: True
        show ?thesis
          using True q step [of False True] step [of True True] step [of False False]
          by (subst normalizeBinary_loop.simps) (simp add: d Let_def)
      next
        case q: False
        then have "\<not> escaped" using less.prems(3) by simp
        then show ?thesis
          using True q none step [of False True] step [of False False]
          by (cases "v ! index = CHR '':'' \<and> isRFC8941BareItemBoundary v index";
              subst normalizeBinary_loop.simps)
            (auto simp: d Let_def bareBoundary_prevByte)
      qed
    next
      case candidate: True
      then obtain k where k: "indexByte (drop (Suc index) v) CHR '':'' = Some k"
        by (cases "indexByte (drop (Suc index) v) CHR '':''") (auto simp: indexByte_None)
      let ?closing = "Suc (index + k)" and ?encoded = "take k (drop (Suc index) v)"
      have lt: "?closing < length v" using indexByte_less [OF k] by simp
      have close: "v ! ?closing = CHR '':''"
        using indexByte_Some [OF k] lt by (simp add: add.commute) (metis Cons_nth_drop_Suc nth_via_drop)
      have rest: "drop (Suc k) (drop (Suc index) v) = drop (Suc ?closing) v" by (simp add: add.commute)
      have prefix: "take (Suc index - segmentStart) (drop segmentStart v) =
          take (index - segmentStart) (drop segmentStart v) @ [v ! index]"
        using drop_segment [OF less.prems(2) True, of "[]"] by simp
      have whole: "take (Suc ?closing - segmentStart) (drop segmentStart v) =
          take (index - segmentStart) (drop segmentStart v) @ CHR '':'' # ?encoded @ '':''"
      proof -
        have "Suc ?closing - segmentStart = (index - segmentStart) + Suc (Suc k)"
          using less.prems(2) by simp
        then have "take (Suc ?closing - segmentStart) (drop segmentStart v) =
            take (index - segmentStart) (drop segmentStart v) @ take (Suc (Suc k)) (drop index v)"
          using less.prems(2) by (simp only: take_add drop_drop) simp
        moreover have "take (Suc k) (drop (Suc index) v) = ?encoded @ '':''"
          using lt close by (simp add: take_Suc_conv_app_nth)
        ultimately show ?thesis using candidate by (simp add: d)
      qed
      show ?thesis
      proof (cases "canonicalBinary ?encoded")
        case None
        then have "finishBinary v (normalizeBinary_loop v index result segmentStart quoted escaped changed) =
            finishBinary v (normalizeBinary_loop v (Suc ?closing) result segmentStart quoted escaped changed)"
          using True candidate k by (subst normalizeBinary_loop.simps) (simp add: Let_def bareBoundary_prevByte)
        then show ?thesis
          using IH [of "Suc ?closing" segmentStart escaped quoted result changed] lt less.prems candidate
            None k whole close rest by (simp add: d)
      next
        case (Some canonical)
        then have "finishBinary v (normalizeBinary_loop v index result segmentStart quoted escaped changed) =
            finishBinary v (normalizeBinary_loop v (Suc ?closing)
              (result @ take (Suc index - segmentStart) (drop segmentStart v) @ canonical @ '':'')
              (Suc ?closing) quoted escaped True)"
          using True candidate k by (subst normalizeBinary_loop.simps) (simp add: Let_def bareBoundary_prevByte)
        then show ?thesis
          using IH [of "Suc ?closing" "Suc ?closing" escaped quoted
              "result @ take (Suc index - segmentStart) (drop segmentStart v) @ canonical @ '':''" True]
            lt less.prems candidate Some k prefix close rest by (simp add: d)
      qed
    qed
  qed
qed


definition unchangedResult :: "string \<times> nat \<times> bool \<Rightarrow> string \<Rightarrow> nat \<Rightarrow> bool \<Rightarrow> bool" where
  "unchangedResult r result segmentStart changed \<longleftrightarrow>
     snd (snd r) \<or> r = (result, segmentStart, False) \<and> \<not> changed"

lemma unchangedResult_weaken: "unchangedResult r x n True \<Longrightarrow> unchangedResult r y m ch"
  by (simp add: unchangedResult_def)

lemma normalizeBinary_loop_unchanged:
  "unchangedResult (normalizeBinary_loop v index result segmentStart quoted escaped changed)
     result segmentStart changed"
proof (induction "length v - index" arbitrary: index result segmentStart quoted escaped changed
    rule: less_induct)
  case less
  have IH: "unchangedResult (normalizeBinary_loop v i r s q e ch) r s ch"
    if "index < i" "index < length v" for i r s q e ch
    using that by (intro less.hyps) auto
  have IH': "unchangedResult (normalizeBinary_loop v i r s q e True) y m ch"
    if "index < i" "index < length v" for i r s q e y m ch
    by (rule unchangedResult_weaken, rule IH) (use that in auto)
  show ?case
    by (subst normalizeBinary_loop.simps)
      (auto simp: Let_def unchangedResult_def [of "(result, segmentStart, changed)"]
        intro!: IH IH' split: option.split)
qed

lemma normalizeRFC8941BinaryValue_scan:
  "normalizeRFC8941BinaryValue v = scanBinary None False False v"
proof -
  let ?r = "normalizeBinary_loop v 0 [] 0 False False False"
  have "finishBinary v ?r = scanBinary None False False v"
    using normalizeBinary_loop_scan [of 0 v 0 False False "[]" False] by (simp add: prevByte_def)
  moreover have "snd (snd ?r) \<or> ?r = ([], 0, False)"
    using normalizeBinary_loop_unchanged [of v 0 "[]" 0 False False False]
    by (simp add: unchangedResult_def)
  ultimately show ?thesis
    by (cases ?r) (auto simp: normalizeRFC8941BinaryValue_def finishBinary_def)
qed

lemma canonicalBinary_Some:
  assumes "canonicalBinary e = Some c"
  shows "canonicalBinary c = None" "CHR '':'' \<notin> set c" "length e \<le> length c"
    "rawDecodeString (trimRight ''='' c) = rawDecodeString (trimRight ''='' e)"
proof -
  from assms obtain d where d: "rawDecodeString (trimRight ''='' e) = Some d" "c = encodeToString d"
    "length e \<le> length c"
    by (auto simp: canonicalBinary_def Let_def split: if_splits option.splits)
  then show "canonicalBinary c = None" "rawDecodeString (trimRight ''='' c) = rawDecodeString (trimRight ''='' e)"
    by (simp_all add: canonicalBinary_def rawDecode_encode Let_def)
  show "CHR '':'' \<notin> set c" using d(2) colon_not_in_encodeToString by simp
  show "length e \<le> length c" by (rule d(3))
qed

lemma scanBinary_no_colon: "CHR '':'' \<notin> set s \<Longrightarrow> scanBinary prev quoted escaped s = s"
  by (induction s arbitrary: prev quoted escaped) auto

lemma scanBinary_idem:
  "scanBinary prev quoted escaped (scanBinary prev quoted escaped s) = scanBinary prev quoted escaped s"
proof (induction prev quoted escaped s rule: scanBinary.induct)
  case (1 prev quoted escaped)
  then show ?case by simp
next
  case (2 prev quoted escaped c cs)
  show ?case
  proof (cases "\<not> quoted \<and> c = CHR '':'' \<and> bareBoundary prev")
    case candidate: True
    show ?thesis
    proof (cases "indexByte cs CHR '':''")
      case None
      then show ?thesis using candidate by (simp add: scanBinary_no_colon indexByte_None [symmetric])
    next
      case (Some k)
      define x where "x = (case canonicalBinary (take k cs) of None \<Rightarrow> take k cs | Some canonical \<Rightarrow> canonical)"
      have x: "CHR '':'' \<notin> set x" "canonicalBinary x = None"
        using indexByte_Some [OF Some] canonicalBinary_Some by (auto simp: x_def split: option.splits)
      have "scanBinary prev quoted escaped (c # cs) =
          c # x @ CHR '':'' # scanBinary (Some CHR '':'') False False (drop (Suc k) cs)"
        using candidate Some by (simp add: x_def)
      then show ?thesis
        using candidate x Some 2(4) by (simp add: indexByte_append)
    qed
  next
    case False
    then show ?thesis using 2 by auto
  qed
qed


section \<open>What the normalisers keep\<close>

lemma normalizeOWS_loop_rel:
  "\<exists>t. normalizeOWS_loop before s = before @ t \<and>
     list_all2 (\<lambda>a b. b = a \<or> a = CHR 0x09 \<and> b = CHR '' '') s t"
proof (induction before s rule: normalizeOWS_loop.induct)
  case (1 before)
  then show ?case by simp
next
  case (2 before c after)
  then obtain t where t:
    "normalizeOWS_loop before (c # after) =
       (before @ [if c = CHR 0x09 \<and> tabIsSeparator before after then CHR '' '' else c]) @ t"
    "list_all2 (\<lambda>a b. b = a \<or> a = CHR 0x09 \<and> b = CHR '' '') after t" by auto
  then show ?case
    by (intro exI [of _ "(if c = CHR 0x09 \<and> tabIsSeparator before after then CHR '' '' else c) # t"]) auto
qed

lemma normalizeOWS_only_tabs:
  "list_all2 (\<lambda>a b. b = a \<or> a = CHR 0x09 \<and> b = CHR '' '') s (normalizeOWS_loop [] s)"
  using normalizeOWS_loop_rel [of "[]" s] by auto

lemma length_normalizeOWS [simp]: "length (normalizeOWS_loop [] s) = length s"
  using normalizeOWS_only_tabs [of s] by (simp add: list_all2_lengthD)

lemma normalizeOWS_no_tab: "CHR 0x09 \<notin> set s \<Longrightarrow> normalizeOWS_loop before s = before @ s"
  by (induction before s rule: normalizeOWS_loop.induct) auto

lemma normalizeOWS_idem_no_tab:
  "CHR 0x09 \<notin> set s \<Longrightarrow> normalizeStructuredFieldOWS [s] = [s]"
  by (simp add: normalizeStructuredFieldOWS_def normalizeOWS_no_tab)

lemma restoreDecimals_no_dot:
  "CHR ''.'' \<notin> set (drop index s) \<Longrightarrow> index \<le> length s \<Longrightarrow>
   restoreDecimals_loop s index result quoted escaped = result @ drop index s"
proof (induction "length s - index" arbitrary: index result quoted escaped rule: less_induct)
  case less
  show ?case
  proof (cases "index < length s")
    case True
    have d: "drop index s = s ! index # drop (Suc index) s" using True by (simp add: Cons_nth_drop_Suc)
    have IH: "restoreDecimals_loop s (Suc index) r q e = r @ drop (Suc index) s" for r q e
      using less True d by (intro less.hyps) auto
    show ?thesis
      using True less.prems by (subst restoreDecimals_loop.simps) (auto simp: Let_def IH d)
  qed (use less.prems in \<open>subst restoreDecimals_loop.simps, auto\<close>)
qed

lemma restore_no_dot: "CHR ''.'' \<notin> set s \<Longrightarrow> restoreRFC8941IntegralDecimals s = s"
  by (simp add: restoreRFC8941IntegralDecimals_def restoreDecimals_no_dot)

lemma fromStructuredValue_toStructuredValue:
  "isRFC8941BareItem (toStructuredValue v) \<Longrightarrow> (\<And>t. v \<noteq> VToken t) \<Longrightarrow>
   fromStructuredValue (toStructuredValue v) = Some v"
  by (cases v) (auto simp: toStructuredValue_def)

lemma fromStructuredValue_guard: "(\<exists>w. fromStructuredValue v = Some w) \<longleftrightarrow> isRFC8941BareItem v"
  by (cases v) auto

lemma unmarshalStructuredField_no_panic:
  "(\<And>xs e. parse xs = Fails e \<Longrightarrow> \<not> isPanic (Inl e)) \<Longrightarrow> \<not> isPanic (unmarshalStructuredField xs parse)"
  by (auto simp: unmarshalStructuredField_def Let_def errStructuredFieldParse_def isPanic_def
      split: parsed.splits goerr.splits)

section \<open>Properties\<close>

text \<open>C21. The index-driven base64 canonicaliser agrees with a one-pass scanner over the text: it
  rewrites exactly the byte sequences that start at a bare-item boundary outside quoted strings, and
  never touches a quoted string, a token, or a candidate it cannot improve; applying it to its own
  output changes nothing.\<close>

theorem normalizeRFC8941BinaryValue_correct:
  "normalizeRFC8941BinaryValue v = scanBinary None False False v \<and>
   normalizeRFC8941BinaryValue (normalizeRFC8941BinaryValue v) = normalizeRFC8941BinaryValue v"
  by (simp add: normalizeRFC8941BinaryValue_scan scanBinary_idem)

end
