(* ===== verification/SfvModel.thy ===== *)
theory SfvModel
  imports Sfv "HOL-Library.AList"
begin

text \<open>
  The laws the code relies on of the Structured Fields library, as named predicates on the record of
  its functions, and a concrete library that satisfies them: association lists with an RFC 8941
  serialiser (\<open>alistSfv\<close>, with the parser left as an argument). Theorems about the program take the
  laws as hypotheses; the concrete library is used only to exhibit inputs that satisfy them.
\<close>

section \<open>Laws\<close>

text \<open>\<^verbatim>\<open>Params\<close> is an ordered map: \<^verbatim>\<open>Add\<close> appends a new key or replaces the value of a present one.\<close>

definition paramsLaws :: "('p, 'd) httpsfv \<Rightarrow> bool" where
  "paramsLaws h \<longleftrightarrow>
     ParamsNames h (NewParams h) = [] \<and>
     (\<forall>p k v. ParamsNames h (ParamsAdd h p k v) =
        (if k \<in> set (ParamsNames h p) then ParamsNames h p else ParamsNames h p @ [k])) \<and>
     (\<forall>p k v k'. ParamsGet h (ParamsAdd h p k v) k' = (if k' = k then Some v else ParamsGet h p k'))"

text \<open>\<^verbatim>\<open>Names\<close> lists each key once.\<close>

definition uniqueNames :: "('p, 'd) httpsfv \<Rightarrow> bool" where
  "uniqueNames h \<longleftrightarrow> (\<forall>d. distinct (DictNames h d)) \<and> (\<forall>p. distinct (ParamsNames h p))"

text \<open>A parsed item or inner list always has a parameter object; parse errors are ordinary errors.\<close>

definition parsedMember :: "'p sfmember option \<Rightarrow> bool" where
  "parsedMember m =
     (case m of
        None \<Rightarrow> True
      | Some (MItem i) \<Rightarrow> ItemParams i \<noteq> None
      | Some (MInnerList l) \<Rightarrow> InnerParams l \<noteq> None \<and> list_all (\<lambda>i. ItemParams i \<noteq> None) (Items l))"

definition parsedHasParams :: "('p, 'd) httpsfv \<Rightarrow> bool" where
  "parsedHasParams h \<longleftrightarrow>
     (\<forall>xs d name. UnmarshalDictionary h xs = Parses d \<longrightarrow> parsedMember (DictGet h d name))"

text \<open>A fold of \<^verbatim>\<open>Add\<close> over parameters with distinct names is read back by \<^verbatim>\<open>Names\<close> and \<^verbatim>\<open>Get\<close>.\<close>

lemma addParameters_names:
  assumes "paramsLaws h"
  shows "distinct (ParamsNames h p @ map ParName ps) \<Longrightarrow>
    ParamsNames h (addParameters h p ps) = ParamsNames h p @ map ParName ps"
proof (induction ps arbitrary: p)
  case Nil
  then show ?case by (simp add: addParameters_def)
next
  case (Cons q ps)
  let ?p = "ParamsAdd h p (ParName q) (toStructuredValue (ParValue q))"
  have names: "ParamsNames h ?p = ParamsNames h p @ [ParName q]"
    using assms Cons.prems by (simp add: paramsLaws_def)
  have "addParameters h p (q # ps) = addParameters h ?p ps" by (simp add: addParameters_def)
  then show ?case using Cons.IH [of ?p] Cons.prems names by simp
qed

lemma addParameters_get_other:
  assumes "paramsLaws h"
  shows "k \<notin> set (map ParName ps) \<Longrightarrow> ParamsGet h (addParameters h p ps) k = ParamsGet h p k"
proof (induction ps arbitrary: p)
  case (Cons q ps)
  have "addParameters h p (q # ps) =
      addParameters h (ParamsAdd h p (ParName q) (toStructuredValue (ParValue q))) ps"
    by (simp add: addParameters_def)
  then show ?case using Cons assms by (simp add: paramsLaws_def)
qed (simp add: addParameters_def)

lemma addParameters_get:
  assumes "paramsLaws h"
  shows "distinct (map ParName ps) \<Longrightarrow> q \<in> set ps \<Longrightarrow>
    ParamsGet h (addParameters h p ps) (ParName q) = Some (toStructuredValue (ParValue q))"
proof (induction ps arbitrary: p)
  case (Cons r ps)
  let ?p = "ParamsAdd h p (ParName r) (toStructuredValue (ParValue r))"
  have eq: "addParameters h p (r # ps) = addParameters h ?p ps" by (simp add: addParameters_def)
  show ?case
  proof (cases "q = r")
    case True
    with Cons.prems(1) have "ParName q \<notin> set (map ParName ps)" by simp
    then show ?thesis using True assms addParameters_get_other [OF assms]
      by (simp add: eq paramsLaws_def)
  next
    case False
    then show ?thesis using Cons eq by simp
  qed
qed simp

lemma copyParameters_loop_read:
  assumes "\<And>q. q \<in> set ps \<Longrightarrow>
    ParamsGet h p (ParName q) = Some (toStructuredValue (ParValue q)) \<and>
    fromStructuredValue (toStructuredValue (ParValue q)) = Some (ParValue q)"
  shows "copyParameters_loop h p (map ParName ps) result = Inr (result @ ps)"
  using assms by (induction ps arbitrary: result) (auto simp: anyOf_def)

text \<open>
  Adding parameters to a fresh object and copying them back is the identity, for distinct names and
  values the package's parameter type allows.
\<close>

lemma copyParameters_addParameters:
  assumes "paramsLaws h" "distinct (map ParName ps)"
    "\<And>q. q \<in> set ps \<Longrightarrow> fromStructuredValue (toStructuredValue (ParValue q)) = Some (ParValue q)"
  shows "copyParameters h (Some (addParameters h (NewParams h) ps)) = Inr ps"
proof -
  have "ParamsNames h (NewParams h) = []" using assms(1) by (simp add: paramsLaws_def)
  then have "ParamsNames h (addParameters h (NewParams h) ps) = map ParName ps"
    using addParameters_names [OF assms(1), of "NewParams h" ps] assms(2) by simp
  then show ?thesis
    using copyParameters_loop_read [of ps h "addParameters h (NewParams h) ps" "[]"]
      addParameters_get [OF assms(1,2)] assms(3) by (simp add: copyParameters_def)
qed

section \<open>A concrete library\<close>

type_synonym alistParams = "(string \<times> goval) list"
type_synonym alistDict = "(string \<times> alistParams sfmember) list"

definition escapeString :: "string \<Rightarrow> string" where
  "escapeString s = concat (map (\<lambda>c. if c = CHR 0x22 \<or> c = CHR 0x5C then [CHR 0x5C, c] else [c]) s)"

fun serBare :: "goval \<Rightarrow> string res" where
  "serBare (VBool b) = Inr (if b then ''?1'' else ''?0'')"
| "serBare (VString s) =
     (if list_all (\<lambda>c. 0x20 \<le> byte c \<and> byte c \<le> 0x7e) s
      then Inr ([CHR 0x22] @ escapeString s @ [CHR 0x22]) else Inl (NewErr ''invalid string''))"
| "serBare (VInt64 n) =
     (if \<bar>n\<bar> \<le> 999999999999999 then Inr (formatInt n) else Inl (NewErr ''invalid integer''))"
| "serBare (VBytes b) = Inr ('':'' @ encodeToString b @ '':'')"
| "serBare (VToken t) = (if t = [] then Inl (NewErr ''invalid token'') else Inr t)"
| "serBare v = Inl (NewErr ''invalid bare item'')"

fun serParams :: "alistParams \<Rightarrow> string res" where
  "serParams [] = Inr []"
| "serParams ((k, v) # ps) =
     (case serBare v of Inl e \<Rightarrow> Inl e
      | Inr s \<Rightarrow>
         (case serParams ps of Inl e \<Rightarrow> Inl e
          | Inr t \<Rightarrow> Inr ('';'' @ k @ (if v = VBool True then [] else ''='' @ s) @ t)))"

definition paramList :: "alistParams option \<Rightarrow> alistParams" where
  "paramList p = (case p of None \<Rightarrow> [] | Some q \<Rightarrow> q)"

definition appendRes :: "string res \<Rightarrow> string res \<Rightarrow> string res" where
  "appendRes a b = (case a of Inl e \<Rightarrow> Inl e | Inr s \<Rightarrow> (case b of Inl e \<Rightarrow> Inl e | Inr t \<Rightarrow> Inr (s @ t)))"

definition serItem :: "alistParams sfitem \<Rightarrow> string res" where
  "serItem i = appendRes (serBare (ItemValue i)) (serParams (paramList (ItemParams i)))"

fun serSeq :: "string \<Rightarrow> ('a \<Rightarrow> string res) \<Rightarrow> 'a list \<Rightarrow> string res" where
  "serSeq sep f [] = Inr []"
| "serSeq sep f [x] = f x"
| "serSeq sep f (x # y # ys) = appendRes (f x) (appendRes (Inr sep) (serSeq sep f (y # ys)))"

definition serInner :: "alistParams sfinner \<Rightarrow> string res" where
  "serInner l =
     appendRes (Inr ''('') (appendRes (serSeq '' '' serItem (Items l))
       (appendRes (Inr '')'') (serParams (paramList (InnerParams l)))))"

fun serMember :: "alistParams sfmember \<Rightarrow> string res" where
  "serMember (MItem i) = serItem i"
| "serMember (MInnerList l) = serInner l"

fun serDictMember :: "string \<times> alistParams sfmember \<Rightarrow> string res" where
  "serDictMember (k, MItem i) =
     (if ItemValue i = VBool True then appendRes (Inr k) (serParams (paramList (ItemParams i)))
      else appendRes (Inr (k @ ''='')) (serItem i))"
| "serDictMember (k, MInnerList l) = appendRes (Inr (k @ ''='')) (serInner l)"

fun serValue :: "(alistParams, alistDict) sfvalue \<Rightarrow> string res" where
  "serValue (SFItem i) = serItem i"
| "serValue (SFInnerList l) = serInner l"
| "serValue (SFList ms) = serSeq '', '' serMember ms"
| "serValue (SFDictionary d) = serSeq '', '' serDictMember d"

definition marshalValue :: "(alistParams, alistDict) sfvalue \<Rightarrow> string res" where
  "marshalValue v =
     (case serValue v of
        Inl _ \<Rightarrow> Inl (NewErr ''cannot serialize'')
      | Inr s \<Rightarrow>
          if list_all (\<lambda>c. 0x20 \<le> byte c \<and> byte c \<le> 0x7e) s then Inr s
          else Inl (NewErr ''cannot serialize''))"

definition alistSfv ::
  "(string list \<Rightarrow> alistDict parsed) \<Rightarrow> (alistParams, alistDict) httpsfv" where
  "alistSfv parse =
     \<lparr>NewParams = [], ParamsAdd = (\<lambda>p k v. AList.update k v p),
      ParamsNames = (\<lambda>p. remdups (map fst p)), ParamsGet = map_of,
      NewDictionary = [], DictAdd = (\<lambda>d k m. AList.update k m d),
      DictNames = (\<lambda>d. remdups (map fst d)), DictGet = map_of,
      Marshal = marshalValue,
      UnmarshalDictionary = parse,
      UnmarshalList = (\<lambda>_. Fails (NewErr ''unsupported'')),
      UnmarshalItem = (\<lambda>_. Fails (NewErr ''unsupported''))\<rparr>"

lemma remdups_snoc: "k \<notin> set xs \<Longrightarrow> remdups (xs @ [k]) = remdups xs @ [k]"
  by (induction xs) auto

lemma remdups_update_keys:
  "remdups (map fst (AList.update k v p)) =
   (if k \<in> set (remdups (map fst p)) then remdups (map fst p) else remdups (map fst p) @ [k])"
  by (simp add: update_keys remdups_snoc)

lemma alistSfv_laws: "paramsLaws (alistSfv parse)" "uniqueNames (alistSfv parse)"
  unfolding paramsLaws_def uniqueNames_def alistSfv_def
  by (simp_all add: remdups_update_keys update_conv del: set_remdups)

end
