(* ===== verification/SignatureFields.thy ===== *)
theory SignatureFields
  imports SfvModel
begin

text \<open>
  \<^verbatim>\<open>signature_fields.go\<close>: the bounded parsers and the serialisers of \<^verbatim>\<open>Signature-Input\<close>,
  \<^verbatim>\<open>Accept-Signature\<close> and \<^verbatim>\<open>Signature\<close>, the semantic validators of names and parameters, the
  duplicate-key scanner that runs before the Structured Fields parser, and the order-insensitive
  component comparison key; with the identifier serialisers of \<^verbatim>\<open>message.go\<close> they rest on.
\<close>

section \<open>Validators\<close>

fun isInt64 :: "goval \<Rightarrow> bool" where
  "isInt64 (VInt64 n) = True"
| "isInt64 v = False"

fun isString :: "goval \<Rightarrow> bool" where
  "isString (VString s) = True"
| "isString v = False"

definition validSignatureParameters :: "Parameter list \<Rightarrow> bool" where
  "validSignatureParameters parameters =
     list_all (\<lambda>p.
       if ParName p \<in> {''created'', ''expires''} then isInt64 (ParValue p)
       else if ParName p \<in> {''nonce'', ''alg'', ''keyid'', ''tag''} then isString (ParValue p)
       else True) parameters"

definition validAcceptSignatureParameters :: "Parameter list \<Rightarrow> bool" where
  "validAcceptSignatureParameters parameters =
     list_all (\<lambda>p.
       if ParName p \<in> {''created'', ''expires''} then ParValue p = VBool True
       else if ParName p \<in> {''nonce'', ''alg'', ''keyid'', ''tag''} then isString (ParValue p)
       else True) parameters"

definition validComponentParameters :: "Parameter list \<Rightarrow> bool" where
  "validComponentParameters parameters =
     list_all (\<lambda>p.
       if ParName p \<in> {''sf'', ''bs'', ''tr'', ''req''} then ParValue p = VBool True
       else if ParName p \<in> {''key'', ''name''} then isString (ParValue p)
       else True) parameters"

definition isLowerFieldNameCharacter :: "char \<Rightarrow> bool" where
  "isLowerFieldNameCharacter c \<longleftrightarrow>
     isLower c \<or> isDigit c \<or>
     c \<in> set [CHR ''!'', CHR ''#'', CHR ''$'', CHR ''%'', CHR ''&'', CHR 0x27, CHR ''*'', CHR ''+'',
              CHR ''-'', CHR ''.'', CHR ''^'', CHR ''_'', CHR 0x60, CHR ''|'', CHR ''~'']"

definition validComponentName :: "string \<Rightarrow> bool" where
  "validComponentName name =
     (case name of
        [] \<Rightarrow> False
      | c # rest \<Rightarrow>
          if c = CHR ''@'' then
            rest \<noteq> [] \<and> list_all (\<lambda>d. isLower d \<or> isDigit d \<or> d = CHR ''-'') rest
          else list_all isLowerFieldNameCharacter name)"

definition validSFStringValue :: "string \<Rightarrow> bool" where
  "validSFStringValue value = list_all (\<lambda>c. 0x20 \<le> byte c \<and> byte c \<le> 0x7e) value"

fun serializableValue :: "goval \<Rightarrow> bool" where
  "serializableValue (VBool b) = True"
| "serializableValue (VString s) = True"
| "serializableValue (VInt64 n) = True"
| "serializableValue (VFloat64 f) = True"
| "serializableValue (VBytes b) = True"
| "serializableValue (VSFToken t) = True"
| "serializableValue v = False"

definition validKey :: "string \<Rightarrow> bool" where
  "validKey s = (case s of [] \<Rightarrow> False | c # cs \<Rightarrow> isKeyStart c \<and> list_all isKeyCharacter cs)"

definition validParametersForSerialization :: "Parameter list \<Rightarrow> bool" where
  "validParametersForSerialization parameters =
     list_all (\<lambda>p. validKey (ParName p) \<and> serializableValue (ParValue p)) parameters"

section \<open>Identifiers\<close>

definition componentItem :: "('p, 'd) httpsfv \<Rightarrow> ComponentIdentifier \<Rightarrow> 'p sfitem" where
  "componentItem h component =
     \<lparr>ItemValue = VString (CompName component),
      ItemParams = Some (addParameters h (NewParams h) (CompParameters component))\<rparr>"

definition serializeComponentIdentifier :: "('p, 'd) httpsfv \<Rightarrow> ComponentIdentifier \<Rightarrow> string res" where
  "serializeComponentIdentifier h component =
     (if \<not> validComponentName (CompName component) then Inl (NewErr ''invalid component identifier'')
      else if \<not> validParametersForSerialization (CompParameters component)
      then Inl (NewErr ''invalid component identifier'')
      else marshalRFC8941 h (SFItem (componentItem h component)))"

definition componentComparisonKey :: "('p, 'd) httpsfv \<Rightarrow> ComponentIdentifier \<Rightarrow> string res" where
  "componentComparisonKey h component =
     serializeComponentIdentifier h
       \<lparr>CompName = CompName component,
        CompParameters = sort_key ParName (cloneParameters (CompParameters component))\<rparr>"

fun serializeComponents_loop ::
  "('p, 'd) httpsfv \<Rightarrow> ComponentIdentifier list \<Rightarrow> 'p sfitem list \<Rightarrow> 'p sfitem list res" where
  "serializeComponents_loop h [] items = Inr items"
| "serializeComponents_loop h (component # components) items =
     (if \<not> validComponentName (CompName component) then Inl (NewErr ''invalid component identifier'')
      else if \<not> validParametersForSerialization (CompParameters component)
      then Inl (NewErr ''invalid component identifier'')
      else serializeComponents_loop h components (items @ [componentItem h component]))"

definition serializeSignatureParameters :: "('p, 'd) httpsfv \<Rightarrow> SignatureInput \<Rightarrow> string res" where
  "serializeSignatureParameters h input =
     (if \<not> validParametersForSerialization (InParameters input)
      then Inl (NewErr ''invalid signature parameters'')
      else case serializeComponents_loop h (InComponents input) [] of
             Inl err \<Rightarrow> Inl err
           | Inr items \<Rightarrow>
               marshalRFC8941 h (SFInnerList
                 \<lparr>Items = items, InnerParams = Some (addParameters h (NewParams h) (InParameters input))\<rparr>))"

section \<open>Copies\<close>

definition cloneSignatureInput :: "SignatureInput \<Rightarrow> SignatureInput" where
  "cloneSignatureInput input =
     \<lparr>InLabel = InLabel input,
      InComponents = map (\<lambda>c. \<lparr>CompName = CompName c, CompParameters = cloneParameters (CompParameters c)\<rparr>)
        (InComponents input),
      InParameters = cloneParameters (InParameters input)\<rparr>"

text \<open>The exported \<^verbatim>\<open>Parameter\<close> accessors of a component and of an input.\<close>

definition ComponentIdentifier_Parameter :: "ComponentIdentifier \<Rightarrow> string \<Rightarrow> goval option" where
  "ComponentIdentifier_Parameter component name = parameter (CompParameters component) name"

definition SignatureInput_Parameter :: "SignatureInput \<Rightarrow> string \<Rightarrow> goval option" where
  "SignatureInput_Parameter input name = parameter (InParameters input) name"

definition SignatureInputs_Entries :: "SignatureInput list \<Rightarrow> SignatureInput list" where
  "SignatureInputs_Entries entries = map cloneSignatureInput entries"

definition Signatures_Entries :: "SignatureValue list \<Rightarrow> SignatureValue list" where
  "Signatures_Entries entries =
     map (\<lambda>e. \<lparr>SigLabel = SigLabel e, SigValue = [] @ SigValue e,
               SigParameters = cloneParameters (SigParameters e)\<rparr>) entries"

section \<open>Serialisers\<close>

definition SignatureInputs_String :: "('p, 'd) httpsfv \<Rightarrow> SignatureInput list \<Rightarrow> string res" where
  "SignatureInputs_String h entries =
     (let dictionary = foldl (\<lambda>d entry.
            DictAdd h d (InLabel entry)
              (MInnerList \<lparr>Items = map (componentItem h) (InComponents entry),
                 InnerParams = Some (addParameters h (NewParams h) (InParameters entry))\<rparr>))
            (NewDictionary h) entries
      in case marshalRFC8941 h (SFDictionary dictionary) of
           Inl err \<Rightarrow> Inl (GoPanic ''serialize validated Signature-Input'')
         | Inr value \<Rightarrow> Inr value)"

definition Signatures_String :: "('p, 'd) httpsfv \<Rightarrow> SignatureValue list \<Rightarrow> string res" where
  "Signatures_String h entries =
     (let dictionary = foldl (\<lambda>d entry.
            DictAdd h d (SigLabel entry)
              (MItem \<lparr>ItemValue = VBytes ([] @ SigValue entry),
                 ItemParams = Some (addParameters h (NewParams h) (SigParameters entry))\<rparr>))
            (NewDictionary h) entries
      in case marshalRFC8941 h (SFDictionary dictionary) of
           Inl err \<Rightarrow> Inl (GoPanic ''serialize validated Signature'')
         | Inr value \<Rightarrow> Inr value)"

section \<open>The duplicate-key scanner\<close>

text \<open>\<open>current\<close> is \<^verbatim>\<open>value[start:index]\<close>.\<close>

fun splitMembers_loop ::
  "string list \<Rightarrow> string \<Rightarrow> int \<Rightarrow> bool \<Rightarrow> bool \<Rightarrow> string \<Rightarrow> string list res" where
  "splitMembers_loop members current parentheses quoted escaped [] =
     (if quoted \<or> escaped \<or> parentheses \<noteq> 0 then Inl (NewErr ''unterminated dictionary member'')
      else Inr (members @ [trimSpace current]))"
| "splitMembers_loop members current parentheses quoted escaped (c # cs) =
     (if escaped then splitMembers_loop members (current @ [c]) parentheses quoted False cs
      else if quoted \<and> c = CHR 0x5C then
        splitMembers_loop members (current @ [c]) parentheses quoted True cs
      else if c = CHR 0x22 then
        splitMembers_loop members (current @ [c]) parentheses (\<not> quoted) escaped cs
      else if quoted then splitMembers_loop members (current @ [c]) parentheses quoted escaped cs
      else if c = CHR ''('' then
        splitMembers_loop members (current @ [c]) (parentheses + 1) quoted escaped cs
      else if c = CHR '')'' then
        (if parentheses - 1 < 0 then Inl (NewErr ''unbalanced inner list'')
         else splitMembers_loop members (current @ [c]) (parentheses - 1) quoted escaped cs)
      else if c = CHR '','' \<and> parentheses = 0 then
        splitMembers_loop (members @ [trimSpace current]) [] parentheses quoted escaped cs
      else splitMembers_loop members (current @ [c]) parentheses quoted escaped cs)"

definition splitDictionaryMembers :: "string \<Rightarrow> string list res" where
  "splitDictionaryMembers value = splitMembers_loop [] [] 0 False False value"

definition dictionaryMemberKey :: "string \<Rightarrow> string" where
  "dictionaryMemberKey member =
     (case trimLeft ows member of
        [] \<Rightarrow> []
      | c # rest \<Rightarrow> if \<not> isKeyStart c then [] else c # takeWhile isKeyCharacter rest)"

fun rejectDuplicates_loop :: "string set \<Rightarrow> string list \<Rightarrow> unit res" where
  "rejectDuplicates_loop seen [] = Inr ()"
| "rejectDuplicates_loop seen (member # members) =
     (let label = dictionaryMemberKey member in
      if label = [] then Inl (NewErr ''invalid dictionary member'')
      else if label \<in> seen then Inl (NewErr ''duplicate dictionary key'')
      else rejectDuplicates_loop (insert label seen) members)"

definition rejectDuplicateDictionaryKeys :: "string list \<Rightarrow> unit res" where
  "rejectDuplicateDictionaryKeys values =
     (case splitDictionaryMembers (join '','' values) of
        Inl err \<Rightarrow> Inl err
      | Inr members \<Rightarrow> rejectDuplicates_loop {} members)"

section \<open>Parsers\<close>

definition invalidField :: "sentinel \<Rightarrow> string \<Rightarrow> goerr" where
  "invalidField invalidError text = Errorf text [Sentinel invalidError] []"

definition limitField :: "sentinel \<Rightarrow> goerr" where
  "limitField invalidError = Errorf ''%w: %w'' [Sentinel invalidError, Sentinel ErrSyntaxLimit] []"

text \<open>
  The common opening of the four field parsers: raw limits, duplicate keys, the library's parser, the
  empty-dictionary and member-count checks. \<open>malformed\<close> is the error of the third check, which the
  digest parser words differently.
\<close>

definition openDictionary ::
  "('p, 'd) httpsfv \<Rightarrow> string list \<Rightarrow> SyntaxLimits \<Rightarrow> sentinel \<Rightarrow> goerr \<Rightarrow> 'd res" where
  "openDictionary h values limits invalidError malformed =
     (case enforceRawSyntaxLimits values limits of
        Inl err \<Rightarrow>
          if errorsIs err ErrInvalidSyntaxLimits then Inl err else Inl (limitField invalidError)
      | Inr _ \<Rightarrow>
        (case rejectDuplicateDictionaryKeys values of
           Inl err \<Rightarrow> Inl (Errorf ''%w: %v'' [Sentinel invalidError] [err])
         | Inr _ \<Rightarrow>
           (case unmarshalStructuredDictionary h (normalizeStructuredFieldOWS values) of
              Inl err \<Rightarrow> Inl malformed
            | Inr dictionary \<Rightarrow>
                if DictNames h dictionary = [] then Inl malformed
                else if go_len (DictNames h dictionary) > MaxDictionaryMembers limits
                then Inl (limitField invalidError)
                else Inr dictionary)))"

fun parseComponents_loop ::
  "('p, 'd) httpsfv \<Rightarrow> SyntaxLimits \<Rightarrow> sentinel \<Rightarrow> string set \<Rightarrow> ComponentIdentifier list \<Rightarrow>
   'p sfitem list \<Rightarrow> ComponentIdentifier list res" where
  "parseComponents_loop h limits invalidError seen components [] = Inr components"
| "parseComponents_loop h limits invalidError seen components (item # items) =
     (case ItemValue item of
        VString name \<Rightarrow>
          if \<not> validComponentName name then Inl (invalidField invalidError ''%w: invalid component'')
          else if (case ItemParams item of None \<Rightarrow> False
                   | Some p \<Rightarrow> go_len (ParamsNames h p) > MaxParametersPerItem limits)
          then Inl (limitField invalidError)
          else
            (case copyParameters h (ItemParams item) of
               Inl paramErr \<Rightarrow> Inl (invalidField invalidError ''%w: invalid component parameters'')
             | Inr parameters \<Rightarrow>
                 if \<not> validComponentParameters parameters
                 then Inl (invalidField invalidError ''%w: invalid component parameters'')
                 else
                   let component = \<lparr>CompName = name, CompParameters = parameters\<rparr>;
                       comparisonKey = (case componentComparisonKey h component of Inl _ \<Rightarrow> [] | Inr k \<Rightarrow> k)
                   in if comparisonKey \<in> seen
                      then Inl (invalidField invalidError ''%w: duplicate component'')
                      else parseComponents_loop h limits invalidError (insert comparisonKey seen)
                             (components @ [component]) items)
      | _ \<Rightarrow> Inl (invalidField invalidError ''%w: invalid component''))"

definition parseMetadataMember ::
  "('p, 'd) httpsfv \<Rightarrow> SyntaxLimits \<Rightarrow> sentinel \<Rightarrow> (Parameter list \<Rightarrow> bool) \<Rightarrow> string \<Rightarrow>
   'p sfmember option \<Rightarrow> SignatureInput res" where
  "parseMetadataMember h limits invalidError validateParameters label member =
     (case member of
        Some (MInnerList innerList) \<Rightarrow>
          if go_len (Items innerList) > MaxComponentsPerSignature limits then Inl (limitField invalidError)
          else
            (case InnerParams innerList of
               None \<Rightarrow> Inl (GoPanic ''nil pointer dereference'')
             | Some p \<Rightarrow>
                 if go_len (ParamsNames h p) > MaxParametersPerItem limits then Inl (limitField invalidError)
                 else
                   (case parseComponents_loop h limits invalidError {} [] (Items innerList) of
                      Inl err \<Rightarrow> Inl err
                    | Inr components \<Rightarrow>
                        (case copyParameters h (InnerParams innerList) of
                           Inl paramErr \<Rightarrow> Inl (invalidField invalidError ''%w: invalid signature parameters'')
                         | Inr parameters \<Rightarrow>
                             if \<not> validateParameters parameters
                             then Inl (invalidField invalidError ''%w: invalid signature parameters'')
                             else Inr \<lparr>InLabel = label, InComponents = components, InParameters = parameters\<rparr>)))
      | _ \<Rightarrow> Inl (invalidField invalidError ''%w: label %s is not an inner list''))"

text \<open>The member loop shared by the parsers: every label in order, stopping at the first error.\<close>

fun parseMembers :: "(string \<Rightarrow> 'm \<Rightarrow> 'e res) \<Rightarrow> (string \<Rightarrow> 'm) \<Rightarrow> 'e list \<Rightarrow> string list \<Rightarrow> 'e list res" where
  "parseMembers f get entries [] = Inr entries"
| "parseMembers f get entries (label # labels) =
     (case f label (get label) of
        Inl err \<Rightarrow> Inl err
      | Inr entry \<Rightarrow> parseMembers f get (entries @ [entry]) labels)"

definition parseSignatureMetadata ::
  "('p, 'd) httpsfv \<Rightarrow> string list \<Rightarrow> SyntaxLimits \<Rightarrow> sentinel \<Rightarrow> (Parameter list \<Rightarrow> bool) \<Rightarrow>
   SignatureInput list res" where
  "parseSignatureMetadata h values limits invalidError validateParameters =
     (case openDictionary h values limits invalidError
             (invalidField invalidError ''%w: malformed structured field'') of
        Inl err \<Rightarrow> Inl err
      | Inr dictionary \<Rightarrow>
          parseMembers (parseMetadataMember h limits invalidError validateParameters)
            (DictGet h dictionary) [] (DictNames h dictionary))"

definition ParseSignatureInputsWithLimits ::
  "('p, 'd) httpsfv \<Rightarrow> string list \<Rightarrow> SyntaxLimits \<Rightarrow> SignatureInput list res" where
  "ParseSignatureInputsWithLimits h values limits =
     parseSignatureMetadata h values limits ErrInvalidSignatureInput validSignatureParameters"

definition ParseSignatureInputs :: "('p, 'd) httpsfv \<Rightarrow> string list \<Rightarrow> SignatureInput list res" where
  "ParseSignatureInputs h values = ParseSignatureInputsWithLimits h values DefaultSyntaxLimits"

definition ParseAcceptSignaturesWithLimits ::
  "('p, 'd) httpsfv \<Rightarrow> string list \<Rightarrow> SyntaxLimits \<Rightarrow> SignatureInput list res" where
  "ParseAcceptSignaturesWithLimits h values limits =
     parseSignatureMetadata h values limits ErrInvalidAcceptSignature validAcceptSignatureParameters"

definition ParseAcceptSignatures :: "('p, 'd) httpsfv \<Rightarrow> string list \<Rightarrow> SignatureInput list res" where
  "ParseAcceptSignatures h values = ParseAcceptSignaturesWithLimits h values DefaultSyntaxLimits"

definition AcceptSignatures_Entries :: "SignatureInput list \<Rightarrow> SignatureInput list" where
  "AcceptSignatures_Entries entries = map cloneSignatureInput entries"

definition AcceptSignatures_String :: "('p, 'd) httpsfv \<Rightarrow> SignatureInput list \<Rightarrow> string res" where
  "AcceptSignatures_String h requests = SignatureInputs_String h requests"

definition parseSignatureMember ::
  "('p, 'd) httpsfv \<Rightarrow> SyntaxLimits \<Rightarrow> string \<Rightarrow> 'p sfmember option \<Rightarrow> SignatureValue res" where
  "parseSignatureMember h limits label member =
     (case member of
        Some (MItem item) \<Rightarrow>
          (case ItemValue item of
             VBytes bs \<Rightarrow>
               (case copyParameters h (ItemParams item) of
                  Inl paramErr \<Rightarrow> Inl (invalidField ErrInvalidSignature ''%w: invalid parameters'')
                | Inr parameters \<Rightarrow>
                    if go_len bs > MaxBinaryBytes limits \<or> go_len parameters > MaxParametersPerItem limits
                    then Inl (limitField ErrInvalidSignature)
                    else Inr \<lparr>SigLabel = label, SigValue = [] @ bs, SigParameters = parameters\<rparr>)
           | _ \<Rightarrow> Inl (invalidField ErrInvalidSignature ''%w: label %s is not a byte sequence''))
      | _ \<Rightarrow> Inl (invalidField ErrInvalidSignature ''%w: label %s is not an item''))"

definition ParseSignaturesWithLimits ::
  "('p, 'd) httpsfv \<Rightarrow> string list \<Rightarrow> SyntaxLimits \<Rightarrow> SignatureValue list res" where
  "ParseSignaturesWithLimits h values limits =
     (case openDictionary h values limits ErrInvalidSignature
             (invalidField ErrInvalidSignature ''%w: malformed structured field'') of
        Inl err \<Rightarrow> Inl err
      | Inr dictionary \<Rightarrow>
          parseMembers (parseSignatureMember h limits) (DictGet h dictionary) [] (DictNames h dictionary))"

definition ParseSignatures :: "('p, 'd) httpsfv \<Rightarrow> string list \<Rightarrow> SignatureValue list res" where
  "ParseSignatures h values = ParseSignaturesWithLimits h values DefaultSyntaxLimits"

section \<open>Well-formed entries\<close>

definition sameIdentity :: "ComponentIdentifier \<Rightarrow> ComponentIdentifier \<Rightarrow> bool" where
  "sameIdentity c d \<longleftrightarrow> CompName c = CompName d \<and> mset (CompParameters c) = mset (CompParameters d)"

definition wfComponent :: "SyntaxLimits \<Rightarrow> ComponentIdentifier \<Rightarrow> bool" where
  "wfComponent limits c \<longleftrightarrow>
     validComponentName (CompName c) \<and> validComponentParameters (CompParameters c) \<and>
     go_len (CompParameters c) \<le> MaxParametersPerItem limits \<and>
     distinct (map ParName (CompParameters c))"

definition wfInput :: "SyntaxLimits \<Rightarrow> (Parameter list \<Rightarrow> bool) \<Rightarrow> SignatureInput \<Rightarrow> bool" where
  "wfInput limits validateParameters e \<longleftrightarrow>
     go_len (InComponents e) \<le> MaxComponentsPerSignature limits \<and>
     (\<forall>c \<in> set (InComponents e). wfComponent limits c) \<and>
     sorted_wrt (\<lambda>c d. \<not> sameIdentity c d) (InComponents e) \<and>
     validateParameters (InParameters e) \<and>
     go_len (InParameters e) \<le> MaxParametersPerItem limits \<and>
     distinct (map ParName (InParameters e))"

definition comparisonKeyOrEmpty :: "('p, 'd) httpsfv \<Rightarrow> ComponentIdentifier \<Rightarrow> string" where
  "comparisonKeyOrEmpty h c = (case componentComparisonKey h c of Inl _ \<Rightarrow> [] | Inr k \<Rightarrow> k)"

lemma sort_key_names_unique:
  assumes "mset ps = mset qs" "distinct (map ParName ps)"
  shows "sort_key ParName ps = sort_key ParName qs"
proof (rule sort_key_inj_key_eq)
  show "mset ps = mset (sort_key ParName qs)" using assms(1) by simp
  show "inj_on ParName (set ps)" using assms(2) by (simp add: distinct_map)
qed simp

lemma componentComparisonKey_identity:
  "sameIdentity c d \<Longrightarrow> distinct (map ParName (CompParameters c)) \<Longrightarrow>
   componentComparisonKey h c = componentComparisonKey h d"
  using sort_key_names_unique [of "CompParameters c" "CompParameters d"]
  by (simp add: componentComparisonKey_def sameIdentity_def)

lemma copyParameters_loop_names:
  "copyParameters_loop h p names result = Inr ps \<Longrightarrow> map ParName ps = map ParName result @ names"
  by (induction h p names result rule: copyParameters_loop.induct) (auto split: option.splits)

lemma copyParameters_names:
  "copyParameters h q = Inr ps \<Longrightarrow> \<exists>p. q = Some p \<and> map ParName ps = ParamsNames h p"
  using copyParameters_loop_names by (fastforce simp: copyParameters_def split: option.splits)

lemma copyParameters_length:
  "copyParameters h (Some p) = Inr ps \<Longrightarrow> length ps = length (ParamsNames h p)"
  using copyParameters_names [of h "Some p" ps] by (metis length_map option.inject)

lemma parseComponents_step:
  assumes "parseComponents_loop h limits e seen comps (item # items) = Inr out" "uniqueNames h"
  obtains c where "wfComponent limits c" "comparisonKeyOrEmpty h c \<notin> seen"
    "parseComponents_loop h limits e (insert (comparisonKeyOrEmpty h c) seen) (comps @ [c]) items = Inr out"
proof -
  from assms(1) obtain name where name: "ItemValue item = VString name" "validComponentName name"
    by (auto split: goval.splits if_splits)
  with assms(1) obtain parameters where ps: "copyParameters h (ItemParams item) = Inr parameters"
    by (auto split: if_splits sum.splits)
  then obtain p where p: "ItemParams item = Some p" "map ParName parameters = ParamsNames h p"
    using copyParameters_names by blast
  let ?c = "\<lparr>CompName = name, CompParameters = parameters\<rparr>"
  have "length parameters = length (ParamsNames h p)" using p(2) by (metis length_map)
  with assms name ps p have "wfComponent limits ?c"
    by (auto simp: wfComponent_def uniqueNames_def Let_def split: if_splits)
  moreover have "comparisonKeyOrEmpty h ?c \<notin> seen \<and>
      parseComponents_loop h limits e (insert (comparisonKeyOrEmpty h ?c) seen) (comps @ [?c]) items = Inr out"
    using assms(1) name ps p by (simp add: comparisonKeyOrEmpty_def Let_def split: if_splits)
  ultimately show ?thesis using that by blast
qed

lemma parseComponents_loop_sound:
  assumes "uniqueNames h"
  shows "parseComponents_loop h limits e seen comps items = Inr out \<Longrightarrow>
    (\<forall>c \<in> set comps. wfComponent limits c \<and> comparisonKeyOrEmpty h c \<in> seen) \<Longrightarrow>
    sorted_wrt (\<lambda>c d. comparisonKeyOrEmpty h c \<noteq> comparisonKeyOrEmpty h d) comps \<Longrightarrow>
    length out = length comps + length items \<and> (\<forall>c \<in> set out. wfComponent limits c) \<and>
    sorted_wrt (\<lambda>c d. comparisonKeyOrEmpty h c \<noteq> comparisonKeyOrEmpty h d) out"
proof (induction items arbitrary: seen comps)
  case Nil
  then show ?case by simp
next
  case (Cons item items)
  obtain c where c: "wfComponent limits c" "comparisonKeyOrEmpty h c \<notin> seen"
    "parseComponents_loop h limits e (insert (comparisonKeyOrEmpty h c) seen) (comps @ [c]) items = Inr out"
    using parseComponents_step [OF Cons.prems(1) assms] by blast
  have "length out = length (comps @ [c]) + length items \<and> (\<forall>c \<in> set out. wfComponent limits c) \<and>
      sorted_wrt (\<lambda>c d. comparisonKeyOrEmpty h c \<noteq> comparisonKeyOrEmpty h d) out"
    by (rule Cons.IH [OF c(3)]) (use Cons.prems(2,3) c(1,2) in \<open>auto simp: sorted_wrt_append\<close>)
  then show ?case by simp
qed

lemma comparisonKey_of_identity:
  "wfComponent limits c \<Longrightarrow> sameIdentity c d \<Longrightarrow> comparisonKeyOrEmpty h c = comparisonKeyOrEmpty h d"
  using componentComparisonKey_identity [of c d h] by (simp add: comparisonKeyOrEmpty_def wfComponent_def)

lemma parseComponents_identities:
  assumes "uniqueNames h" "parseComponents_loop h limits e {} [] items = Inr out"
  shows "length out = length items" "\<forall>c \<in> set out. wfComponent limits c"
    "sorted_wrt (\<lambda>c d. \<not> sameIdentity c d) out"
proof -
  note s = parseComponents_loop_sound [OF assms, simplified]
  then show "length out = length items" "\<forall>c \<in> set out. wfComponent limits c" by auto
  show "sorted_wrt (\<lambda>c d. \<not> sameIdentity c d) out"
    by (rule sorted_wrt_mono_rel [rotated, OF conjunct2 [OF conjunct2 [OF s]]])
      (use s in \<open>auto dest: comparisonKey_of_identity [of limits]\<close>)
qed

lemma parseMetadataMember_wf:
  assumes "uniqueNames h" "parseMetadataMember h limits e validateParameters label m = Inr entry"
  shows "InLabel entry = label \<and> wfInput limits validateParameters entry"
proof -
  from assms(2) obtain inner p comps ps where
    r: "go_len (Items inner) \<le> MaxComponentsPerSignature limits" "InnerParams inner = Some p"
      "go_len (ParamsNames h p) \<le> MaxParametersPerItem limits"
      "parseComponents_loop h limits e {} [] (Items inner) = Inr comps"
      "copyParameters h (Some p) = Inr ps" "validateParameters ps"
      "entry = \<lparr>InLabel = label, InComponents = comps, InParameters = ps\<rparr>"
      "m = Some (MInnerList inner)"
    by (auto simp: parseMetadataMember_def not_less split: option.splits sfmember.splits sum.splits if_splits)
  then show ?thesis
    using parseComponents_identities [OF assms(1) r(4)] copyParameters_names [OF r(5)]
      copyParameters_length [OF r(5)] assms(1)
    by (auto simp: wfInput_def uniqueNames_def)
qed

lemma parseMembers_labels:
  assumes "\<And>label m entry. f label m = Inr entry \<Longrightarrow> lab entry = label \<and> P entry"
  shows "parseMembers f get entries labels = Inr out \<Longrightarrow> \<forall>x \<in> set entries. P x \<Longrightarrow>
    map lab out = map lab entries @ labels \<and> (\<forall>x \<in> set out. P x)"
proof (induction labels arbitrary: entries)
  case (Cons label labels)
  from Cons.prems(1) obtain entry where "f label (get label) = Inr entry"
    "parseMembers f get (entries @ [entry]) labels = Inr out" by (auto split: sum.splits)
  with Cons.IH [of "entries @ [entry]"] Cons.prems(2) assms show ?case by auto
qed simp

lemma openDictionary_ok:
  "openDictionary h xs limits e malformed = Inr d \<Longrightarrow>
   DictNames h d \<noteq> [] \<and> go_len (DictNames h d) \<le> MaxDictionaryMembers limits \<and>
   enforceRawSyntaxLimits xs limits = Inr () \<and> rejectDuplicateDictionaryKeys xs = Inr ()"
  by (auto simp: openDictionary_def split: sum.splits if_splits)

lemma parseSignatureMetadata_sound:
  assumes "uniqueNames h" "parseSignatureMetadata h xs limits e validateParameters = Inr entries"
  shows "entries \<noteq> [] \<and> go_len entries \<le> MaxDictionaryMembers limits \<and>
    distinct (map InLabel entries) \<and> (\<forall>x \<in> set entries. wfInput limits validateParameters x)"
proof -
  from assms(2) obtain d where d: "openDictionary h xs limits e
      (invalidField e ''%w: malformed structured field'') = Inr d"
    and p: "parseMembers (parseMetadataMember h limits e validateParameters) (DictGet h d) []
      (DictNames h d) = Inr entries"
    by (auto simp: parseSignatureMetadata_def split: sum.splits)
  have "map InLabel entries = DictNames h d \<and> (\<forall>x \<in> set entries. wfInput limits validateParameters x)"
    using parseMembers_labels [where lab = InLabel and P = "wfInput limits validateParameters", OF _ p]
      parseMetadataMember_wf [OF assms(1)] by auto
  moreover from this have "length entries = length (DictNames h d)" by (metis length_map)
  ultimately show ?thesis
    using openDictionary_ok [OF d] assms(1) by (auto simp: uniqueNames_def)
qed


section \<open>Errors and duplicate keys\<close>

lemma enforceRaw_errors:
  "enforceRawSyntaxLimits xs limits = Inl err \<Longrightarrow> \<not> errorsIs err ErrInvalidSyntaxLimits \<Longrightarrow>
   err = Sentinel ErrSyntaxLimit"
  using enforceRawSyntaxLimits_Inl [of xs limits err] by (auto split: if_splits)

lemma errorsIs_fields [simp]:
  "errorsIs (invalidField e text) e" "errorsIs (limitField e) e" "errorsIs (limitField e) ErrSyntaxLimit"
  by (simp_all add: invalidField_def limitField_def)

lemma openDictionary_errors:
  "openDictionary h xs limits e malformed = Inl err \<Longrightarrow> errorsIs malformed e \<Longrightarrow>
   errorsIs err e \<or> errorsIs err ErrInvalidSyntaxLimits"
  by (auto simp: openDictionary_def split: sum.splits if_splits)

lemma openDictionary_parsed:
  "openDictionary h xs limits e malformed = Inr d \<Longrightarrow> parsedHasParams h \<Longrightarrow> parsedMember (DictGet h d name)"
  by (auto simp: openDictionary_def unmarshalStructuredDictionary_def unmarshalStructuredField_def Let_def
      parsedHasParams_def split: sum.splits if_splits parsed.splits)

lemma parseComponents_loop_errors:
  "parseComponents_loop h limits e seen comps items = Inl err \<Longrightarrow> errorsIs err e"
proof (induction items arbitrary: seen comps)
  case (Cons item items)
  show ?case
    using Cons.prems Cons.IH by (auto simp: Let_def split: goval.splits if_splits sum.splits)
qed simp

lemma parseMetadataMember_errors:
  "parseMetadataMember h limits e validateParameters label m = Inl err \<Longrightarrow> parsedMember m \<Longrightarrow> errorsIs err e"
  using parseComponents_loop_errors
  by (auto simp: parseMetadataMember_def parsedMember_def
      split: option.splits sfmember.splits sum.splits if_splits)

lemma parseMembers_errors:
  "parseMembers f get entries labels = Inl err \<Longrightarrow> \<exists>label \<in> set labels. f label (get label) = Inl err"
  by (induction f get entries labels rule: parseMembers.induct) (auto split: sum.splits)

lemma parseSignatureMetadata_errors:
  assumes "parsedHasParams h" "parseSignatureMetadata h xs limits e validateParameters = Inl err"
  shows "errorsIs err e \<or> errorsIs err ErrInvalidSyntaxLimits"
proof (cases "openDictionary h xs limits e (invalidField e ''%w: malformed structured field'')")
  case (Inl err')
  then show ?thesis using assms(2) openDictionary_errors [OF Inl]
    by (auto simp: parseSignatureMetadata_def)
next
  case (Inr d)
  then obtain label where
    "parseMetadataMember h limits e validateParameters label (DictGet h d label) = Inl err"
    using assms(2) parseMembers_errors by (fastforce simp: parseSignatureMetadata_def)
  then show ?thesis
    using parseMetadataMember_errors openDictionary_parsed [OF Inr assms(1)] by blast
qed

lemma rejectDuplicates_loop_iff:
  "rejectDuplicates_loop seen ms = Inr () \<longleftrightarrow>
   distinct (map dictionaryMemberKey ms) \<and> [] \<notin> set (map dictionaryMemberKey ms) \<and>
   set (map dictionaryMemberKey ms) \<inter> seen = {}"
  by (induction seen ms rule: rejectDuplicates_loop.induct) (auto simp: Let_def)

lemma parseSignatureMember_ok:
  "parseSignatureMember h limits label m = Inr e \<Longrightarrow>
   SigLabel e = label \<and> go_len (SigValue e) \<le> MaxBinaryBytes limits \<and>
   go_len (SigParameters e) \<le> MaxParametersPerItem limits"
  by (auto simp: parseSignatureMember_def split: option.splits sfmember.splits goval.splits sum.splits if_splits)

section \<open>Example\<close>

definition quote :: "string \<Rightarrow> string" where
  "quote s = [CHR 0x22] @ s @ [CHR 0x22]"

definition exampleField :: string where
  "exampleField = ''s=('' @ quote ''@path'' @ '' '' @ quote ''a'' @ '';sf);keyid='' @ quote ''k''"

definition exampleDict :: alistDict where
  "exampleDict =
     [(''s'', MInnerList
        \<lparr>Items = [\<lparr>ItemValue = VString ''@path'', ItemParams = Some []\<rparr>,
                  \<lparr>ItemValue = VString ''a'', ItemParams = Some [(''sf'', VBool True)]\<rparr>],
         InnerParams = Some [(''keyid'', VString ''k'')]\<rparr>)]"

definition exampleSfv :: "(alistParams, alistDict) httpsfv" where
  "exampleSfv = alistSfv (\<lambda>xs. if xs = [exampleField] then Parses exampleDict
                               else Fails (NewErr ''syntax''))"

definition exampleInput :: SignatureInput where
  "exampleInput =
     \<lparr>InLabel = ''s'',
      InComponents = [\<lparr>CompName = ''@path'', CompParameters = []\<rparr>,
        \<lparr>CompName = ''a'', CompParameters = [\<lparr>ParName = ''sf'', ParValue = VBool True\<rparr>]\<rparr>],
      InParameters = [\<lparr>ParName = ''keyid'', ParValue = VString ''k''\<rparr>]\<rparr>"

lemma exampleSfv_laws: "paramsLaws exampleSfv" "uniqueNames exampleSfv" "parsedHasParams exampleSfv"
proof -
  show "paramsLaws exampleSfv" "uniqueNames exampleSfv"
    unfolding exampleSfv_def by (rule alistSfv_laws)+
  show "parsedHasParams exampleSfv"
    by (auto simp: parsedHasParams_def exampleSfv_def alistSfv_def exampleDict_def parsedMember_def
        split: if_splits)
qed

lemma exampleField_parses:
  "ParseSignatureInputsWithLimits exampleSfv [exampleField] DefaultSyntaxLimits = Inr [exampleInput]"
  by code_simp


section \<open>Properties\<close>

text \<open>C19. Whatever the \<^verbatim>\<open>Signature-Input\<close> parser accepts is non-empty, within every configured bound, has
  one entry per label, only valid component names and parameter types, and in no entry two components
  with the same name and the same parameters, in whatever order the parameters are written.\<close>

theorem signature_inputs_parse_sound:
  assumes "uniqueNames h" "ParseSignatureInputsWithLimits h xs limits = Inr entries"
  shows "entries \<noteq> [] \<and> go_len entries \<le> MaxDictionaryMembers limits \<and>
    distinct (map InLabel entries) \<and> (\<forall>x \<in> set entries. wfInput limits validSignatureParameters x)"
  using parseSignatureMetadata_sound [OF assms(1)] assms(2)
  unfolding ParseSignatureInputsWithLimits_def by blast

theorem signature_inputs_parse_sound_witness:
  "uniqueNames exampleSfv \<and>
   ParseSignatureInputsWithLimits exampleSfv [exampleField] DefaultSyntaxLimits = Inr [exampleInput] \<and>
   wfInput DefaultSyntaxLimits validSignatureParameters exampleInput"
  using signature_inputs_parse_sound [OF exampleSfv_laws(2) exampleField_parses]
    exampleSfv_laws(2) exampleField_parses by simp

text \<open>Every refusal of the \<^verbatim>\<open>Signature-Input\<close> parser is classified: it wraps
  \<^verbatim>\<open>ErrInvalidSignatureInput\<close>, or \<^verbatim>\<open>ErrInvalidSyntaxLimits\<close> for a bad limit set; whatever the input and
  whatever the library does with it, a panic of the library's parser included, no panic escapes.\<close>

theorem signature_inputs_parse_errors:
  assumes "parsedHasParams h" "ParseSignatureInputsWithLimits h xs limits = Inl err"
  shows "(errorsIs err ErrInvalidSignatureInput \<or> errorsIs err ErrInvalidSyntaxLimits) \<and>
    \<not> isPanic (Inl err)"
proof -
  have "errorsIs err ErrInvalidSignatureInput \<or> errorsIs err ErrInvalidSyntaxLimits"
    using parseSignatureMetadata_errors [OF assms(1)] assms(2)
    unfolding ParseSignatureInputsWithLimits_def by blast
  then show ?thesis by (cases err) auto
qed

theorem signature_inputs_parse_errors_witness:
  "parsedHasParams exampleSfv \<and>
   (case ParseSignatureInputsWithLimits exampleSfv [''s=(),s=()''] DefaultSyntaxLimits of
      Inl err \<Rightarrow> errorsIs err ErrInvalidSignatureInput \<or> errorsIs err ErrInvalidSyntaxLimits
    | Inr _ \<Rightarrow> False)"
proof -
  have "ParseSignatureInputsWithLimits exampleSfv [''s=(),s=()''] DefaultSyntaxLimits =
      Inl (Errorf ''%w: %v'' [Sentinel ErrInvalidSignatureInput] [NewErr ''duplicate dictionary key''])"
    by code_simp
  with signature_inputs_parse_errors [OF exampleSfv_laws(3) this] exampleSfv_laws(3)
  show ?thesis by simp
qed

text \<open>Component identity ignores parameter order: two identifiers with the same name and the same
  parameters, in any order, get the same comparison key (or are both refused), so order cannot smuggle
  a duplicate past the duplicate checks or a required component past the coverage check.\<close>

theorem comparison_key_order_insensitive:
  assumes "sameIdentity c d" "distinct (map ParName (CompParameters c))"
  shows "componentComparisonKey h c = componentComparisonKey h d"
  by (rule componentComparisonKey_identity [OF assms])

theorem comparison_key_order_insensitive_witness:
  "let c = \<lparr>CompName = ''a'', CompParameters =
         [\<lparr>ParName = ''sf'', ParValue = VBool True\<rparr>, \<lparr>ParName = ''req'', ParValue = VBool True\<rparr>]\<rparr>;
       d = \<lparr>CompName = ''a'', CompParameters =
         [\<lparr>ParName = ''req'', ParValue = VBool True\<rparr>, \<lparr>ParName = ''sf'', ParValue = VBool True\<rparr>]\<rparr>
   in c \<noteq> d \<and> sameIdentity c d \<and> componentComparisonKey exampleSfv c = componentComparisonKey exampleSfv d"
  unfolding Let_def
  by (intro conjI comparison_key_order_insensitive) (simp_all add: sameIdentity_def)


text \<open>Whatever the \<^verbatim>\<open>Signature\<close> parser accepts is non-empty, has one entry per label, at most the
  configured number of members and parameters, and no signature value over the binary bound.\<close>

theorem signatures_parse_sound:
  assumes "uniqueNames h" "ParseSignaturesWithLimits h xs limits = Inr entries"
  shows "entries \<noteq> [] \<and> go_len entries \<le> MaxDictionaryMembers limits \<and>
    distinct (map SigLabel entries) \<and>
    (\<forall>e \<in> set entries. go_len (SigValue e) \<le> MaxBinaryBytes limits \<and>
       go_len (SigParameters e) \<le> MaxParametersPerItem limits)"
proof -
  let ?P = "\<lambda>e. go_len (SigValue e) \<le> MaxBinaryBytes limits \<and>
      go_len (SigParameters e) \<le> MaxParametersPerItem limits"
  from assms(2) obtain d where d: "openDictionary h xs limits ErrInvalidSignature
      (invalidField ErrInvalidSignature ''%w: malformed structured field'') = Inr d"
    and p: "parseMembers (parseSignatureMember h limits) (DictGet h d) [] (DictNames h d) = Inr entries"
    by (auto simp: ParseSignaturesWithLimits_def split: sum.splits)
  have "map SigLabel entries = DictNames h d \<and> (\<forall>e \<in> set entries. ?P e)"
    using parseMembers_labels [where lab = SigLabel and P = ?P, OF parseSignatureMember_ok p] by simp
  moreover from this have "length entries = length (DictNames h d)" by (metis length_map)
  ultimately show ?thesis
    using openDictionary_ok [OF d] assms(1) by (auto simp: uniqueNames_def)
qed

definition exampleSigSfv :: "(alistParams, alistDict) httpsfv" where
  "exampleSigSfv = alistSfv (\<lambda>xs. if xs = [''s=:AQI=:'']
     then Parses [(''s'', MItem \<lparr>ItemValue = VBytes [CHR 0x01, CHR 0x02], ItemParams = Some []\<rparr>)]
     else Fails (NewErr ''syntax''))"

theorem signatures_parse_sound_witness:
  "uniqueNames exampleSigSfv \<and>
   (case ParseSignaturesWithLimits exampleSigSfv [''s=:AQI:''] DefaultSyntaxLimits of
      Inl _ \<Rightarrow> False | Inr entries \<Rightarrow> entries \<noteq> [] \<and> distinct (map SigLabel entries))"
proof -
  have u: "uniqueNames exampleSigSfv" unfolding exampleSigSfv_def by (rule alistSfv_laws)
  have n: "normalizeRFC8941BinaryValues [''s=:AQI:''] = [''s=:AQI=:'']"
    by (simp add: normalizeRFC8941BinaryValues_map normalizeRFC8941BinaryValue_scan bareBoundary_def
        canonicalBinary_def rawDecodeString_def b64value_def isUpper_def isLower_def isDigit_def
        validRFC8941Base64Alphabet_def trimRight_def sextets_def b64char_def b64alphabet_def Let_def)
  have r: "enforceRawSyntaxLimits [''s=:AQI:''] DefaultSyntaxLimits = Inr ()"
    "rejectDuplicateDictionaryKeys [''s=:AQI:''] = Inr ()"
    "normalizeStructuredFieldOWS [''s=:AQI:''] = [''s=:AQI:'']"
    by code_simp+
  have "ParseSignaturesWithLimits exampleSigSfv [''s=:AQI:''] DefaultSyntaxLimits =
      Inr [\<lparr>SigLabel = ''s'', SigValue = [CHR 0x01, CHR 0x02], SigParameters = []\<rparr>]"
    by (simp add: ParseSignaturesWithLimits_def openDictionary_def unmarshalStructuredDictionary_def
        unmarshalStructuredField_def combineStructuredFieldLines_def n r exampleSigSfv_def alistSfv_def
        parseSignatureMember_def copyParameters_def)
      (simp add: DefaultSyntaxLimits_def)
  with signatures_parse_sound [OF u this] u show ?thesis by simp
qed

text \<open>Parameters survive the trip through the library's ordered map: adding a parameter list with
  distinct names to a fresh object and copying it back gives the same list in the same order, tokens
  and byte sequences included.\<close>

theorem parameters_roundtrip:
  assumes "paramsLaws h" "distinct (map ParName ps)" "validParametersForSerialization ps"
  shows "copyParameters h (Some (addParameters h (NewParams h) ps)) = Inr ps"
proof (rule copyParameters_addParameters [OF assms(1,2)])
  fix q assume "q \<in> set ps"
  then have "serializableValue (ParValue q)"
    using assms(3) by (simp add: validParametersForSerialization_def list_all_iff)
  then show "fromStructuredValue (toStructuredValue (ParValue q)) = Some (ParValue q)"
    by (cases "ParValue q") (auto simp: toStructuredValue_def)
qed

theorem parameters_roundtrip_witness:
  "let ps = [\<lparr>ParName = ''b'', ParValue = VSFToken ''tok''\<rparr>, \<lparr>ParName = ''a'', ParValue = VInt64 7\<rparr>]
   in paramsLaws exampleSfv \<and> validParametersForSerialization ps \<and>
      copyParameters exampleSfv (Some (addParameters exampleSfv (NewParams exampleSfv) ps)) = Inr ps"
proof -
  have "validParametersForSerialization
      [\<lparr>ParName = ''b'', ParValue = VSFToken ''tok''\<rparr>, \<lparr>ParName = ''a'', ParValue = VInt64 7\<rparr>]"
    by code_simp
  with parameters_roundtrip [OF exampleSfv_laws(1) _ this] exampleSfv_laws(1)
  show ?thesis by simp
qed

end
