(* ===== verification/Digest.thy ===== *)
theory Digest
  imports SignatureFields
begin

text \<open>
  \<^verbatim>\<open>digest.go\<close> and \<^verbatim>\<open>digest_preference.go\<close>: computing, parsing, serialising and verifying RFC 9530
  integrity fields, and integrity preferences. The hash functions are a parameter, the record
  \<open>hashes\<close>; no theorem needs a property of them beyond being functions of the content.
\<close>

section \<open>Integrity fields\<close>

type_synonym DigestAlgorithm = string

definition SHA256 :: DigestAlgorithm where
  "SHA256 = ''sha-256''"

definition SHA512 :: DigestAlgorithm where
  "SHA512 = ''sha-512''"

record hashes =
  Sum256 :: "bytes \<Rightarrow> bytes"
  Sum384 :: "bytes \<Rightarrow> bytes"
  Sum512 :: "bytes \<Rightarrow> bytes"

record Digest =
  DigAlgorithm :: DigestAlgorithm
  DigValue :: bytes
  DigParameters :: "Parameter list"

definition checksum :: "hashes \<Rightarrow> DigestAlgorithm \<Rightarrow> bytes \<Rightarrow> bytes res" where
  "checksum H algorithm content =
     (if algorithm = SHA256 then Inr (Sum256 H content)
      else if algorithm = SHA512 then Inr (Sum512 H content)
      else Inl (Errorf ''%w: %s'' [Sentinel ErrUnsupportedDigestAlgorithm] [NewErr algorithm]))"

fun computeDigests_loop ::
  "hashes \<Rightarrow> bytes \<Rightarrow> DigestAlgorithm set \<Rightarrow> Digest list \<Rightarrow> DigestAlgorithm list \<Rightarrow> Digest list res" where
  "computeDigests_loop H content seen entries [] = Inr entries"
| "computeDigests_loop H content seen entries (algorithm # algorithms) =
     (if algorithm \<in> seen then Inl (Errorf ''%w: duplicate algorithm'' [Sentinel ErrInvalidDigestField] [])
      else case checksum H algorithm content of
             Inl err \<Rightarrow> Inl err
           | Inr v \<Rightarrow>
               computeDigests_loop H content (insert algorithm seen)
                 (entries @ [\<lparr>DigAlgorithm = algorithm, DigValue = v, DigParameters = []\<rparr>]) algorithms)"

definition ComputeDigests :: "hashes \<Rightarrow> DigestAlgorithm list \<Rightarrow> bytes \<Rightarrow> Digest list res" where
  "ComputeDigests H algorithms content =
     (if algorithms = [] then Inl (Sentinel ErrInvalidDigestField)
      else case computeDigests_loop H content {} [] algorithms of
             Inl err \<Rightarrow> Inl err
           | Inr entries \<Rightarrow> Inr (sort_key DigAlgorithm entries))"

definition parseDigestMember ::
  "('p, 'd) httpsfv \<Rightarrow> SyntaxLimits \<Rightarrow> string \<Rightarrow> 'p sfmember option \<Rightarrow> Digest res" where
  "parseDigestMember h limits name member =
     (case member of
        Some (MItem item) \<Rightarrow>
          (case ItemValue item of
             VBytes bs \<Rightarrow>
               (case copyParameters h (ItemParams item) of
                  Inl parameterErr \<Rightarrow> Inl (Sentinel ErrInvalidDigestField)
                | Inr parameters \<Rightarrow>
                    if go_len bs > MaxBinaryBytes limits \<or> go_len parameters > MaxParametersPerItem limits
                    then Inl (limitField ErrInvalidDigestField)
                    else Inr \<lparr>DigAlgorithm = name, DigValue = [] @ bs, DigParameters = parameters\<rparr>)
           | _ \<Rightarrow> Inl (Sentinel ErrInvalidDigestField))
      | _ \<Rightarrow> Inl (Sentinel ErrInvalidDigestField))"

definition ParseDigestFieldsWithLimits ::
  "('p, 'd) httpsfv \<Rightarrow> string list \<Rightarrow> SyntaxLimits \<Rightarrow> Digest list res" where
  "ParseDigestFieldsWithLimits h values limits =
     (case openDictionary h values limits ErrInvalidDigestField (Sentinel ErrInvalidDigestField) of
        Inl err \<Rightarrow> Inl err
      | Inr dictionary \<Rightarrow>
          parseMembers (parseDigestMember h limits) (DictGet h dictionary) [] (DictNames h dictionary))"

definition ParseDigestFields :: "('p, 'd) httpsfv \<Rightarrow> string list \<Rightarrow> Digest list res" where
  "ParseDigestFields h values = ParseDigestFieldsWithLimits h values DefaultSyntaxLimits"

definition ParseDigestField :: "('p, 'd) httpsfv \<Rightarrow> string \<Rightarrow> Digest list res" where
  "ParseDigestField h value = ParseDigestFields h [value]"

definition DigestField_Entries :: "Digest list \<Rightarrow> Digest list" where
  "DigestField_Entries entries =
     map (\<lambda>e. \<lparr>DigAlgorithm = DigAlgorithm e, DigValue = [] @ DigValue e,
               DigParameters = cloneParameters (DigParameters e)\<rparr>) entries"

definition DigestField_String :: "('p, 'd) httpsfv \<Rightarrow> Digest list \<Rightarrow> string res" where
  "DigestField_String h entries =
     (let dictionary = foldl (\<lambda>d entry.
            DictAdd h d (DigAlgorithm entry)
              (MItem \<lparr>ItemValue = VBytes ([] @ DigValue entry),
                 ItemParams = Some (addParameters h (NewParams h) (DigParameters entry))\<rparr>))
            (NewDictionary h) entries
      in case marshalRFC8941 h (SFDictionary dictionary) of
           Inl err \<Rightarrow> Inl (GoPanic ''serialize validated digest field'')
         | Inr value \<Rightarrow> Inr value)"

text \<open>\<^verbatim>\<open>subtle.ConstantTimeCompare\<close> returns 1 exactly for equal slices.\<close>

definition ConstantTimeCompare :: "bytes \<Rightarrow> bytes \<Rightarrow> int" where
  "ConstantTimeCompare x y = (if x = y then 1 else 0)"

fun verifyDigests_loop ::
  "hashes \<Rightarrow> (DigestAlgorithm \<rightharpoonup> bytes) \<Rightarrow> bytes \<Rightarrow> DigestAlgorithm set \<Rightarrow> DigestAlgorithm list \<Rightarrow> unit res" where
  "verifyDigests_loop H entries content seen [] = Inr ()"
| "verifyDigests_loop H entries content seen (algorithm # required) =
     (if algorithm \<in> seen
      then Inl (Errorf ''%w: duplicate required algorithm'' [Sentinel ErrInvalidDigestField] [])
      else case entries algorithm of
             None \<Rightarrow> Inl (Errorf ''%w: %s'' [Sentinel ErrMissingDigest] [NewErr algorithm])
           | Some actual \<Rightarrow>
               (case checksum H algorithm content of
                  Inl err \<Rightarrow> Inl err
                | Inr expected \<Rightarrow>
                    if length actual \<noteq> length expected \<or> ConstantTimeCompare actual expected \<noteq> 1
                    then Inl (Errorf ''%w: %s'' [Sentinel ErrDigestMismatch] [NewErr algorithm])
                    else verifyDigests_loop H entries content (insert algorithm seen) required))"

definition DigestField_Verify :: "hashes \<Rightarrow> Digest list \<Rightarrow> bytes \<Rightarrow> DigestAlgorithm list \<Rightarrow> unit res" where
  "DigestField_Verify H field content required =
     (if required = [] then Inl (Sentinel ErrInvalidDigestField)
      else verifyDigests_loop H (foldl (\<lambda>m e. m(DigAlgorithm e \<mapsto> DigValue e)) Map.empty field)
             content {} required)"

section \<open>Integrity preferences\<close>

record DigestPreference =
  PrefAlgorithm :: DigestAlgorithm
  PrefWeight :: int

definition validDigestAlgorithmKey :: "DigestAlgorithm \<Rightarrow> bool" where
  "validDigestAlgorithmKey algorithm =
     (case algorithm of [] \<Rightarrow> False | c # cs \<Rightarrow> isKeyStart c \<and> list_all isKeyCharacter cs)"

fun newPreferences_loop ::
  "DigestAlgorithm set \<Rightarrow> DigestPreference list \<Rightarrow> DigestPreference list \<Rightarrow> DigestPreference list res" where
  "newPreferences_loop seen result [] = Inr result"
| "newPreferences_loop seen result (entry # entries) =
     (if \<not> validDigestAlgorithmKey (PrefAlgorithm entry) \<or> PrefWeight entry < 0 \<or> PrefWeight entry > 10
      then Inl (Sentinel ErrInvalidDigestPreferences)
      else if PrefAlgorithm entry \<in> seen
      then Inl (Errorf ''%w: duplicate algorithm'' [Sentinel ErrInvalidDigestPreferences] [])
      else newPreferences_loop (insert (PrefAlgorithm entry) seen) (result @ [entry]) entries)"

definition NewDigestPreferences :: "DigestPreference list \<Rightarrow> DigestPreference list res" where
  "NewDigestPreferences entries =
     (if entries = [] then Inl (Sentinel ErrInvalidDigestPreferences)
      else newPreferences_loop {} [] entries)"

definition parsePreferenceMember ::
  "('p, 'd) httpsfv \<Rightarrow> string \<Rightarrow> 'p sfmember option \<Rightarrow> DigestPreference res" where
  "parsePreferenceMember h name member =
     (case member of
        Some (MItem item) \<Rightarrow>
          (case ItemParams item of
             None \<Rightarrow> Inl (GoPanic ''nil pointer dereference'')
           | Some p \<Rightarrow>
               if ParamsNames h p \<noteq> [] then Inl (Sentinel ErrInvalidDigestPreferences)
               else case ItemValue item of
                      VInt64 weight \<Rightarrow>
                        if weight < 0 \<or> weight > 10 then Inl (Sentinel ErrInvalidDigestPreferences)
                        else Inr \<lparr>PrefAlgorithm = name, PrefWeight = weight\<rparr>
                    | _ \<Rightarrow> Inl (Sentinel ErrInvalidDigestPreferences))
      | _ \<Rightarrow> Inl (Sentinel ErrInvalidDigestPreferences))"

definition ParseDigestPreferencesWithLimits ::
  "('p, 'd) httpsfv \<Rightarrow> string list \<Rightarrow> SyntaxLimits \<Rightarrow> DigestPreference list res" where
  "ParseDigestPreferencesWithLimits h values limits =
     (case openDictionary h values limits ErrInvalidDigestPreferences
             (invalidField ErrInvalidDigestPreferences ''%w: malformed structured field'') of
        Inl err \<Rightarrow> Inl err
      | Inr dictionary \<Rightarrow>
          (case parseMembers (parsePreferenceMember h) (DictGet h dictionary) [] (DictNames h dictionary) of
             Inl err \<Rightarrow> Inl err
           | Inr entries \<Rightarrow> NewDigestPreferences entries))"

definition ParseDigestPreferences :: "('p, 'd) httpsfv \<Rightarrow> string list \<Rightarrow> DigestPreference list res" where
  "ParseDigestPreferences h values = ParseDigestPreferencesWithLimits h values DefaultSyntaxLimits"

definition DigestPreferences_Entries :: "DigestPreference list \<Rightarrow> DigestPreference list" where
  "DigestPreferences_Entries entries = [] @ entries"

definition DigestPreferences_String :: "('p, 'd) httpsfv \<Rightarrow> DigestPreference list \<Rightarrow> string res" where
  "DigestPreferences_String h entries =
     (let dictionary = foldl (\<lambda>d entry.
            DictAdd h d (PrefAlgorithm entry) (MItem (NewItem h (VInt64 (PrefWeight entry)))))
            (NewDictionary h) entries
      in case marshalRFC8941 h (SFDictionary dictionary) of
           Inl err \<Rightarrow> Inl (GoPanic ''serialize validated digest preferences'')
         | Inr value \<Rightarrow> Inr value)"

section \<open>Lemmas\<close>

definition digestEntry :: "hashes \<Rightarrow> bytes \<Rightarrow> DigestAlgorithm \<Rightarrow> Digest \<Rightarrow> bool" where
  "digestEntry H content a e \<longleftrightarrow>
     DigAlgorithm e = a \<and> checksum H a content = Inr (DigValue e) \<and> DigParameters e = []"

lemma computeDigests_loop_ok:
  "computeDigests_loop H content seen entries as = Inr out \<Longrightarrow>
   \<exists>new. out = entries @ new \<and> list_all2 (digestEntry H content) as new \<and> distinct as \<and> set as \<inter> seen = {}"
proof (induction as arbitrary: seen entries)
  case (Cons a as)
  from Cons.prems obtain v where v: "a \<notin> seen" "checksum H a content = Inr v"
    "computeDigests_loop H content (insert a seen)
       (entries @ [\<lparr>DigAlgorithm = a, DigValue = v, DigParameters = []\<rparr>]) as = Inr out"
    by (auto split: if_splits sum.splits)
  from Cons.IH [OF v(3)] v(1,2) show ?case by (fastforce simp: digestEntry_def)
qed simp

lemma computeDigests_loop_complete:
  "distinct as \<Longrightarrow> set as \<inter> seen = {} \<Longrightarrow> \<forall>a \<in> set as. isOk (checksum H a content) \<Longrightarrow>
   isOk (computeDigests_loop H content seen entries as)"
  by (induction as arbitrary: seen entries) (auto split: sum.splits)

lemma ComputeDigests_ok:
  assumes "ComputeDigests H as content = Inr field"
  obtains entries where "as \<noteq> []" "distinct as" "list_all2 (digestEntry H content) as entries"
    "field = sort_key DigAlgorithm entries"
  using assms computeDigests_loop_ok [of H content "{}" "[]" as]
  by (fastforce simp: ComputeDigests_def split: if_splits sum.splits)

lemma digestEntries_names: "list_all2 (digestEntry H content) as entries \<Longrightarrow> map DigAlgorithm entries = as"
  by (induction rule: list_all2_induct) (auto simp: digestEntry_def)

lemma foldl_map_upd:
  "foldl (\<lambda>m e. m(DigAlgorithm e \<mapsto> DigValue e)) m es =
   m ++ map_of (rev (map (\<lambda>e. (DigAlgorithm e, DigValue e)) es))"
proof (induction es arbitrary: m)
  case (Cons e es)
  have "m(DigAlgorithm e \<mapsto> DigValue e) = m ++ [DigAlgorithm e \<mapsto> DigValue e]" by simp
  then show ?case using Cons.IH [of "m(DigAlgorithm e \<mapsto> DigValue e)"]
    by (simp only: foldl_Cons list.map rev.simps map_of_append map_of.simps fst_conv snd_conv map_add_assoc)
qed simp

lemma verifyDigests_loop_iff:
  "verifyDigests_loop H m content seen required = Inr () \<longleftrightarrow>
   distinct required \<and> set required \<inter> seen = {} \<and>
   (\<forall>a \<in> set required. \<exists>v. m a = Some v \<and> checksum H a content = Inr v)"
  by (induction required arbitrary: seen)
    (auto simp: ConstantTimeCompare_def split: option.splits sum.splits)

definition fieldValue :: "Digest list \<Rightarrow> DigestAlgorithm \<rightharpoonup> bytes" where
  "fieldValue field = map_of (rev (map (\<lambda>e. (DigAlgorithm e, DigValue e)) field))"

lemma DigestField_Verify_iff:
  "DigestField_Verify H field content required = Inr () \<longleftrightarrow>
   required \<noteq> [] \<and> distinct required \<and>
   (\<forall>a \<in> set required. \<exists>v. fieldValue field a = Some v \<and> checksum H a content = Inr v)"
  by (auto simp: DigestField_Verify_def verifyDigests_loop_iff foldl_map_upd fieldValue_def)

lemma fieldValue_distinct:
  "distinct (map DigAlgorithm field) \<Longrightarrow> e \<in> set field \<Longrightarrow> fieldValue field (DigAlgorithm e) = Some (DigValue e)"
  unfolding fieldValue_def by (rule map_of_is_SomeI) (auto simp: comp_def rev_map [symmetric])

lemma newPreferences_loop_iff:
  "newPreferences_loop seen result es = Inr out \<longleftrightarrow>
   out = result @ es \<and> distinct (map PrefAlgorithm es) \<and> set (map PrefAlgorithm es) \<inter> seen = {} \<and>
   (\<forall>e \<in> set es. validDigestAlgorithmKey (PrefAlgorithm e) \<and> 0 \<le> PrefWeight e \<and> PrefWeight e \<le> 10)"
  by (induction seen result es rule: newPreferences_loop.induct) auto

lemma distinct_algorithms_sort:
  "distinct (map DigAlgorithm (sort_key DigAlgorithm xs)) = distinct (map DigAlgorithm xs)"
  using mset_eq_imp_distinct_iff [of "map DigAlgorithm (sort_key DigAlgorithm xs)" "map DigAlgorithm xs"]
  by simp

lemma sort_key_algorithms_unique:
  assumes "mset xs = mset ys" "distinct (map DigAlgorithm xs)"
  shows "sort_key DigAlgorithm xs = sort_key DigAlgorithm ys"
proof (rule sort_key_inj_key_eq)
  show "mset xs = mset (sort_key DigAlgorithm ys)" using assms(1) by simp
  show "inj_on DigAlgorithm (set xs)" using assms(2) by (simp add: distinct_map)
qed simp

text \<open>The entry the loop builds for an algorithm, as a function of the algorithm.\<close>

definition computedEntry :: "hashes \<Rightarrow> bytes \<Rightarrow> DigestAlgorithm \<Rightarrow> Digest" where
  "computedEntry H content a =
     \<lparr>DigAlgorithm = a, DigValue = (case checksum H a content of Inl _ \<Rightarrow> [] | Inr v \<Rightarrow> v), DigParameters = []\<rparr>"

lemma digestEntries_map:
  "list_all2 (digestEntry H content) as xs \<Longrightarrow> xs = map (computedEntry H content) as"
  by (induction rule: list_all2_induct) (auto simp: digestEntry_def computedEntry_def)

section \<open>Example\<close>

definition exampleHashes :: hashes where
  "exampleHashes = \<lparr>Sum256 = (\<lambda>c. ''A'' @ c), Sum384 = (\<lambda>c. ''B'' @ c), Sum512 = (\<lambda>c. ''C'' @ c)\<rparr>"

lemma exampleDigests:
  "ComputeDigests exampleHashes [SHA512, SHA256] ''hi'' =
   Inr [\<lparr>DigAlgorithm = ''sha-256'', DigValue = ''Ahi'', DigParameters = []\<rparr>,
        \<lparr>DigAlgorithm = ''sha-512'', DigValue = ''Chi'', DigParameters = []\<rparr>]"
  by code_simp

section \<open>Properties\<close>

text \<open>C22. Verification of an integrity field succeeds exactly when the policy selects at least one
  algorithm, none twice, and for each selected algorithm the field carries (last occurrence) exactly the
  checksum of the content; members the policy does not select play no role.\<close>

theorem digest_verify_iff:
  "DigestField_Verify H field content required = Inr () \<longleftrightarrow>
   required \<noteq> [] \<and> distinct required \<and>
   (\<forall>a \<in> set required. \<exists>v. fieldValue field a = Some v \<and> checksum H a content = Inr v)"
  by (rule DigestField_Verify_iff)

theorem digest_verify_iff_witness:
  "DigestField_Verify exampleHashes
     [\<lparr>DigAlgorithm = ''sha-256'', DigValue = ''Ahi'', DigParameters = []\<rparr>] ''hi'' [SHA256] = Inr () \<and>
   DigestField_Verify exampleHashes
     [\<lparr>DigAlgorithm = ''sha-256'', DigValue = ''Ahx'', DigParameters = []\<rparr>] ''hi'' [SHA256] \<noteq> Inr ()"
  unfolding digest_verify_iff
  by (simp add: fieldValue_def checksum_def SHA256_def SHA512_def exampleHashes_def)

text \<open>C23. A computed field verifies: for every content and every non-empty duplicate-free selection of
  the algorithms it was computed with, \<^verbatim>\<open>Verify\<close> accepts the output of \<^verbatim>\<open>ComputeDigests\<close>.\<close>

theorem compute_digests_verify:
  assumes "ComputeDigests H algorithms content = Inr field"
    and "required \<noteq> []" "distinct required" "set required \<subseteq> set algorithms"
  shows "DigestField_Verify H field content required = Inr ()"
proof -
  obtain entries where e: "distinct algorithms" "list_all2 (digestEntry H content) algorithms entries"
    "field = sort_key DigAlgorithm entries" using ComputeDigests_ok [OF assms(1)] by blast
  have d: "distinct (map DigAlgorithm field)"
    using distinct_algorithms_sort [of entries] digestEntries_names [OF e(2)] e(1,3) by simp
  show ?thesis unfolding DigestField_Verify_iff
  proof (intro conjI ballI assms(2,3))
    fix a assume "a \<in> set required"
    then have "a \<in> set algorithms" using assms(4) by blast
    then obtain x where "x \<in> set entries" "digestEntry H content a x"
      using e(2) by (metis (no_types) in_set_conv_nth list_all2_conv_all_nth)
    then show "\<exists>v. fieldValue field a = Some v \<and> checksum H a content = Inr v"
      using fieldValue_distinct [OF d, of x] e(3) by (auto simp: digestEntry_def)
  qed
qed

theorem compute_digests_verify_witness:
  "(case ComputeDigests exampleHashes [SHA512, SHA256] ''hi'' of
      Inl _ \<Rightarrow> False | Inr field \<Rightarrow> DigestField_Verify exampleHashes field ''hi'' [SHA256] = Inr ())"
  using compute_digests_verify [OF exampleDigests, of "[SHA256]"] exampleDigests by simp

text \<open>The computed field is deterministic: it is sorted by algorithm key without repetition, and it
  does not depend on the order in which the caller lists the algorithms.\<close>

theorem compute_digests_deterministic:
  assumes "ComputeDigests H algorithms content = Inr field" "mset algorithms' = mset algorithms"
  shows "sorted (map DigAlgorithm field) \<and> distinct (map DigAlgorithm field) \<and>
    set (map DigAlgorithm field) = set algorithms \<and>
    ComputeDigests H algorithms' content = Inr field"
proof -
  obtain xs where xs: "algorithms \<noteq> []" "distinct algorithms"
    "list_all2 (digestEntry H content) algorithms xs" "field = sort_key DigAlgorithm xs"
    using ComputeDigests_ok [OF assms(1)] by blast
  have names: "map DigAlgorithm xs = algorithms" by (rule digestEntries_names [OF xs(3)])
  have sets: "set algorithms' = set algorithms" using assms(2) by (metis set_mset_mset)
  have d': "distinct algorithms'" using xs(2) assms(2) by (metis mset_eq_imp_distinct_iff)
  have "\<forall>a \<in> set algorithms. isOk (checksum H a content)"
    using xs(3) by (auto simp: list_all2_conv_all_nth digestEntry_def in_set_conv_nth)
  then obtain ys where loop: "computeDigests_loop H content {} [] algorithms' = Inr ys"
    using computeDigests_loop_complete [OF d', of "{}" H content "[]"] sets
    unfolding isOk_iff by auto
  have "algorithms' \<noteq> []" using xs(1) sets by auto
  then have ys: "ComputeDigests H algorithms' content = Inr (sort_key DigAlgorithm ys)"
    by (simp add: ComputeDigests_def loop)
  have ys2: "list_all2 (digestEntry H content) algorithms' ys"
    using computeDigests_loop_ok [OF loop] by auto
  have "mset xs = mset ys"
    using digestEntries_map [OF xs(3)] digestEntries_map [OF ys2] assms(2) by simp
  then have "sort_key DigAlgorithm xs = sort_key DigAlgorithm ys"
    using sort_key_algorithms_unique names xs(2) by blast
  moreover have "distinct (map DigAlgorithm field)" "set (map DigAlgorithm field) = set algorithms"
    using names xs(2,4) distinct_algorithms_sort [of xs] by (simp_all flip: list.set_map)
  ultimately show ?thesis using ys xs(4) by simp
qed

theorem compute_digests_deterministic_witness:
  "ComputeDigests exampleHashes [SHA512, SHA256] ''hi'' = ComputeDigests exampleHashes [SHA256, SHA512] ''hi''"
  using compute_digests_deterministic [OF exampleDigests, of "[SHA256, SHA512]"] exampleDigests by simp

text \<open>A preference dictionary is accepted exactly when it is non-empty, its algorithm keys are valid
  and distinct and every weight is between 0 and 10; the accepted entries are kept unchanged and in order.\<close>

theorem new_digest_preferences_iff:
  "NewDigestPreferences entries = Inr out \<longleftrightarrow>
   out = entries \<and> entries \<noteq> [] \<and> distinct (map PrefAlgorithm entries) \<and>
   list_all (\<lambda>e. validDigestAlgorithmKey (PrefAlgorithm e) \<and> 0 \<le> PrefWeight e \<and> PrefWeight e \<le> 10) entries"
  by (auto simp: NewDigestPreferences_def newPreferences_loop_iff list_all_iff)

end
