(* ===== verification/Algorithm.thy ===== *)
theory Algorithm
  imports Digest
begin

text \<open>
  \<^verbatim>\<open>algorithm.go\<close>: key validation and the dispatch of signing and verification to the primitives of Go's
  crypto packages, which are a parameter (the record \<open>crypto\<close>, with \<open>hashes\<close> of \<^verbatim>\<open>Digest\<close>). A context is
  the sequence of its \<^verbatim>\<open>Err\<close> observations, \<open>None\<close> for a nil context; randomness is an explicit argument.
\<close>

section \<open>Contexts\<close>

type_synonym gocontext = "(nat \<Rightarrow> goerr option) option"

definition contextError :: "gocontext \<Rightarrow> nat \<Rightarrow> goerr option" where
  "contextError ctx k =
     (case ctx of None \<Rightarrow> Some (NewErr ''http signature: nil context'') | Some err \<Rightarrow> err k)"

section \<open>Keys\<close>

type_synonym Algorithm = string

definition RSAPSSSHA512 :: Algorithm where "RSAPSSSHA512 = ''rsa-pss-sha512''"
definition RSAV15SHA256 :: Algorithm where "RSAV15SHA256 = ''rsa-v1_5-sha256''"
definition HMACSHA256 :: Algorithm where "HMACSHA256 = ''hmac-sha256''"
definition ECDSAP256SHA256 :: Algorithm where "ECDSAP256SHA256 = ''ecdsa-p256-sha256''"
definition ECDSAP384SHA384 :: Algorithm where "ECDSAP384SHA384 = ''ecdsa-p384-sha384''"
definition Ed25519 :: Algorithm where "Ed25519 = ''ed25519''"

lemmas algorithm_names = RSAPSSSHA512_def RSAV15SHA256_def HMACSHA256_def ECDSAP256SHA256_def
  ECDSAP384SHA384_def Ed25519_def

definition minRSAModulusBits :: int where "minRSAModulusBits = 2048"
definition maxRSAModulusBits :: int where "maxRSAModulusBits = 8192"
definition maxRSASignatureSize :: int where "maxRSASignatureSize = maxRSAModulusBits div 8"
definition minHMACKeySize :: int where "minHMACKeySize = 32"
definition maxHMACKeySize :: int where "maxHMACKeySize = 64"

text \<open>
  A nil pointer is \<open>None\<close>; \<open>rsaN\<close> is a nil-able \<^verbatim>\<open>*big.Int\<close>. Private material the code never inspects is
  an opaque byte string. A curve is named by its identity.
\<close>

datatype curve = P256 | P384 | OtherCurve string

record rsaPublicKey =
  rsaN :: "int option"
  rsaE :: int

record rsaPrivateKey =
  rsaPublic :: rsaPublicKey
  rsaSecret :: bytes

record ecdsaPublicKey =
  ecCurve :: curve
  ecPoint :: bytes

record ecdsaPrivateKey =
  ecPublic :: ecdsaPublicKey
  ecSecret :: bytes

datatype gokey =
    KNil
  | KRSAPrivate "rsaPrivateKey option"
  | KRSAPublic "rsaPublicKey option"
  | KHMAC bytes
  | KECDSAPrivate "ecdsaPrivateKey option"
  | KECDSAPublic "ecdsaPublicKey option"
  | KEd25519Private bytes
  | KEd25519Public bytes
  | KOther string

record crypto =
  rsaValidate :: "rsaPrivateKey \<Rightarrow> bool"
  SignPSS :: "nat \<Rightarrow> rsaPrivateKey \<Rightarrow> bytes \<Rightarrow> bytes res"
  VerifyPSS :: "rsaPublicKey \<Rightarrow> bytes \<Rightarrow> bytes \<Rightarrow> bool"
  SignPKCS1v15 :: "rsaPrivateKey \<Rightarrow> bytes \<Rightarrow> bytes res"
  VerifyPKCS1v15 :: "rsaPublicKey \<Rightarrow> bytes \<Rightarrow> bytes \<Rightarrow> bool"
  hmacSHA256 :: "bytes \<Rightarrow> bytes \<Rightarrow> bytes"
  ecdsaSign :: "nat \<Rightarrow> ecdsaPrivateKey \<Rightarrow> bytes \<Rightarrow> (nat \<times> nat) res"
  ecdsaVerify :: "ecdsaPublicKey \<Rightarrow> bytes \<Rightarrow> nat \<Rightarrow> nat \<Rightarrow> bool"
  ecdsaPrivateBytes :: "ecdsaPrivateKey \<Rightarrow> bytes parsed"
  ecdsaPublicBytes :: "ecdsaPublicKey \<Rightarrow> bytes parsed"
  ParseRawPrivateKey :: "curve \<Rightarrow> bytes \<Rightarrow> ecdsaPrivateKey res"
  ParseUncompressedPublicKey :: "curve \<Rightarrow> bytes \<Rightarrow> ecdsaPublicKey res"
  ed25519Sign :: "bytes \<Rightarrow> bytes \<Rightarrow> bytes"
  ed25519Verify :: "bytes \<Rightarrow> bytes \<Rightarrow> bytes \<Rightarrow> bool"
  NewKeyFromSeed :: "bytes \<Rightarrow> bytes"

section \<open>Key validation\<close>

definition validHMACKey :: "bytes \<Rightarrow> bool" where
  "validHMACKey material \<longleftrightarrow> go_len material \<ge> minHMACKeySize \<and> go_len material \<le> maxHMACKeySize"

definition NewHMACKey :: "bytes \<Rightarrow> bytes res" where
  "NewHMACKey material =
     (if go_len material < minHMACKeySize \<or> go_len material > maxHMACKeySize
      then Inl (Sentinel ErrIncompatibleKey) else Inr ([] @ material))"

text \<open>\<^verbatim>\<open>big.Int.BitLen\<close> of a positive integer.\<close>

function bitLen :: "nat \<Rightarrow> nat" where
  "bitLen n = (if n = 0 then 0 else Suc (bitLen (n div 2)))"
  by pat_completeness auto
termination by (relation "measure id") auto

declare bitLen.simps [simp del]

definition validRSAModulus :: "int option \<Rightarrow> bool" where
  "validRSAModulus modulus =
     (case modulus of
        None \<Rightarrow> False
      | Some n \<Rightarrow>
          if n \<le> 0 \<or> n mod 2 \<noteq> 1 then False
          else int (bitLen (nat n)) \<ge> minRSAModulusBits \<and> int (bitLen (nat n)) \<le> maxRSAModulusBits)"

definition validRSAPublicKey :: "rsaPublicKey option \<Rightarrow> bool" where
  "validRSAPublicKey key =
     (case key of None \<Rightarrow> False
      | Some k \<Rightarrow> validRSAModulus (rsaN k) \<and> rsaE k \<ge> 3 \<and> rsaE k mod 2 = 1)"

definition validRSAPrivateKey :: "crypto \<Rightarrow> rsaPrivateKey option \<Rightarrow> bool" where
  "validRSAPrivateKey P key =
     (case key of None \<Rightarrow> False
      | Some k \<Rightarrow> validRSAPublicKey (Some (rsaPublic k)) \<and> rsaValidate P k)"

text \<open>\<^verbatim>\<open>PublicKey.Size()\<close> is the modulus size in bytes.\<close>

definition rsaKeySize :: "rsaPublicKey \<Rightarrow> int" where
  "rsaKeySize k = (case rsaN k of None \<Rightarrow> 0 | Some n \<Rightarrow> int ((bitLen (nat n) + 7) div 8))"

definition validRSASignatureSize :: "rsaPublicKey \<Rightarrow> bytes \<Rightarrow> bool" where
  "validRSASignatureSize key signature \<longleftrightarrow>
     go_len signature \<le> maxRSASignatureSize \<and> go_len signature = rsaKeySize key"

text \<open>The two \<^verbatim>\<open>Bytes\<close> wrappers recover panics: \<open>None\<close> when there is no encoding.\<close>

definition ecdsaPrivateKeyBytes :: "crypto \<Rightarrow> ecdsaPrivateKey \<Rightarrow> bytes option" where
  "ecdsaPrivateKeyBytes P key =
     (case ecdsaPrivateBytes P key of Parses b \<Rightarrow> Some b | Fails _ \<Rightarrow> None | Panics \<Rightarrow> None)"

definition ecdsaPublicKeyBytes :: "crypto \<Rightarrow> ecdsaPublicKey \<Rightarrow> bytes option" where
  "ecdsaPublicKeyBytes P key =
     (case ecdsaPublicBytes P key of Parses b \<Rightarrow> Some b | Fails _ \<Rightarrow> None | Panics \<Rightarrow> None)"

text \<open>
  The parse error of the round trip is dropped and the nil result dereferenced, so a parse failure here
  is a panic.
\<close>

definition validECDSAPublicKey :: "crypto \<Rightarrow> ecdsaPublicKey option \<Rightarrow> curve \<Rightarrow> bool res" where
  "validECDSAPublicKey P key c =
     (case key of
        None \<Rightarrow> Inr False
      | Some k \<Rightarrow>
          if ecCurve k \<noteq> c then Inr False
          else case ecdsaPublicKeyBytes P k of
                 None \<Rightarrow> Inr False
               | Some encoded \<Rightarrow>
                   (case ParseUncompressedPublicKey P c encoded of
                      Inl _ \<Rightarrow> Inl (GoPanic ''nil pointer dereference'')
                    | Inr parsed \<Rightarrow> Inr (parsed = k)))"

definition validECDSAPrivateKey :: "crypto \<Rightarrow> ecdsaPrivateKey option \<Rightarrow> curve \<Rightarrow> bool res" where
  "validECDSAPrivateKey P key c =
     (case key of
        None \<Rightarrow> Inr False
      | Some k \<Rightarrow>
          if ecCurve (ecPublic k) \<noteq> c then Inr False
          else case validECDSAPublicKey P (Some (ecPublic k)) c of
                 Inl p \<Rightarrow> Inl p
               | Inr False \<Rightarrow> Inr False
               | Inr True \<Rightarrow>
                   (case ecdsaPrivateKeyBytes P k of
                      None \<Rightarrow> Inr False
                    | Some encoded \<Rightarrow>
                        (case ParseRawPrivateKey P c encoded of
                           Inl _ \<Rightarrow> Inr False
                         | Inr parsed \<Rightarrow> Inr (ecPublic parsed = ecPublic k))))"

definition validEd25519PrivateKey :: "crypto \<Rightarrow> bytes \<Rightarrow> bool" where
  "validEd25519PrivateKey P key =
     (if length key \<noteq> 64 then False
      else ConstantTimeCompare key (NewKeyFromSeed P (take 32 key)) = 1)"

section \<open>IEEE P1363 encoding\<close>

text \<open>\<^verbatim>\<open>big.Int.FillBytes\<close> into \<open>n\<close> bytes, big endian, and \<^verbatim>\<open>big.Int.SetBytes\<close>.\<close>

fun bigEndian :: "nat \<Rightarrow> nat \<Rightarrow> bytes" where
  "bigEndian 0 x = []"
| "bigEndian (Suc n) x = bigEndian n (x div 256) @ [char_of (x mod 256)]"

definition FillBytes :: "nat \<Rightarrow> nat \<Rightarrow> bytes res" where
  "FillBytes n x = (if x < 256 ^ n then Inr (bigEndian n x) else Inl (GoPanic ''math/big: buffer too small''))"

definition SetBytes :: "bytes \<Rightarrow> nat" where
  "SetBytes b = foldl (\<lambda>x c. 256 * x + byte c) 0 b"

definition signECDSA :: "crypto \<Rightarrow> nat \<Rightarrow> ecdsaPrivateKey \<Rightarrow> bytes \<Rightarrow> nat \<Rightarrow> bytes res" where
  "signECDSA P rnd key digest n =
     (case ecdsaSign P rnd key digest of
        Inl err \<Rightarrow> Inl err
      | Inr (r, s) \<Rightarrow>
          (case FillBytes n r of
             Inl p \<Rightarrow> Inl p
           | Inr rb \<Rightarrow> (case FillBytes n s of Inl p \<Rightarrow> Inl p | Inr sb \<Rightarrow> Inr (rb @ sb))))"

definition verifyECDSA :: "crypto \<Rightarrow> ecdsaPublicKey \<Rightarrow> bytes \<Rightarrow> bytes \<Rightarrow> nat \<Rightarrow> bool" where
  "verifyECDSA P key digest signature n =
     (if length signature \<noteq> n * 2 then False
      else ecdsaVerify P key digest (SetBytes (take n signature)) (SetBytes (drop n signature)))"

section \<open>Sign and Verify\<close>

definition finishSignature :: "gocontext \<Rightarrow> nat \<Rightarrow> bytes res \<Rightarrow> bytes res" where
  "finishSignature ctx k signature =
     (case signature of
        Inl (GoPanic m) \<Rightarrow> Inl (GoPanic m)
      | Inl _ \<Rightarrow> Inl (Sentinel ErrSignatureRandomness)
      | Inr s \<Rightarrow> (case contextError ctx k of Some err \<Rightarrow> Inl err | None \<Rightarrow> Inr s))"

definition incompatible :: "'a res" where
  "incompatible = Inl (Sentinel ErrIncompatibleKey)"

definition unsupported :: "Algorithm \<Rightarrow> 'a res" where
  "unsupported algorithm = Inl (Errorf ''%w: %s'' [Sentinel ErrUnsupportedSignatureAlgorithm] [NewErr algorithm])"

text \<open>The \<^verbatim>\<open>switch\<close> of \<^verbatim>\<open>Sign\<close>: \<open>Inl\<close> is an immediate return, \<open>Inr\<close> the pair (signature, err) for the end.\<close>

definition signPrimitive :: "hashes \<Rightarrow> crypto \<Rightarrow> nat \<Rightarrow> Algorithm \<Rightarrow> gokey \<Rightarrow> bytes \<Rightarrow> bytes res res" where
  "signPrimitive H P rnd algorithm key base =
     (if algorithm = RSAPSSSHA512 then
        (case key of
           KRSAPrivate (Some k) \<Rightarrow>
             if validRSAPrivateKey P (Some k) then Inr (SignPSS P rnd k (Sum512 H base)) else incompatible
         | _ \<Rightarrow> incompatible)
      else if algorithm = RSAV15SHA256 then
        (case key of
           KRSAPrivate (Some k) \<Rightarrow>
             if validRSAPrivateKey P (Some k) then Inr (SignPKCS1v15 P k (Sum256 H base)) else incompatible
         | _ \<Rightarrow> incompatible)
      else if algorithm = HMACSHA256 then
        (case key of
           KHMAC material \<Rightarrow>
             if validHMACKey material then Inr (Inr (hmacSHA256 P ([] @ material) base)) else incompatible
         | _ \<Rightarrow> incompatible)
      else if algorithm = ECDSAP256SHA256 then
        (case key of
           KECDSAPrivate (Some k) \<Rightarrow>
             (case validECDSAPrivateKey P (Some k) P256 of
                Inl p \<Rightarrow> Inl p
              | Inr ok \<Rightarrow> if ok then Inr (signECDSA P rnd k (Sum256 H base) 32) else incompatible)
         | _ \<Rightarrow> incompatible)
      else if algorithm = ECDSAP384SHA384 then
        (case key of
           KECDSAPrivate (Some k) \<Rightarrow>
             (case validECDSAPrivateKey P (Some k) P384 of
                Inl p \<Rightarrow> Inl p
              | Inr ok \<Rightarrow> if ok then Inr (signECDSA P rnd k (Sum384 H base) 48) else incompatible)
         | _ \<Rightarrow> incompatible)
      else if algorithm = Ed25519 then
        (case key of
           KEd25519Private k \<Rightarrow>
             if validEd25519PrivateKey P k then Inr (Inr (ed25519Sign P ([] @ k) base)) else incompatible
         | _ \<Rightarrow> incompatible)
      else unsupported algorithm)"

definition Sign ::
  "hashes \<Rightarrow> crypto \<Rightarrow> nat \<Rightarrow> gocontext \<Rightarrow> nat \<Rightarrow> Algorithm \<Rightarrow> gokey \<Rightarrow> bytes \<Rightarrow> bytes res" where
  "Sign H P rnd ctx k algorithm key signatureBase =
     (case contextError ctx k of
        Some err \<Rightarrow> Inl err
      | None \<Rightarrow>
          (case signPrimitive H P rnd algorithm key signatureBase of
             Inl err \<Rightarrow> Inl err
           | Inr signature \<Rightarrow> finishSignature ctx (k + 1) signature))"

text \<open>The \<^verbatim>\<open>switch\<close> of \<^verbatim>\<open>Verify\<close>: \<open>Inl\<close> is an immediate return, \<open>Inr\<close> the value of \<^verbatim>\<open>valid\<close>.\<close>

definition verifyPrimitive :: "hashes \<Rightarrow> crypto \<Rightarrow> Algorithm \<Rightarrow> gokey \<Rightarrow> bytes \<Rightarrow> bytes \<Rightarrow> bool res" where
  "verifyPrimitive H P algorithm key base signature =
     (if algorithm = RSAPSSSHA512 then
        (case key of
           KRSAPublic (Some k) \<Rightarrow>
             if \<not> validRSAPublicKey (Some k) then incompatible
             else if \<not> validRSASignatureSize k signature then Inl (Sentinel ErrInvalidSignatureValue)
             else Inr (VerifyPSS P k (Sum512 H base) signature)
         | _ \<Rightarrow> incompatible)
      else if algorithm = RSAV15SHA256 then
        (case key of
           KRSAPublic (Some k) \<Rightarrow>
             if \<not> validRSAPublicKey (Some k) then incompatible
             else if \<not> validRSASignatureSize k signature then Inl (Sentinel ErrInvalidSignatureValue)
             else Inr (VerifyPKCS1v15 P k (Sum256 H base) signature)
         | _ \<Rightarrow> incompatible)
      else if algorithm = HMACSHA256 then
        (case key of
           KHMAC material \<Rightarrow>
             if \<not> validHMACKey material then incompatible
             else
               let expected = hmacSHA256 P ([] @ material) base in
               Inr (length signature = length expected \<and> ConstantTimeCompare signature expected = 1)
         | _ \<Rightarrow> incompatible)
      else if algorithm = ECDSAP256SHA256 then
        (case key of
           KECDSAPublic (Some k) \<Rightarrow>
             (case validECDSAPublicKey P (Some k) P256 of
                Inl p \<Rightarrow> Inl p
              | Inr ok \<Rightarrow> if ok then Inr (verifyECDSA P k (Sum256 H base) signature 32) else incompatible)
         | _ \<Rightarrow> incompatible)
      else if algorithm = ECDSAP384SHA384 then
        (case key of
           KECDSAPublic (Some k) \<Rightarrow>
             (case validECDSAPublicKey P (Some k) P384 of
                Inl p \<Rightarrow> Inl p
              | Inr ok \<Rightarrow> if ok then Inr (verifyECDSA P k (Sum384 H base) signature 48) else incompatible)
         | _ \<Rightarrow> incompatible)
      else if algorithm = Ed25519 then
        (case key of
           KEd25519Public k \<Rightarrow>
             if length k \<noteq> 32 then incompatible
             else Inr (length signature = 64 \<and> ed25519Verify P ([] @ k) base signature)
         | _ \<Rightarrow> incompatible)
      else unsupported algorithm)"

definition Verify ::
  "hashes \<Rightarrow> crypto \<Rightarrow> gocontext \<Rightarrow> nat \<Rightarrow> Algorithm \<Rightarrow> gokey \<Rightarrow> bytes \<Rightarrow> bytes \<Rightarrow> unit res" where
  "Verify H P ctx k algorithm key signatureBase signature =
     (case contextError ctx k of
        Some err \<Rightarrow> Inl err
      | None \<Rightarrow>
          (case verifyPrimitive H P algorithm key signatureBase signature of
             Inl err \<Rightarrow> Inl err
           | Inr valid \<Rightarrow>
               (case contextError ctx (k + 1) of
                  Some err \<Rightarrow> Inl err
                | None \<Rightarrow> if \<not> valid then Inl (Sentinel ErrInvalidSignatureValue) else Inr ())))"

section \<open>Laws of the encodings\<close>

lemma length_bigEndian [simp]: "length (bigEndian n x) = n"
  by (induction n x rule: bigEndian.induct) auto

lemma SetBytes_snoc: "SetBytes (b @ [c]) = 256 * SetBytes b + byte c"
  by (simp add: SetBytes_def)

lemma SetBytes_bigEndian: "x < 256 ^ n \<Longrightarrow> SetBytes (bigEndian n x) = x"
proof (induction n arbitrary: x)
  case 0
  then show ?case by (simp add: SetBytes_def)
next
  case (Suc n)
  have "x div 256 < 256 ^ n" using Suc.prems by (simp add: less_mult_imp_div_less mult.commute)
  with Suc.IH have "SetBytes (bigEndian (Suc n) x) = 256 * (x div 256) + x mod 256"
    by (simp add: SetBytes_snoc)
  then show ?case by simp
qed

lemma FillBytes_ok: "FillBytes n x = Inr b \<Longrightarrow> length b = n \<and> SetBytes b = x"
  by (auto simp: FillBytes_def SetBytes_bigEndian split: if_splits)

lemma verify_signECDSA:
  assumes "\<And>r s. ecdsaSign P rnd key d = Inr (r, s) \<Longrightarrow> ecdsaVerify P (ecPublic key) d r s"
    "signECDSA P rnd key d n = Inr sig"
  shows "verifyECDSA P (ecPublic key) d sig n"
proof -
  obtain r s rb sb where e: "ecdsaSign P rnd key d = Inr (r, s)" "FillBytes n r = Inr rb" "FillBytes n s = Inr sb"
    "sig = rb @ sb"
    using assms(2) by (auto simp: signECDSA_def split: sum.splits prod.splits)
  then show ?thesis
    using FillBytes_ok [OF e(2)] FillBytes_ok [OF e(3)] assms(1) by (simp add: verifyECDSA_def)
qed

section \<open>Correctness of the primitives\<close>

text \<open>What a signer and a verifier share: the verification key of a signing key.\<close>

definition publicOf :: "gokey \<Rightarrow> gokey" where
  "publicOf key =
     (case key of
        KRSAPrivate (Some k) \<Rightarrow> KRSAPublic (Some (rsaPublic k))
      | KECDSAPrivate (Some k) \<Rightarrow> KECDSAPublic (Some (ecPublic k))
      | KEd25519Private k \<Rightarrow> KEd25519Public (drop 32 k)
      | _ \<Rightarrow> key)"

text \<open>
  The documented behaviour of the crypto packages: each verifier accepts what its signer produced with
  the matching key, an RSA signature has the size of the modulus, an Ed25519 signature 64 bytes.
\<close>

definition primitivesCorrect :: "crypto \<Rightarrow> bool" where
  "primitivesCorrect P \<longleftrightarrow>
     (\<forall>rnd k d s. SignPSS P rnd k d = Inr s \<longrightarrow> VerifyPSS P (rsaPublic k) d s \<and> go_len s = rsaKeySize (rsaPublic k)) \<and>
     (\<forall>k d s. SignPKCS1v15 P k d = Inr s \<longrightarrow> VerifyPKCS1v15 P (rsaPublic k) d s \<and> go_len s = rsaKeySize (rsaPublic k)) \<and>
     (\<forall>rnd k d r s. ecdsaSign P rnd k d = Inr (r, s) \<longrightarrow> ecdsaVerify P (ecPublic k) d r s) \<and>
     (\<forall>k m. validEd25519PrivateKey P k \<longrightarrow>
        ed25519Verify P (drop 32 k) m (ed25519Sign P k m) \<and> length (ed25519Sign P k m) = 64)"

lemma rsa_sizes:
  "validRSAPublicKey (Some k) \<Longrightarrow> go_len s = rsaKeySize k \<Longrightarrow> validRSASignatureSize k s"
  by (auto simp: validRSAPublicKey_def validRSAModulus_def validRSASignatureSize_def rsaKeySize_def
      maxRSAModulusBits_def maxRSASignatureSize_def split: option.splits if_splits)

lemma algorithms_distinct [simp]:
  "RSAPSSSHA512 \<noteq> RSAV15SHA256" "RSAPSSSHA512 \<noteq> HMACSHA256" "RSAPSSSHA512 \<noteq> ECDSAP256SHA256"
  "RSAPSSSHA512 \<noteq> ECDSAP384SHA384" "RSAPSSSHA512 \<noteq> Ed25519" "RSAV15SHA256 \<noteq> HMACSHA256"
  "RSAV15SHA256 \<noteq> ECDSAP256SHA256" "RSAV15SHA256 \<noteq> ECDSAP384SHA384" "RSAV15SHA256 \<noteq> Ed25519"
  "HMACSHA256 \<noteq> ECDSAP256SHA256" "HMACSHA256 \<noteq> ECDSAP384SHA384" "HMACSHA256 \<noteq> Ed25519"
  "ECDSAP256SHA256 \<noteq> ECDSAP384SHA384" "ECDSAP256SHA256 \<noteq> Ed25519" "ECDSAP384SHA384 \<noteq> Ed25519"
  by (simp_all add: algorithm_names)

lemmas algorithms_distinct' [simp] = algorithms_distinct [symmetric]

lemma validECDSAPrivate_public:
  "validECDSAPrivateKey P (Some k) c = Inr True \<Longrightarrow> validECDSAPublicKey P (Some (ecPublic k)) c = Inr True"
  by (auto simp: validECDSAPrivateKey_def split: if_splits sum.splits bool.splits option.splits)

lemma sign_verify_primitive:
  assumes "primitivesCorrect P" "signPrimitive H P rnd a key base = Inr (Inr sig)"
  shows "verifyPrimitive H P a (publicOf key) base sig = Inr True"
proof -
  have rsa: "validRSAPrivateKey P (Some k) \<Longrightarrow> validRSAPublicKey (Some (rsaPublic k))" for k
    by (simp add: validRSAPrivateKey_def)
  consider "a = RSAPSSSHA512" | "a = RSAV15SHA256" | "a = HMACSHA256" | "a = ECDSAP256SHA256"
    | "a = ECDSAP384SHA384" | "a = Ed25519"
    using assms(2) by (auto simp: signPrimitive_def unsupported_def split: if_splits)
  then show ?thesis
  proof cases
    case 1
    then obtain k where "key = KRSAPrivate (Some k)" "validRSAPrivateKey P (Some k)"
      "SignPSS P rnd k (Sum512 H base) = Inr sig"
      using assms(2) by (auto simp: signPrimitive_def incompatible_def split: gokey.splits option.splits if_splits)
    with 1 assms(1) show ?thesis
      by (simp add: verifyPrimitive_def publicOf_def primitivesCorrect_def rsa rsa_sizes)
  next
    case 2
    then obtain k where "key = KRSAPrivate (Some k)" "validRSAPrivateKey P (Some k)"
      "SignPKCS1v15 P k (Sum256 H base) = Inr sig"
      using assms(2) by (auto simp: signPrimitive_def incompatible_def split: gokey.splits option.splits if_splits)
    with 2 assms(1) show ?thesis
      by (simp add: verifyPrimitive_def publicOf_def primitivesCorrect_def rsa rsa_sizes)
  next
    case 3
    then show ?thesis
      using assms(2) by (auto simp: signPrimitive_def verifyPrimitive_def publicOf_def incompatible_def
          ConstantTimeCompare_def Let_def split: gokey.splits if_splits)
  next
    case 4
    then obtain k where k: "key = KECDSAPrivate (Some k)" "validECDSAPrivateKey P (Some k) P256 = Inr True"
      "signECDSA P rnd k (Sum256 H base) 32 = Inr sig"
      using assms(2) by (auto simp: signPrimitive_def incompatible_def split: gokey.splits option.splits if_splits sum.splits)
    then have "verifyECDSA P (ecPublic k) (Sum256 H base) sig 32"
      using assms(1) by (intro verify_signECDSA) (auto simp: primitivesCorrect_def)
    with 4 k validECDSAPrivate_public [OF k(2)] show ?thesis by (simp add: verifyPrimitive_def publicOf_def)
  next
    case 5
    then obtain k where k: "key = KECDSAPrivate (Some k)" "validECDSAPrivateKey P (Some k) P384 = Inr True"
      "signECDSA P rnd k (Sum384 H base) 48 = Inr sig"
      using assms(2) by (auto simp: signPrimitive_def incompatible_def split: gokey.splits option.splits if_splits sum.splits)
    then have "verifyECDSA P (ecPublic k) (Sum384 H base) sig 48"
      using assms(1) by (intro verify_signECDSA) (auto simp: primitivesCorrect_def)
    with 5 k validECDSAPrivate_public [OF k(2)] show ?thesis by (simp add: verifyPrimitive_def publicOf_def)
  next
    case 6
    then obtain k where k: "key = KEd25519Private k" "validEd25519PrivateKey P k" "sig = ed25519Sign P k base"
      using assms(2) by (auto simp: signPrimitive_def incompatible_def split: gokey.splits if_splits)
    then have "length (drop 32 k) = 32" by (simp add: validEd25519PrivateKey_def split: if_splits)
    with 6 k assms(1) show ?thesis
      by (simp add: verifyPrimitive_def publicOf_def primitivesCorrect_def)
  qed
qed

lemma Sign_ok:
  "Sign H P rnd ctx k a key base = Inr sig \<Longrightarrow>
   signPrimitive H P rnd a key base = Inr (Inr sig) \<and> contextError ctx k = None \<and> contextError ctx (k + 1) = None"
  by (auto simp: Sign_def finishSignature_def split: option.splits sum.splits goerr.splits)

lemma Verify_ok_iff:
  "Verify H P ctx k a key base sig = Inr () \<longleftrightarrow>
   verifyPrimitive H P a key base sig = Inr True \<and> contextError ctx k = None \<and> contextError ctx (k + 1) = None"
  by (auto simp: Verify_def split: option.splits sum.splits)

text \<open>Which key types an algorithm verifies with.\<close>

definition verificationKeyFor :: "Algorithm \<Rightarrow> gokey \<Rightarrow> bool" where
  "verificationKeyFor a key =
     (case key of
        KRSAPublic (Some k) \<Rightarrow> (a = RSAPSSSHA512 \<or> a = RSAV15SHA256) \<and> validRSAPublicKey (Some k)
      | KHMAC material \<Rightarrow> a = HMACSHA256 \<and> validHMACKey material
      | KECDSAPublic (Some k) \<Rightarrow> a = ECDSAP256SHA256 \<and> ecCurve k = P256 \<or> a = ECDSAP384SHA384 \<and> ecCurve k = P384
      | KEd25519Public k \<Rightarrow> a = Ed25519 \<and> length k = 32
      | _ \<Rightarrow> False)"

lemma verifyPrimitive_key: "verifyPrimitive H P a key base sig = Inr b \<Longrightarrow> verificationKeyFor a key"
  by (cases key)
    (auto simp: verifyPrimitive_def verificationKeyFor_def incompatible_def unsupported_def validECDSAPublicKey_def
      split: if_splits option.splits sum.splits)

section \<open>Example\<close>

definition exampleCrypto :: crypto where
  "exampleCrypto =
     \<lparr>rsaValidate = (\<lambda>_. False), SignPSS = (\<lambda>_ _ _. Inl (NewErr ''rsa'')), VerifyPSS = (\<lambda>_ _ _. False),
      SignPKCS1v15 = (\<lambda>_ _. Inl (NewErr ''rsa'')), VerifyPKCS1v15 = (\<lambda>_ _ _. False),
      hmacSHA256 = (\<lambda>k m. take 4 k @ m),
      ecdsaSign = (\<lambda>_ _ _. Inr (1, 2)), ecdsaVerify = (\<lambda>_ _ r s. r = 1 \<and> s = 2),
      ecdsaPrivateBytes = (\<lambda>_. Panics), ecdsaPublicBytes = (\<lambda>_. Panics),
      ParseRawPrivateKey = (\<lambda>_ _. Inl (NewErr ''ec'')), ParseUncompressedPublicKey = (\<lambda>_ _. Inl (NewErr ''ec'')),
      ed25519Sign = (\<lambda>k m. take 64 (m @ replicate 64 CHR ''s'')),
      ed25519Verify = (\<lambda>_ m s. s = take 64 (m @ replicate 64 CHR ''s'')), NewKeyFromSeed = (\<lambda>s. s @ s)\<rparr>"

lemma exampleCrypto_correct: "primitivesCorrect exampleCrypto"
  by (auto simp: primitivesCorrect_def exampleCrypto_def)

definition exampleSecret :: bytes where
  "exampleSecret = replicate 32 CHR ''k''"

definition background :: gocontext where
  "background = Some (\<lambda>_. None)"

lemma exampleHMAC:
  "Sign exampleHashes exampleCrypto 0 background 0 HMACSHA256 (KHMAC exampleSecret) ''m'' = Inr ''kkkkm''"
  by (simp add: Sign_def background_def contextError_def signPrimitive_def validHMACKey_def exampleSecret_def
      minHMACKeySize_def maxHMACKeySize_def exampleCrypto_def finishSignature_def numeral_eq_Suc)

section \<open>Properties\<close>



text \<open>A verification never succeeds with the wrong kind of key: success implies that the key has the
  exact public (or shared) type, curve and size the algorithm requires, so RSA and ECDSA private keys,
  nil keys, out-of-range RSA moduli and unknown algorithms are all refused; and the context was
  live before and after the primitive ran.\<close>

theorem verify_requires_matching_key:
  assumes "Verify H P ctx k a key base sig = Inr ()"
  shows "verificationKeyFor a key \<and> contextError ctx k = None \<and> contextError ctx (k + 1) = None"
  using assms verifyPrimitive_key by (auto simp: Verify_ok_iff)

theorem verify_requires_matching_key_witness:
  "Verify exampleHashes exampleCrypto background 0 HMACSHA256 (KHMAC exampleSecret) ''m'' ''kkkkm'' = Inr () \<and>
   verificationKeyFor HMACSHA256 (KHMAC exampleSecret)"
proof -
  have "Verify exampleHashes exampleCrypto background 0 HMACSHA256 (KHMAC exampleSecret) ''m'' ''kkkkm'' = Inr ()"
    by (simp add: Verify_ok_iff background_def contextError_def verifyPrimitive_def validHMACKey_def exampleSecret_def
        minHMACKeySize_def maxHMACKeySize_def exampleCrypto_def numeral_eq_Suc ConstantTimeCompare_def)
  with verify_requires_matching_key [OF this] show ?thesis by simp
qed

end
