(* ===== verification/FormEncoding.thy ===== *)
theory FormEncoding
  imports Limits
begin

text \<open>
  The \<^verbatim>\<open>@query-param\<close> canonicaliser of \<^verbatim>\<open>message.go\<close>: the form decoder, the UTF-8 decoder with
  replacement, the percent encoder and the selection of exactly one named parameter.
\<close>

section \<open>Percent encoding\<close>

definition hexValue :: "char \<Rightarrow> nat option" where
  "hexValue c =
     (if isDigit c then Some (byte c - 48)
      else if 97 \<le> byte c \<and> byte c \<le> 102 then Some (byte c - 97 + 10)
      else if 65 \<le> byte c \<and> byte c \<le> 70 then Some (byte c - 65 + 10)
      else None)"

definition formUnreserved :: "char \<Rightarrow> bool" where
  "formUnreserved c \<longleftrightarrow> isLower c \<or> isUpper c \<or> isDigit c \<or> c \<in> {CHR ''*'', CHR ''-'', CHR ''.'', CHR ''_''}"

definition upperHex :: "nat \<Rightarrow> char" where
  "upperHex n = ''0123456789ABCDEF'' ! n"

fun formPercentEncode :: "string \<Rightarrow> string" where
  "formPercentEncode [] = []"
| "formPercentEncode (c # cs) =
     (if formUnreserved c then c # formPercentEncode cs
      else CHR ''%'' # upperHex (byte c div 16) # upperHex (byte c mod 16) # formPercentEncode cs)"

text \<open>The byte loop of \<^verbatim>\<open>decodeFormComponent\<close>; \<^verbatim>\<open>high<<4|low\<close> of two nibbles is \<open>16 * high + low\<close>.\<close>

fun decodeFormBytes :: "string \<Rightarrow> bytes" where
  "decodeFormBytes [] = []"
| "decodeFormBytes (c # cs) =
     (if c = CHR ''+'' then CHR '' '' # decodeFormBytes cs
      else if c = CHR ''%'' \<and> length cs \<ge> 2 then
        (case (hexValue (cs ! 0), hexValue (cs ! 1)) of
           (Some high, Some low) \<Rightarrow> char_of (16 * high + low) # decodeFormBytes (drop 2 cs)
         | _ \<Rightarrow> c # decodeFormBytes cs)
      else c # decodeFormBytes cs)"

section \<open>UTF-8\<close>

definition utf8Sequence :: "char \<Rightarrow> nat \<times> nat \<times> nat" where
  "utf8Sequence first =
     (let b = byte first in
      if 0xc2 \<le> b \<and> b \<le> 0xdf then (2, 0x80, 0xbf)
      else if b = 0xe0 then (3, 0xa0, 0xbf)
      else if 0xe1 \<le> b \<and> b \<le> 0xec \<or> 0xee \<le> b \<and> b \<le> 0xef then (3, 0x80, 0xbf)
      else if b = 0xed then (3, 0x80, 0x9f)
      else if b = 0xf0 then (4, 0x90, 0xbf)
      else if 0xf1 \<le> b \<and> b \<le> 0xf3 then (4, 0x80, 0xbf)
      else if b = 0xf4 then (4, 0x80, 0x8f)
      else (0, 0, 0))"

text \<open>
  \<^verbatim>\<open>utf8.DecodeRune\<close> on a sequence of known width, and \<^verbatim>\<open>strings.Builder.WriteRune\<close>, which writes the
  replacement character for a surrogate or an out-of-range rune.
\<close>

definition RuneError :: nat where
  "RuneError = 0xFFFD"

fun decodeRune :: "bytes \<Rightarrow> nat" where
  "decodeRune [a, b] = (byte a mod 32) * 64 + byte b mod 64"
| "decodeRune [a, b, c] = (byte a mod 16) * 4096 + (byte b mod 64) * 64 + byte c mod 64"
| "decodeRune [a, b, c, d] =
     (byte a mod 8) * 262144 + (byte b mod 64) * 4096 + (byte c mod 64) * 64 + byte d mod 64"
| "decodeRune s = RuneError"

definition writeRune :: "nat \<Rightarrow> bytes" where
  "writeRune r =
     (if r < 0x80 then [char_of r]
      else if r < 0x800 then [char_of (0xC0 + r div 64), char_of (0x80 + r mod 64)]
      else if 0xD800 \<le> r \<and> r \<le> 0xDFFF \<or> 0x10FFFF < r then [CHR 0xEF, CHR 0xBF, CHR 0xBD]
      else if r < 0x10000 then
        [char_of (0xE0 + r div 4096), char_of (0x80 + r div 64 mod 64), char_of (0x80 + r mod 64)]
      else
        [char_of (0xF0 + r div 262144), char_of (0x80 + r div 4096 mod 64),
         char_of (0x80 + r div 64 mod 64), char_of (0x80 + r mod 64)])"

text \<open>The continuation loop over \<^verbatim>\<open>remaining[1:available]\<close>, returning \<^verbatim>\<open>valid\<close> and \<^verbatim>\<open>consumed\<close>.\<close>

fun continuation_loop :: "nat \<Rightarrow> nat \<Rightarrow> nat \<Rightarrow> bool \<Rightarrow> nat \<Rightarrow> bytes \<Rightarrow> bool \<times> nat" where
  "continuation_loop offset secondMin secondMax valid consumed [] = (valid, consumed)"
| "continuation_loop offset secondMin secondMax valid consumed (c # cs) =
     (let minimum = (if offset = 0 then secondMin else 0x80);
          maximum = (if offset = 0 then secondMax else 0xbf)
      in if byte c < minimum \<or> byte c > maximum then (False, consumed)
         else continuation_loop (offset + 1) secondMin secondMax valid (offset + 2) cs)"

lemma continuation_consumed:
  "0 < consumed \<Longrightarrow> 0 < snd (continuation_loop offset mn mx valid consumed cs)"
  by (induction offset mn mx valid consumed cs rule: continuation_loop.induct) (auto simp: Let_def)

text \<open>One iteration: what is written and what remains.\<close>

definition utf8Step :: "bytes \<Rightarrow> bytes \<times> bytes" where
  "utf8Step remaining =
     (if byte (hd remaining) < 0x80 then ([hd remaining], tl remaining)
      else case utf8Sequence (hd remaining) of (width, secondMin, secondMax) \<Rightarrow>
        if width = 0 then (writeRune RuneError, tl remaining)
        else
          let available = min width (length remaining) in
          case continuation_loop 0 secondMin secondMax (available = width) 1
                 (take (available - 1) (tl remaining)) of (valid, consumed) \<Rightarrow>
            if valid then (writeRune (decodeRune (take width remaining)), drop width remaining)
            else (writeRune RuneError, drop consumed remaining))"

lemma utf8Step_shrinks: "s \<noteq> [] \<Longrightarrow> length (snd (utf8Step s)) < length s"
  using continuation_consumed [of 1 0]
  by (auto simp: utf8Step_def Let_def split: prod.splits)
    (metis diff_less less_one length_greater_0_conv snd_conv zero_less_one)+

function decodeUTF8WithReplacement :: "bytes \<Rightarrow> string" where
  "decodeUTF8WithReplacement remaining =
     (if remaining = [] then []
      else fst (utf8Step remaining) @ decodeUTF8WithReplacement (snd (utf8Step remaining)))"
  by pat_completeness auto
termination
  by (relation "measure length") (auto simp: utf8Step_shrinks)

declare decodeUTF8WithReplacement.simps [simp del]

definition decodeFormComponent :: "string \<Rightarrow> string" where
  "decodeFormComponent value = decodeUTF8WithReplacement (decodeFormBytes value)"

section \<open>Selection\<close>

text \<open>\<^verbatim>\<open>strings.Cut(pair, "=")\<close>, with an empty value when there is no separator.\<close>

definition cutPair :: "string \<Rightarrow> string \<times> string" where
  "cutPair pair = (takeWhile (\<lambda>c. c \<noteq> CHR ''='') pair, drop 1 (dropWhile (\<lambda>c. c \<noteq> CHR ''='') pair))"

fun queryParameter_loop :: "string \<Rightarrow> string \<Rightarrow> nat \<Rightarrow> string list \<Rightarrow> string \<times> nat" where
  "queryParameter_loop encodedName found foundCount [] = (found, foundCount)"
| "queryParameter_loop encodedName found foundCount (pair # pairs) =
     (if pair \<noteq> [] \<and> formPercentEncode (decodeFormComponent (fst (cutPair pair))) = encodedName
      then queryParameter_loop encodedName (formPercentEncode (decodeFormComponent (snd (cutPair pair))))
             (foundCount + 1) pairs
      else queryParameter_loop encodedName found foundCount pairs)"

definition queryParameter :: "string \<Rightarrow> string \<Rightarrow> int \<Rightarrow> string res" where
  "queryParameter rawQuery encodedName maxBytes =
     (if rawQuery = [] then Inl (NewErr ''named query parameter is absent'')
      else if go_len rawQuery > go_div maxBytes 3 then Inl (Sentinel ErrSignatureBaseLimit)
      else case queryParameter_loop encodedName [] 0 (split CHR ''&'' rawQuery) of (found, foundCount) \<Rightarrow>
        if foundCount \<noteq> 1 then Inl (NewErr ''named query parameter is absent or repeated'')
        else if go_len found > maxBytes then Inl (Sentinel ErrSignatureBaseLimit)
        else Inr found)"

section \<open>Lemmas\<close>

lemma upperHex_value_all: "list_all (\<lambda>n. hexValue (upperHex n) = Some n) [0..<16]"
  by code_simp

lemma hexValue_upperHex: "n < 16 \<Longrightarrow> hexValue (upperHex n) = Some n"
  using upperHex_value_all unfolding list_all_iff by simp

lemma percent_reserved: "\<not> formUnreserved CHR ''%''" "\<not> formUnreserved CHR ''+''"
  by (simp_all add: formUnreserved_def isLower_def isUpper_def isDigit_def)

lemma decodeFormBytes_encode: "decodeFormBytes (formPercentEncode s) = s"
proof (induction s)
  case (Cons c cs)
  show ?case
  proof (cases "formUnreserved c")
    case True
    then have "c \<noteq> CHR ''%''" "c \<noteq> CHR ''+''" using percent_reserved by metis+
    with True Cons show ?thesis by simp
  next
    case False
    have "byte c div 16 < 16" "byte c mod 16 < 16" using byte_less [of c] by linarith+
    then have "hexValue (upperHex (byte c div 16)) = Some (byte c div 16)"
      "hexValue (upperHex (byte c mod 16)) = Some (byte c mod 16)" by (simp_all only: hexValue_upperHex)
    moreover have "char_of (16 * (byte c div 16) + byte c mod 16) = c"
      by (simp only: mult_div_mod_eq char_of_char)
    ultimately show ?thesis using False Cons by simp
  qed
qed simp

lemma formPercentEncode_inj: "formPercentEncode s = formPercentEncode t \<Longrightarrow> s = t"
  by (metis decodeFormBytes_encode)

lemma length_formPercentEncode: "length s \<le> length (formPercentEncode s) \<and> length (formPercentEncode s) \<le> 3 * length s"
  by (induction s) auto

section \<open>Well-formed UTF-8\<close>

definition isContinuation :: "char \<Rightarrow> bool" where
  "isContinuation c \<longleftrightarrow> 0x80 \<le> byte c \<and> byte c \<le> 0xbf"

text \<open>One encoded scalar value, by the table of RFC 3629.\<close>

definition scalarEncoding :: "bytes \<Rightarrow> bool" where
  "scalarEncoding s =
     (case s of
        [a] \<Rightarrow> byte a < 0x80
      | [a, b] \<Rightarrow> 0xc2 \<le> byte a \<and> byte a \<le> 0xdf \<and> isContinuation b
      | [a, b, c] \<Rightarrow>
          0xe0 \<le> byte a \<and> byte a \<le> 0xef \<and> isContinuation b \<and> isContinuation c \<and>
          (byte a = 0xe0 \<longrightarrow> 0xa0 \<le> byte b) \<and> (byte a = 0xed \<longrightarrow> byte b \<le> 0x9f)
      | [a, b, c, d] \<Rightarrow>
          0xf0 \<le> byte a \<and> byte a \<le> 0xf4 \<and> isContinuation b \<and> isContinuation c \<and> isContinuation d \<and>
          (byte a = 0xf0 \<longrightarrow> 0x90 \<le> byte b) \<and> (byte a = 0xf4 \<longrightarrow> byte b \<le> 0x8f)
      | _ \<Rightarrow> False)"

inductive validUTF8 :: "bytes \<Rightarrow> bool" where
  nil: "validUTF8 []"
| scalar: "scalarEncoding s \<Longrightarrow> validUTF8 t \<Longrightarrow> validUTF8 (s @ t)"

lemma div64: "z < 64 \<Longrightarrow> (k * 64 + z) div 64 = (k::nat)"
  and mod64: "z < 64 \<Longrightarrow> (k * 64 + z) mod 64 = (z::nat)"
  by simp_all

lemma continuation_obtain:
  assumes "isContinuation c"
  obtains y where "byte c = 128 + y" "y < 64" "byte c mod 64 = y" "c = char_of (128 + y)"
proof -
  from assms obtain y where y: "byte c = 128 + y" "y < 64"
    using le_Suc_ex [of 128 "byte c"] by (auto simp: isContinuation_def)
  moreover have "byte c mod 64 = y" using y by (simp add: mod_add_eq [symmetric, of 128])
  moreover have "c = char_of (128 + y)" using y(1) by (metis char_of_char)
  ultimately show ?thesis using that by blast
qed

lemma leader_obtain:
  assumes "m \<le> byte c" "byte c < m + n" "m mod n = 0"
  obtains x where "byte c = m + x" "x < n" "byte c mod n = x" "c = char_of (m + x)"
proof -
  from assms obtain x where x: "byte c = m + x" "x < n" using le_Suc_ex [of m "byte c"] by auto
  moreover have "byte c mod n = x" using x assms(3) by (simp add: mod_add_eq [symmetric, of m])
  moreover have "c = char_of (m + x)" using x(1) by (metis char_of_char)
  ultimately show ?thesis using that by blast
qed

lemma writeRune_decodeRune_2:
  assumes "scalarEncoding [a, b]"
  shows "writeRune (decodeRune [a, b]) = [a, b]"
proof -
  obtain y where y: "y < 64" "byte b mod 64 = y" "b = char_of (128 + y)"
    using assms continuation_obtain [of b] by (auto simp: scalarEncoding_def)
  obtain x where x: "byte a = 192 + x" "x < 32" "byte a mod 32 = x" "a = char_of (192 + x)"
    using assms leader_obtain [of 192 a 32] by (auto simp: scalarEncoding_def)
  have r: "decodeRune [a, b] = x * 64 + y" using x y by simp
  have "2 \<le> x" using assms x(1) by (auto simp: scalarEncoding_def)
  then have "\<not> x * 64 + y < 0x80" "x * 64 + y < 0x800" using x(2) y(1) by linarith+
  then show ?thesis unfolding r writeRune_def div64 [OF y(1)] mod64 [OF y(1)] using x(4) y(3) by simp
qed

lemma writeRune_decodeRune_3:
  assumes "scalarEncoding [a, b, c]"
  shows "writeRune (decodeRune [a, b, c]) = [a, b, c]"
proof -
  obtain y where y: "byte b = 128 + y" "y < 64" "byte b mod 64 = y" "b = char_of (128 + y)"
    using assms continuation_obtain [of b] by (auto simp: scalarEncoding_def)
  obtain z where z: "z < 64" "byte c mod 64 = z" "c = char_of (128 + z)"
    using assms continuation_obtain [of c] by (auto simp: scalarEncoding_def)
  obtain x where x: "byte a = 224 + x" "x < 16" "byte a mod 16 = x" "a = char_of (224 + x)"
    using assms leader_obtain [of 224 a 16] by (auto simp: scalarEncoding_def)
  define r where "r = (x * 64 + y) * 64 + z"
  have dec: "decodeRune [a, b, c] = r" using x(3) y(3) z(2) by (simp add: r_def)
  have bounds: "x = 0 \<Longrightarrow> 32 \<le> y" "x = 13 \<Longrightarrow> y < 32"
    using assms x(1) y(1) by (auto simp: scalarEncoding_def)
  have "0x800 \<le> r" using bounds(1) by (cases "x = 0") (auto simp: r_def)
  moreover have "\<not> (0xD800 \<le> r \<and> r \<le> 0xDFFF)"
    using bounds(2) y(2) z(1) by (cases "x < 13"; cases "x = 13") (auto simp: r_def)
  moreover have "r < 0x10000" using x(2) y(2) z(1) by (simp add: r_def)
  moreover have "r div 4096 = x" "r div 64 mod 64 = y" "r mod 64 = z"
  proof -
    show "r mod 64 = z" unfolding r_def by (rule mod64 [OF z(1)])
    show "r div 64 mod 64 = y" unfolding r_def div64 [OF z(1)] by (rule mod64 [OF y(2)])
    have "r div (64 * 64) = x" unfolding div_mult2_eq r_def div64 [OF z(1)] by (rule div64 [OF y(2)])
    then show "r div 4096 = x" by simp
  qed
  ultimately show ?thesis using x(4) y(4) z(3) unfolding dec writeRune_def by auto
qed


lemma writeRune_decodeRune_4:
  assumes "scalarEncoding [a, b, c, d]"
  shows "writeRune (decodeRune [a, b, c, d]) = [a, b, c, d]"
proof -
  obtain y where y: "byte b = 128 + y" "y < 64" "byte b mod 64 = y" "b = char_of (128 + y)"
    using assms continuation_obtain [of b] by (auto simp: scalarEncoding_def)
  obtain z where z: "z < 64" "byte c mod 64 = z" "c = char_of (128 + z)"
    using assms continuation_obtain [of c] by (auto simp: scalarEncoding_def)
  obtain w where w: "w < 64" "byte d mod 64 = w" "d = char_of (128 + w)"
    using assms continuation_obtain [of d] by (auto simp: scalarEncoding_def)
  have "240 \<le> byte a" "byte a < 240 + 8" using assms by (auto simp: scalarEncoding_def)
  then obtain x where x: "byte a = 240 + x" "byte a mod 8 = x" "a = char_of (240 + x)"
    by (rule leader_obtain) simp_all
  define r where "r = ((x * 64 + y) * 64 + z) * 64 + w"
  have dec: "decodeRune [a, b, c, d] = r" using x(2) y(3) z(2) w(2) by (simp add: r_def)
  have bounds: "x \<le> 4" "x = 0 \<Longrightarrow> 16 \<le> y" "x = 4 \<Longrightarrow> y < 16"
    using assms x(1) y(1) by (auto simp: scalarEncoding_def)
  have "0x10000 \<le> r" using bounds(2) by (cases "x = 0") (auto simp: r_def)
  moreover have "r \<le> 0x10FFFF"
    using bounds(1,3) y(2) z(1) w(1) by (cases "x = 4") (auto simp: r_def)
  moreover have "r div 262144 = x" "r div 4096 mod 64 = y" "r div 64 mod 64 = z" "r mod 64 = w"
  proof -
    show "r mod 64 = w" unfolding r_def by (rule mod64 [OF w(1)])
    show "r div 64 mod 64 = z" unfolding r_def div64 [OF w(1)] by (rule mod64 [OF z(1)])
    have "r div (64 * 64) mod 64 = y"
      unfolding div_mult2_eq r_def div64 [OF w(1)] div64 [OF z(1)] by (rule mod64 [OF y(2)])
    then show "r div 4096 mod 64 = y" by simp
    have "r div (64 * 64 * 64) = x"
      unfolding div_mult2_eq r_def div64 [OF w(1)] div64 [OF z(1)] by (rule div64 [OF y(2)])
    then show "r div 262144 = x" by simp
  qed
  ultimately show ?thesis using x(3) y(4) z(3) w(3) unfolding dec writeRune_def by auto
qed

section \<open>The replacement decoder\<close>

lemma continuation_loop_valid_Suc:
  "fst (continuation_loop (Suc k) mn mx v n cs) = (v \<and> list_all isContinuation cs)"
proof (induction cs arbitrary: k n)
  case (Cons c cs)
  have "fst (continuation_loop (Suc k) mn mx v n (c # cs)) =
      (isContinuation c \<and> fst (continuation_loop (Suc (Suc k)) mn mx v (Suc k + 2) cs))"
    by (auto simp: isContinuation_def Let_def)
  with Cons.IH [of "Suc k" "Suc k + 2"] show ?case by auto
qed simp

lemma continuation_loop_valid:
  "fst (continuation_loop 0 mn mx v n (c # cs)) =
   (v \<and> mn \<le> byte c \<and> byte c \<le> mx \<and> list_all isContinuation cs)"
  using continuation_loop_valid_Suc [of 0 mn mx v "Suc (Suc 0)" cs] by (auto simp: Let_def)

lemma width_cases: "fst (utf8Sequence a) \<in> {0, 2, 3, 4}"
  by (auto simp: utf8Sequence_def Let_def)

text \<open>A complete, in-range sequence is one scalar encoding, and is written back unchanged.\<close>

lemma utf8Sequence_scalar:
  assumes "utf8Sequence a = (w, mn, mx)" "w \<noteq> 0" "length (b # s) = w - 1"
    "mn \<le> byte b" "byte b \<le> mx" "list_all isContinuation s"
  shows "scalarEncoding (a # b # s)"
proof -
  have "w = 2 \<or> w = 3 \<or> w = 4" using width_cases [of a] assms(1,2) by auto
  then consider "s = []" "w = 2" | c where "s = [c]" "w = 3" | c d where "s = [c, d]" "w = 4"
    using assms(3) by (auto simp: length_Suc_conv numeral_2_eq_2)
  then show ?thesis
    using assms byte_less [of a]
    by cases (auto simp: scalarEncoding_def utf8Sequence_def isContinuation_def Let_def split: if_splits)
qed

lemma scalar_utf8Sequence:
  assumes "scalarEncoding (a # b # s)"
  shows "\<exists>mn mx. utf8Sequence a = (length s + 2, mn, mx) \<and> mn \<le> byte b \<and> byte b \<le> mx \<and>
    list_all isContinuation s \<and> 0x80 \<le> byte a"
proof -
  consider "s = []" | c where "s = [c]" | c d where "s = [c, d]"
    using assms by (auto simp: scalarEncoding_def split: list.splits)
  then show ?thesis
    using assms
    by cases (auto simp: scalarEncoding_def utf8Sequence_def isContinuation_def Let_def)
qed

lemma writeRune_decodeRune:
  "scalarEncoding (a # b # s) \<Longrightarrow> writeRune (decodeRune (a # b # s)) = a # b # s"
proof -
  assume e: "scalarEncoding (a # b # s)"
  then consider "s = []" | c where "s = [c]" | c d where "s = [c, d]"
    by (auto simp: scalarEncoding_def split: list.splits)
  then show ?thesis
    using e writeRune_decodeRune_2 writeRune_decodeRune_3 writeRune_decodeRune_4 by cases blast+
qed


text \<open>Each step writes a scalar encoding, and copies it when the input starts with one.\<close>

lemma scalar_replacement: "scalarEncoding (writeRune RuneError)"
  by (simp add: writeRune_def RuneError_def scalarEncoding_def isContinuation_def)

lemma utf8Step_writes_scalar:
  assumes "s \<noteq> []"
  shows "scalarEncoding (fst (utf8Step s))"
proof -
  obtain a t where s: "s = a # t" using assms by (cases s) auto
  obtain w mn mx where q: "utf8Sequence a = (w, mn, mx)" by (cases "utf8Sequence a")
  show ?thesis
  proof (cases "byte a < 0x80 \<or> w = 0")
    case True
    then show ?thesis using s q scalar_replacement
      by (auto simp: utf8Step_def scalarEncoding_def [of "[a]"])
  next
    case False
    define v where "v = min w (length s)"
    obtain valid consumed where c: "continuation_loop 0 mn mx (v = w) 1 (take (v - 1) t) = (valid, consumed)"
      by (cases "continuation_loop 0 mn mx (v = w) 1 (take (v - 1) t)")
    show ?thesis
    proof (cases valid)
      case invalid: False
      then show ?thesis using False s q c scalar_replacement by (simp add: utf8Step_def v_def Let_def)
    next
      case True
      have w: "2 \<le> w" using width_cases [of a] q False by auto
      have "v = w"
      proof (rule ccontr)
        assume "v \<noteq> w"
        then have "\<not> fst (continuation_loop 0 mn mx (v = w) 1 (take (v - 1) t))"
          using continuation_loop_valid [of mn mx False 1] by (cases "take (v - 1) t") auto
        then show False using c True by simp
      qed
      then have len: "w \<le> length s" by (simp add: v_def min_def split: if_splits)
      then obtain b u where t: "take (w - 1) t = b # u" using w s by (cases "take (w - 1) t") auto
      have "length (take (w - 1) t) = w - 1" using len s by simp
      then have "length (b # u) = w - 1" by (simp only: t)
      moreover have "mn \<le> byte b" "byte b \<le> mx" "list_all isContinuation u"
        using c True t \<open>v = w\<close> continuation_loop_valid [of mn mx True 1 b u] by auto
      ultimately have "scalarEncoding (a # b # u)" using utf8Sequence_scalar [OF q] w by simp
      moreover have "take w s = a # b # u" using t s w by (cases w) auto
      ultimately show ?thesis
        using False True s q c \<open>v = w\<close> writeRune_decodeRune [of a b u]
        by (simp add: utf8Step_def v_def Let_def)
    qed
  qed
qed

lemma utf8Step_scalar:
  assumes "scalarEncoding s"
  shows "utf8Step (s @ t) = (s, t)"
proof (cases "length s = 1")
  case True
  then obtain a where "s = [a]" by (auto simp: length_Suc_conv)
  then show ?thesis using assms by (simp add: utf8Step_def scalarEncoding_def)
next
  case False
  then obtain a b u where s: "s = a # b # u"
    using assms by (auto simp: scalarEncoding_def split: list.splits)
  then obtain mn mx where q: "utf8Sequence a = (length u + 2, mn, mx)" "mn \<le> byte b" "byte b \<le> mx"
    "list_all isContinuation u" "0x80 \<le> byte a"
    using scalar_utf8Sequence assms by blast
  have v: "fst (continuation_loop 0 mn mx True 1 (b # u))" unfolding continuation_loop_valid using q by blast
  then obtain consumed where "continuation_loop 0 mn mx True 1 (b # u) = (True, consumed)"
    by (cases "continuation_loop 0 mn mx True 1 (b # u)") auto
  then show ?thesis
    using q s assms writeRune_decodeRune [of a b u] by (simp add: utf8Step_def Let_def del: continuation_loop.simps)
qed

lemma decodeUTF8_valid: "validUTF8 (decodeUTF8WithReplacement s)"
proof (induction s rule: decodeUTF8WithReplacement.induct)
  case (1 s)
  then show ?case
    using validUTF8.scalar [OF utf8Step_writes_scalar]
    by (subst decodeUTF8WithReplacement.simps) (auto intro: validUTF8.nil)
qed

lemma decodeUTF8_id: "validUTF8 s \<Longrightarrow> decodeUTF8WithReplacement s = s"
proof (induction rule: validUTF8.induct)
  case nil
  then show ?case by (simp add: decodeUTF8WithReplacement.simps)
next
  case (scalar s t)
  then have "s \<noteq> []" by (auto simp: scalarEncoding_def)
  with scalar utf8Step_scalar [of s t] show ?case
    by (subst decodeUTF8WithReplacement.simps) simp
qed


section \<open>Selected parameters\<close>

definition matchesName :: "string \<Rightarrow> string \<Rightarrow> bool" where
  "matchesName encodedName pair \<longleftrightarrow>
     pair \<noteq> [] \<and> formPercentEncode (decodeFormComponent (fst (cutPair pair))) = encodedName"

definition pairValue :: "string \<Rightarrow> string" where
  "pairValue pair = formPercentEncode (decodeFormComponent (snd (cutPair pair)))"

lemma queryParameter_loop_eq:
  "queryParameter_loop name found n pairs =
   ((case rev (filter (matchesName name) pairs) of [] \<Rightarrow> found | p # _ \<Rightarrow> pairValue p),
    n + length (filter (matchesName name) pairs))"
  by (induction name found n pairs rule: queryParameter_loop.induct)
    (auto simp: matchesName_def pairValue_def split: list.splits)

lemma queryParameter_ok:
  "queryParameter rawQuery name maxBytes = Inr v \<Longrightarrow>
   \<exists>p. filter (matchesName name) (split CHR ''&'' rawQuery) = [p] \<and> v = pairValue p \<and> go_len v \<le> maxBytes"
  by (auto simp: queryParameter_def queryParameter_loop_eq length_Suc_conv split: if_splits prod.splits)

lemma upperHex_class: "n < 16 \<Longrightarrow> isDigit (upperHex n) \<or> isUpper (upperHex n)"
proof -
  have "list_all (\<lambda>n. isDigit (upperHex n) \<or> isUpper (upperHex n)) [0..<16]" by code_simp
  then show "n < 16 \<Longrightarrow> ?thesis" unfolding list_all_iff by simp
qed

lemma formPercentEncode_alphabet: "list_all (\<lambda>c. formUnreserved c \<or> c = CHR ''%'') (formPercentEncode s)"
proof (induction s)
  case (Cons c cs)
  have "byte c div 16 < 16" "byte c mod 16 < 16" using byte_less [of c] by linarith+
  then have "formUnreserved (upperHex (byte c div 16))" "formUnreserved (upperHex (byte c mod 16))"
    using upperHex_class unfolding formUnreserved_def by blast+
  with Cons show ?case by simp
qed simp

section \<open>Properties\<close>


text \<open>C25. Percent encoding is undone by form decoding for every well-formed UTF-8 text, so distinct
  decoded names have distinct encodings and the canonical form is a fixed point of decode-then-encode.\<close>

theorem form_encoding_roundtrip:
  assumes "validUTF8 s"
  shows "decodeFormComponent (formPercentEncode s) = s"
  using assms by (simp add: decodeFormComponent_def decodeFormBytes_encode decodeUTF8_id)

theorem form_encoding_roundtrip_witness:
  "validUTF8 [CHR ''a'', CHR 0xC3, CHR 0xA9] \<and>
   decodeFormComponent (formPercentEncode [CHR ''a'', CHR 0xC3, CHR 0xA9]) = [CHR ''a'', CHR 0xC3, CHR 0xA9]"
proof -
  have "validUTF8 ([CHR ''a''] @ [CHR 0xC3, CHR 0xA9] @ [])"
    by (intro validUTF8.intros) (simp_all add: scalarEncoding_def isContinuation_def)
  then have v: "validUTF8 [CHR ''a'', CHR 0xC3, CHR 0xA9]" by simp
  from form_encoding_roundtrip [OF v] v show ?thesis by simp
qed

text \<open>A query parameter is resolved only when exactly one pair of the query has the requested decoded
  name; the value returned is that pair's canonical encoding, within the budget, and consists of
  unreserved bytes and percent signs only, so it cannot introduce a line break or a quote into the
  signature base.\<close>

theorem query_parameter_unique_and_safe:
  assumes "queryParameter rawQuery name maxBytes = Inr v"
  shows "(\<exists>p. filter (matchesName name) (split CHR ''&'' rawQuery) = [p] \<and> v = pairValue p) \<and>
    go_len v \<le> maxBytes \<and> list_all (\<lambda>c. formUnreserved c \<or> c = CHR ''%'') v"
proof -
  obtain p where p: "filter (matchesName name) (split CHR ''&'' rawQuery) = [p]" "v = pairValue p"
    "go_len v \<le> maxBytes" using queryParameter_ok [OF assms] by blast
  have "list_all (\<lambda>c. formUnreserved c \<or> c = CHR ''%'') v"
    using p(2) by (simp add: pairValue_def formPercentEncode_alphabet)
  with p show ?thesis by blast
qed

theorem query_parameter_unique_and_safe_witness:
  "queryParameter ''a=1&b=x+y'' ''b'' 100 = Inr ''x%20y'' \<and>
   list_all (\<lambda>c. formUnreserved c \<or> c = CHR ''%'') ''x%20y''"
proof -
  have "queryParameter ''a=1&b=x+y'' ''b'' 100 = Inr ''x%20y''" by code_simp
  with query_parameter_unique_and_safe [OF this] show ?thesis by blast
qed

end
