(* ===== verification/Http.thy ===== *)
theory Http
  imports SignatureFields FormEncoding
begin

text \<open>
  The \<^verbatim>\<open>net/http\<close> and \<^verbatim>\<open>net/url\<close> data the code reads, the text functions of the standard library it
  applies to them, and the part of \<^verbatim>\<open>message.go\<close> that decides which field values the transport puts on
  the wire: \<^verbatim>\<open>Transfer-Encoding\<close>, \<^verbatim>\<open>Trailer\<close>, \<^verbatim>\<open>Connection\<close>, \<^verbatim>\<open>Content-Length\<close>, \<^verbatim>\<open>Host\<close> and
  \<^verbatim>\<open>User-Agent\<close>, for requests and for the two representations of a response.
\<close>

section \<open>Messages\<close>

text \<open>An \<^verbatim>\<open>http.Header\<close> is a map; the code iterates over it, so it is an association list here.\<close>

type_synonym header = "(string \<times> string list) list"

datatype body = NilBody | NoBody | SomeBody

text \<open>\<open>URLUser\<close> says whether \<^verbatim>\<open>User\<close> is non-nil.\<close>

record URL =
  URLScheme :: string
  URLOpaque :: string
  URLUser :: bool
  URLHost :: string
  URLPath :: string
  URLRawPath :: string
  URLForceQuery :: bool
  URLRawQuery :: string
  URLFragment :: string

definition emptyURL :: URL where
  "emptyURL =
     \<lparr>URLScheme = [], URLOpaque = [], URLUser = False, URLHost = [], URLPath = [], URLRawPath = [],
      URLForceQuery = False, URLRawQuery = [], URLFragment = []\<rparr>"

record Request =
  ReqMethod :: string
  ReqURL :: "URL option"
  ReqProtoMajor :: int
  ReqProtoMinor :: int
  ReqHeader :: header
  ReqBody :: body
  ReqContentLength :: int
  ReqTransferEncoding :: "string list"
  ReqClose :: bool
  ReqHost :: string
  ReqTrailer :: header
  ReqRequestURI :: string
  ReqTLS :: bool

record Response =
  RespStatusCode :: int
  RespProtoMajor :: int
  RespProtoMinor :: int
  RespHeader :: header
  RespBody :: body
  RespContentLength :: int
  RespTransferEncoding :: "string list"
  RespClose :: bool
  RespUncompressed :: bool
  RespTrailer :: header
  RespRequest :: "Request option"

record ExternalRequestContext =
  ExtScheme :: string
  ExtAuthority :: string
  ExtRequestTarget :: string

text \<open>\<^verbatim>\<open>ResponseTransportMode\<close> and \<^verbatim>\<open>StructuredFieldType\<close> are \<^verbatim>\<open>uint8\<close> values; any of 256 may be passed in.\<close>

abbreviation (input) ResponseTransportUnspecified :: nat where "ResponseTransportUnspecified \<equiv> 0"
abbreviation (input) ResponseTransportReceived :: nat where "ResponseTransportReceived \<equiv> 1"
abbreviation (input) ResponseTransportWrite :: nat where "ResponseTransportWrite \<equiv> 2"

record MessageContext =
  CtxRequest :: "Request option"
  CtxResponse :: "Response option"
  CtxRelatedRequest :: "Request option"
  CtxExternalRequest :: "ExternalRequestContext option"
  CtxStructuredFields :: "string \<rightharpoonup> nat"
  CtxResponseTransport :: nat
  CtxMaxSignatureBaseBytes :: int

section \<open>Text functions\<close>

definition asciiLower :: "char \<Rightarrow> char" where
  "asciiLower c = (if isUpper c then char_of (byte c + 32) else c)"

lemma upper_lower:
  assumes "isUpper (Char b0 b1 b2 b3 b4 b5 b6 b7)"
  shows "char_of (byte (Char b0 b1 b2 b3 b4 b5 b6 b7) + 32) = Char b0 b1 b2 b3 b4 True b6 b7"
proof -
  have b: "\<not> b5" "b6" "\<not> b7" using assms unfolding isUpper_bits by metis+
  have "byte (Char b0 b1 b2 b3 b4 b5 b6 b7) + 32 = byte (Char b0 b1 b2 b3 b4 True b6 b7)"
    by (simp only: of_char_Char b) simp
  then show ?thesis by (simp only: char_of_char)
qed

lemma lower_upper:
  assumes "isLower (Char b0 b1 b2 b3 b4 b5 b6 b7)"
  shows "char_of (byte (Char b0 b1 b2 b3 b4 b5 b6 b7) - 32) = Char b0 b1 b2 b3 b4 False b6 b7"
proof -
  have b: "b5" "b6" "\<not> b7" using assms unfolding isLower_bits by metis+
  have "byte (Char b0 b1 b2 b3 b4 b5 b6 b7) - 32 = byte (Char b0 b1 b2 b3 b4 False b6 b7)"
    by (simp only: of_char_Char b) simp
  then show ?thesis by (simp only: char_of_char)
qed

lemma asciiLower_bits [code]:
  "asciiLower (Char b0 b1 b2 b3 b4 b5 b6 b7) =
     (if isUpper (Char b0 b1 b2 b3 b4 b5 b6 b7) then Char b0 b1 b2 b3 b4 True b6 b7
      else Char b0 b1 b2 b3 b4 b5 b6 b7)"
  by (cases "isUpper (Char b0 b1 b2 b3 b4 b5 b6 b7)") (simp_all only: asciiLower_def upper_lower if_True if_False)

text \<open>
  \<^verbatim>\<open>strings.EqualFold\<close> against an ASCII argument: besides the ASCII letters only U+212A (Kelvin sign) folds
  to \<^verbatim>\<open>k\<close> and U+017F (long s) to \<^verbatim>\<open>s\<close>. Every call in the code has an ASCII argument on one side.
\<close>

fun foldKey :: "string \<Rightarrow> string" where
  "foldKey [] = []"
| "foldKey (c # cs) =
     (if c = CHR 0xE2 \<and> take 2 cs = [CHR 0x84, CHR 0xAA] then CHR ''k'' # foldKey (drop 2 cs)
      else if c = CHR 0xC5 \<and> take 1 cs = [CHR 0xBF] then CHR ''s'' # foldKey (drop 1 cs)
      else asciiLower c # foldKey cs)"

definition EqualFold :: "string \<Rightarrow> string \<Rightarrow> bool" where
  "EqualFold s t \<longleftrightarrow> foldKey s = foldKey t"

text \<open>
  \<^verbatim>\<open>strings.ToLower\<close>, exact whenever the result is ASCII: the non-ASCII runes that lower-case to an ASCII
  letter are U+212A (to \<^verbatim>\<open>k\<close>) and U+0130 (to \<^verbatim>\<open>i\<close>); every other non-ASCII rune stays non-ASCII.
\<close>

fun toLower :: "string \<Rightarrow> string" where
  "toLower [] = []"
| "toLower (c # cs) =
     (if c = CHR 0xE2 \<and> take 2 cs = [CHR 0x84, CHR 0xAA] then CHR ''k'' # toLower (drop 2 cs)
      else if c = CHR 0xC4 \<and> take 1 cs = [CHR 0xB0] then CHR ''i'' # toLower (drop 1 cs)
      else asciiLower c # toLower cs)"

definition asciiString :: "string \<Rightarrow> bool" where
  "asciiString value = list_all (\<lambda>c. byte c \<le> 0x7f) value"

definition tokenPunctuation :: string where
  "tokenPunctuation =
     [CHR ''!'', CHR ''#'', CHR ''$'', CHR ''%'', CHR ''&'', CHR 0x27, CHR ''*'', CHR ''+'', CHR ''-'',
      CHR ''.'', CHR ''^'', CHR ''_'', CHR 0x60, CHR ''|'', CHR ''~'']"

definition validHTTPToken :: "string \<Rightarrow> bool" where
  "validHTTPToken value \<longleftrightarrow>
     value \<noteq> [] \<and>
     list_all (\<lambda>c. isLower c \<or> isUpper c \<or> isDigit c \<or> c \<in> set tokenPunctuation) value"

text \<open>\<^verbatim>\<open>http.CanonicalHeaderKey\<close>: unchanged when some byte is not a token byte.\<close>

fun canonicalWords :: "bool \<Rightarrow> string \<Rightarrow> string" where
  "canonicalWords upper [] = []"
| "canonicalWords upper (c # cs) =
     (if upper \<and> isLower c then char_of (byte c - 32)
      else if \<not> upper \<and> isUpper c then char_of (byte c + 32) else c)
     # canonicalWords (c = CHR ''-'') cs"

definition CanonicalHeaderKey :: "string \<Rightarrow> string" where
  "CanonicalHeaderKey key =
     (if list_all (\<lambda>c. isLower c \<or> isUpper c \<or> isDigit c \<or> c \<in> set tokenPunctuation) key
      then canonicalWords True key else key)"

text \<open>The same functions with one test per character, for evaluation.\<close>

definition tokenByte :: "char \<Rightarrow> bool" where
  "tokenByte c = (if isLower c then True else if isUpper c then True else if isDigit c then True
     else c \<in> set tokenPunctuation)"

fun canonicalByte :: "bool \<Rightarrow> char \<Rightarrow> char" where
  "canonicalByte True (Char b0 b1 b2 b3 b4 b5 b6 b7) =
     (if isLower (Char b0 b1 b2 b3 b4 b5 b6 b7) then Char b0 b1 b2 b3 b4 False b6 b7
      else Char b0 b1 b2 b3 b4 b5 b6 b7)"
| "canonicalByte False c = asciiLower c"

lemma tokenByte_eq: "(\<lambda>c. isLower c \<or> isUpper c \<or> isDigit c \<or> c \<in> set tokenPunctuation) = tokenByte"
  by (rule ext) (simp add: tokenByte_def)

lemma canonicalByte_eq:
  "canonicalByte upper c =
     (if upper \<and> isLower c then char_of (byte c - 32)
      else if \<not> upper \<and> isUpper c then char_of (byte c + 32) else c)"
proof (induction upper c rule: canonicalByte.induct)
  case (1 b0 b1 b2 b3 b4 b5 b6 b7)
  show ?case
    by (cases "isLower (Char b0 b1 b2 b3 b4 b5 b6 b7)")
      (simp_all only: canonicalByte.simps lower_upper if_True if_False simp_thms)
qed (simp add: asciiLower_def)

lemma canonicalWords_bytes [code]:
  "canonicalWords upper [] = []"
  "canonicalWords upper (c # cs) = canonicalByte upper c # canonicalWords (c = CHR ''-'') cs"
  by (simp_all add: canonicalByte_eq)

lemma validHTTPToken_bytes [code]: "validHTTPToken value = (if value = [] then False else list_all tokenByte value)"
  by (simp add: validHTTPToken_def tokenByte_eq)

lemma CanonicalHeaderKey_bytes [code]:
  "CanonicalHeaderKey key = (if list_all tokenByte key then canonicalWords True key else key)"
  by (simp add: CanonicalHeaderKey_def tokenByte_eq)

section \<open>Header lookup\<close>

fun headerValues_loop :: "string \<Rightarrow> string list option \<Rightarrow> header \<Rightarrow> string list res" where
  "headerValues_loop name found [] = Inr (case found of None \<Rightarrow> [] | Some vs \<Rightarrow> vs)"
| "headerValues_loop name found ((key, current) # rest) =
     (if \<not> EqualFold key name then headerValues_loop name found rest
      else if found \<noteq> None then Inl (NewErr ''covered field has case-colliding map keys'')
      else headerValues_loop name (Some current) rest)"

definition caseInsensitiveHeaderValues :: "header \<Rightarrow> string \<Rightarrow> string list res" where
  "caseInsensitiveHeaderValues header name = headerValues_loop name None header"

definition fieldValueHasToken :: "string \<Rightarrow> string \<Rightarrow> bool" where
  "fieldValueHasToken value token =
     list_ex (\<lambda>candidate. EqualFold (trimSpace candidate) token) (split CHR '','' value)"

section \<open>Requests\<close>

definition hasChunkedTransferEncoding :: "string list \<Rightarrow> bool" where
  "hasChunkedTransferEncoding encodings = (case encodings of [] \<Rightarrow> False | e # _ \<Rightarrow> e = ''chunked'')"

definition requestUsesChunkedTransferEncoding :: "Request option \<Rightarrow> bool" where
  "requestUsesChunkedTransferEncoding request =
     (case request of None \<Rightarrow> False
      | Some r \<Rightarrow> ReqBody r \<noteq> NilBody \<and> hasChunkedTransferEncoding (ReqTransferEncoding r))"

definition transferEncodingFieldValues :: "string list \<Rightarrow> string list res" where
  "transferEncodingFieldValues encodings =
     (if encodings = [] \<or> encodings = [''identity''] then Inr []
      else if hasChunkedTransferEncoding encodings then Inr [''chunked'']
      else Inl (NewErr ''unsupported net/http transfer encoding''))"

fun trailerKeys_loop :: "string list \<Rightarrow> header \<Rightarrow> string list res" where
  "trailerKeys_loop keys [] = Inr keys"
| "trailerKeys_loop keys ((key, _) # rest) =
     (let canonical = CanonicalHeaderKey key in
      if \<not> validHTTPToken canonical \<or> EqualFold canonical ''transfer-encoding'' \<or>
         EqualFold canonical ''trailer'' \<or> EqualFold canonical ''content-length''
      then Inl (NewErr ''invalid Trailer declaration'')
      else trailerKeys_loop (keys @ [canonical]) rest)"

definition trailerDeclarationFieldValues :: "header \<Rightarrow> string list res" where
  "trailerDeclarationFieldValues trailer =
     (case trailerKeys_loop [] trailer of
        Inl err \<Rightarrow> Inl err
      | Inr keys \<Rightarrow> Inr [join '','' (sort keys)])"

text \<open>A managed lookup returns the values and whether the transport owns the field.\<close>

definition addClose :: "string list \<Rightarrow> string list" where
  "addClose values = (if list_ex (\<lambda>v. fieldValueHasToken v ''close'') values then values else ''close'' # values)"

definition requestTransportFieldValues :: "Request \<Rightarrow> string \<Rightarrow> (string list \<times> bool) res" where
  "requestTransportFieldValues request name =
     (if EqualFold name ''transfer-encoding'' then
        (if ReqBody request = NilBody then Inr ([], True)
         else map_sum id (\<lambda>vs. (vs, True)) (transferEncodingFieldValues (ReqTransferEncoding request)))
      else if EqualFold name ''trailer'' then
        (if ReqRequestURI request \<noteq> [] then Inl (NewErr ''inbound Trailer declaration order is unavailable'')
         else if \<not> requestUsesChunkedTransferEncoding (Some request) \<or> ReqTrailer request = [] then Inr ([], True)
         else map_sum id (\<lambda>vs. (vs, True)) (trailerDeclarationFieldValues (ReqTrailer request)))
      else if EqualFold name ''user-agent'' \<and> ReqRequestURI request = [] then
        (case caseInsensitiveHeaderValues (ReqHeader request) name of
           Inl err \<Rightarrow> Inl err
         | Inr [] \<Rightarrow> Inr ([], True)
         | Inr (v # vs) \<Rightarrow> if v = [] then Inr ([], True) else Inr ([v], True))
      else if EqualFold name ''connection'' \<and> ReqRequestURI request = [] \<and> ReqClose request then
        (case caseInsensitiveHeaderValues (ReqHeader request) name of
           Inl err \<Rightarrow> Inl err
         | Inr vs \<Rightarrow> Inr (addClose vs, True))
      else Inr ([], False))"

definition requestContentLength :: "Request option \<Rightarrow> int option" where
  "requestContentLength request =
     (case request of
        None \<Rightarrow> None
      | Some r \<Rightarrow>
          if requestUsesChunkedTransferEncoding request then None
          else if ReqBody r = NilBody \<and> ReqContentLength r \<noteq> 0 then None
          else if ReqBody r = SomeBody then
            (if ReqContentLength r > 0 then Some (ReqContentLength r) else None)
          else
            let identityTransfer = (ReqTransferEncoding r = [''identity'']);
                method = (if ReqMethod r = [] then ''GET'' else ReqMethod r)
            in if method = ''GET'' \<or> method = ''HEAD'' then None
               else if identityTransfer \<or> method = ''POST'' \<or> method = ''PUT'' \<or> method = ''PATCH''
               then Some 0 else None)"

section \<open>Responses\<close>

definition ProtoAtLeast11 :: "Response \<Rightarrow> bool" where
  "ProtoAtLeast11 r \<longleftrightarrow> RespProtoMajor r > 1 \<or> RespProtoMajor r = 1 \<and> RespProtoMinor r \<ge> 1"

definition requestMethod :: "Response \<Rightarrow> string" where
  "requestMethod r = (case RespRequest r of None \<Rightarrow> [] | Some q \<Rightarrow> ReqMethod q)"

definition responseWriteBodyAllowed :: "int \<Rightarrow> bool" where
  "responseWriteBodyAllowed status \<longleftrightarrow> status < 100 \<or> status > 199 \<and> status \<noteq> 204 \<and> status \<noteq> 304"

definition responseUsesChunkedTransferEncoding :: "Response \<Rightarrow> bool" where
  "responseUsesChunkedTransferEncoding r =
     (if \<not> hasChunkedTransferEncoding (RespTransferEncoding r) then False
      else if RespRequest r \<noteq> None \<and> requestMethod r = ''HEAD'' then True
      else RespBody r \<noteq> NilBody \<and> ProtoAtLeast11 r)"

text \<open>\<^verbatim>\<open>sameFieldValues\<close> walks both slices by index.\<close>

fun sameFieldValues :: "string list \<Rightarrow> string list \<Rightarrow> bool" where
  "sameFieldValues [] [] = True"
| "sameFieldValues (l # ls) (r # rs) = (l = r \<and> sameFieldValues ls rs)"
| "sameFieldValues ls rs = False"

definition matchingResponseFieldValues :: "string list res \<Rightarrow> string list res \<Rightarrow> string list res" where
  "matchingResponseFieldValues received written =
     (case (received, written) of
        (Inr rs, Inr ws) \<Rightarrow>
          if \<not> sameFieldValues rs ws
          then Inl (NewErr ''response transport mode is required for ambiguous field identity'') else Inr rs
      | _ \<Rightarrow> Inl (NewErr ''response transport mode is required for ambiguous field identity''))"

text \<open>The final \<^verbatim>\<open>switch mode\<close> of each managed response field.\<close>

definition selectRepresentation :: "nat \<Rightarrow> string list res \<Rightarrow> string list res \<Rightarrow> string list res" where
  "selectRepresentation mode received written =
     (if mode = ResponseTransportReceived then received
      else if mode = ResponseTransportWrite then written
      else matchingResponseFieldValues received written)"

definition receivedResponseTransferEncodingFieldValues :: "string list \<Rightarrow> string list res" where
  "receivedResponseTransferEncodingFieldValues encodings =
     (if encodings = [] then Inr []
      else if encodings = [''chunked''] then Inr [''chunked'']
      else Inl (NewErr ''received response has impossible transfer coding state''))"

definition writeResponseTransferEncodingFieldValues :: "Response \<Rightarrow> string list res" where
  "writeResponseTransferEncodingFieldValues r =
     (if responseUsesChunkedTransferEncoding r then Inr [''chunked'']
      else if RespTransferEncoding r = [] \<or> RespTransferEncoding r = [''identity''] \<or>
              RespBody r = NilBody \<or> RespRequest r = None \<or>
              requestMethod r \<noteq> ''HEAD'' \<and> \<not> ProtoAtLeast11 r
      then Inr []
      else Inl (NewErr ''unsupported net/http transfer encoding''))"

definition responseTransferEncodingFieldValues :: "Response \<Rightarrow> nat \<Rightarrow> string list res" where
  "responseTransferEncodingFieldValues r mode =
     selectRepresentation mode (receivedResponseTransferEncodingFieldValues (RespTransferEncoding r))
       (writeResponseTransferEncodingFieldValues r)"

definition responseTrailerFieldValues :: "Response \<Rightarrow> nat \<Rightarrow> string list res" where
  "responseTrailerFieldValues r mode =
     selectRepresentation mode
       (if RespTrailer r \<noteq> [] then Inl (NewErr ''received Trailer declaration order is unavailable'') else Inr [])
       (if responseUsesChunkedTransferEncoding r \<and> RespTrailer r \<noteq> []
        then trailerDeclarationFieldValues (RespTrailer r) else Inr [])"

definition receivedResponseCloseFieldIsExplicit :: "Response \<Rightarrow> bool" where
  "receivedResponseCloseFieldIsExplicit r =
     (if RespProtoMajor r \<noteq> 1 \<or> RespProtoMinor r < 1 then False
      else if RespContentLength r \<ge> 0 \<or> RespTransferEncoding r \<noteq> [] then True
      else if RespRequest r \<noteq> None \<and> requestMethod r = ''HEAD'' then True
      else \<not> responseWriteBodyAllowed (RespStatusCode r))"

definition responseCloseFieldValues :: "Response \<Rightarrow> bool \<Rightarrow> string list res" where
  "responseCloseFieldValues r synthesizeClose =
     (case caseInsensitiveHeaderValues (RespHeader r) ''connection'' of
        Inl err \<Rightarrow> Inl err
      | Inr vs \<Rightarrow> if \<not> synthesizeClose then Inr vs else Inr (addClose vs))"

definition responseWriteClosesConnection :: "Response \<Rightarrow> bool" where
  "responseWriteClosesConnection r \<longleftrightarrow>
     RespClose r \<or> RespContentLength r = -1 \<and> ProtoAtLeast11 r \<and>
     \<not> hasChunkedTransferEncoding (RespTransferEncoding r) \<and> \<not> RespUncompressed r"

definition responseConnectionFieldValues :: "Response \<Rightarrow> nat \<Rightarrow> string list res" where
  "responseConnectionFieldValues r mode =
     selectRepresentation mode
       (responseCloseFieldValues r (RespClose r \<and> receivedResponseCloseFieldIsExplicit r))
       (responseCloseFieldValues r (responseWriteClosesConnection r))"

definition responseTransportFieldValues :: "Response \<Rightarrow> nat \<Rightarrow> string \<Rightarrow> (string list \<times> bool) res" where
  "responseTransportFieldValues r mode name =
     (if EqualFold name ''transfer-encoding'' then
        map_sum id (\<lambda>vs. (vs, True)) (responseTransferEncodingFieldValues r mode)
      else if EqualFold name ''trailer'' then map_sum id (\<lambda>vs. (vs, True)) (responseTrailerFieldValues r mode)
      else if EqualFold name ''connection'' then map_sum id (\<lambda>vs. (vs, True)) (responseConnectionFieldValues r mode)
      else Inr ([], False))"

definition preservedResponseContentLengthFieldValues :: "header \<Rightarrow> string list res" where
  "preservedResponseContentLengthFieldValues header =
     (case caseInsensitiveHeaderValues header ''content-length'' of
        Inl err \<Rightarrow> Inl err
      | Inr [] \<Rightarrow> Inr []
      | Inr [v] \<Rightarrow>
          (case parseUint 63 (trimSpace v) of
             None \<Rightarrow> Inl (NewErr ''received response has invalid Content-Length'')
           | Some _ \<Rightarrow> Inr [v])
      | Inr _ \<Rightarrow> Inl (NewErr ''received response has ambiguous Content-Length''))"

definition receivedResponseContentLengthFieldValues :: "Response \<Rightarrow> string list res" where
  "receivedResponseContentLengthFieldValues r =
     (case preservedResponseContentLengthFieldValues (RespHeader r) of
        Inl err \<Rightarrow> Inl err
      | Inr [] \<Rightarrow> Inr []
      | Inr (v # vs) \<Rightarrow>
          if RespTransferEncoding r \<noteq> []
          then Inl (NewErr ''received response has conflicting Content-Length and transfer coding'')
          else
            let contentLength = (case parseUint 63 (trimSpace v) of None \<Rightarrow> 0 | Some n \<Rightarrow> n) in
            if (responseWriteBodyAllowed (RespStatusCode r) \<or> requestMethod r = ''HEAD'') \<and>
               (RespContentLength r < 0 \<or> RespContentLength r \<noteq> int contentLength)
            then Inl (NewErr ''received response Content-Length disagrees with parsed transport state'')
            else Inr (v # vs))"

definition writeResponseContentLengthFieldValues :: "Response \<Rightarrow> string list res" where
  "writeResponseContentLengthFieldValues r =
     (if responseUsesChunkedTransferEncoding r then Inr []
      else if RespContentLength r = 0 \<and> RespBody r = SomeBody
      then Inl (NewErr ''response content length depends on body probing'')
      else
        let m = requestMethod r in
        if m \<noteq> ''HEAD'' \<and> RespBody r = NoBody \<and> RespContentLength r > 0
        then Inl (NewErr ''response body is shorter than its declared content length'')
        else
          let responseToHEAD = (m = ''HEAD'');
              noBody = (\<not> responseToHEAD \<and> RespBody r = NilBody);
              effectiveTransferEncoding =
                (if noBody \<or> \<not> responseToHEAD \<and> \<not> ProtoAtLeast11 r then [] else RespTransferEncoding r);
              contentLength = (if noBody then 0 else RespContentLength r)
          in if contentLength > 0 then Inr [formatInt contentLength]
             else if contentLength < 0 then Inr []
             else if m = ''POST'' \<or> m = ''PUT'' \<or> m = ''PATCH'' then Inr [''0'']
             else if effectiveTransferEncoding = [''identity''] \<and> m \<noteq> ''GET'' \<and> m \<noteq> ''HEAD'' then Inr [''0'']
             else if RespContentLength r = 0 \<and> \<not> hasChunkedTransferEncoding (RespTransferEncoding r) \<and>
                     responseWriteBodyAllowed (RespStatusCode r)
             then Inr [''0'']
             else Inr [])"

definition responseContentLengthFieldValues :: "Response \<Rightarrow> nat \<Rightarrow> string list res" where
  "responseContentLengthFieldValues r mode =
     selectRepresentation mode (receivedResponseContentLengthFieldValues r)
       (writeResponseContentLengthFieldValues r)"

end
