(* ===== verification/Message.thy ===== *)
theory Message
  imports Http
begin

text \<open>
  The rest of \<^verbatim>\<open>message.go\<close> and of \<^verbatim>\<open>message_limits.go\<close>: request-target normalisation, derived components,
  field components with their \<^verbatim>\<open>bs\<close>, \<^verbatim>\<open>sf\<close>, \<^verbatim>\<open>key\<close>, \<^verbatim>\<open>tr\<close> and \<^verbatim>\<open>req\<close> modes, and the signature base itself under its
  byte budget. The functions of \<^verbatim>\<open>net/url\<close> are a parameter, the record \<open>urls\<close>.
\<close>

section \<open>Size bounds over Structured Fields values\<close>

definition parameterUpperBound :: "('p, 'd) httpsfv \<Rightarrow> Parameter \<Rightarrow> int" where
  "parameterUpperBound h p =
     saturatingSizeAdd (saturatingSizeAdd 1 (go_len (ParName p)))
       (case ParValue p of
          VBool b \<Rightarrow> (if \<not> b then 3 else 0)
        | VString s \<Rightarrow> saturatingSizeAdd 3 (escapedStringLength s)
        | VInt64 n \<Rightarrow> 1 + decimalIntegerLength n
        | VFloat64 f \<Rightarrow>
            (case marshalRFC8941 h (SFItem (NewItem h (VFloat64 f))) of
               Inr serialized \<Rightarrow> saturatingSizeAdd 1 (go_len serialized)
             | Inl _ \<Rightarrow> 1)
        | VBytes b \<Rightarrow> saturatingSizeAdd 3 (base64EncodedLength (go_len b))
        | VSFToken t \<Rightarrow> saturatingSizeAdd 1 (go_len t)
        | _ \<Rightarrow> 1)"

definition structuredItemUpperBound :: "('p, 'd) httpsfv \<Rightarrow> string \<Rightarrow> Parameter list \<Rightarrow> int" where
  "structuredItemUpperBound h name parameters =
     foldl (\<lambda>n p. saturatingSizeAdd n (parameterUpperBound h p))
       (saturatingSizeAdd 2 (go_len name)) parameters"

definition structuredItemFits :: "('p, 'd) httpsfv \<Rightarrow> string \<Rightarrow> Parameter list \<Rightarrow> int \<Rightarrow> bool" where
  "structuredItemFits h name parameters budget \<longleftrightarrow> structuredItemUpperBound h name parameters \<le> budget"

fun componentsFit_loop :: "('p, 'd) httpsfv \<Rightarrow> bool \<Rightarrow> int \<Rightarrow> ComponentIdentifier list \<Rightarrow> int option" where
  "componentsFit_loop h first remaining [] = Some remaining"
| "componentsFit_loop h first remaining (c # cs) =
     (let componentSize = structuredItemUpperBound h (CompName c) (CompParameters c);
          componentSize = (if first then componentSize else saturatingSizeAdd componentSize 1)
      in case consumeSize remaining componentSize of (r, ok) \<Rightarrow>
           if \<not> ok then None else componentsFit_loop h False r cs)"

fun parametersFit_loop :: "('p, 'd) httpsfv \<Rightarrow> int \<Rightarrow> Parameter list \<Rightarrow> bool" where
  "parametersFit_loop h remaining [] = True"
| "parametersFit_loop h remaining (p # ps) =
     (case consumeSize remaining (parameterUpperBound h p) of (r, ok) \<Rightarrow>
        if \<not> ok then False else parametersFit_loop h r ps)"

definition signatureParametersFit :: "('p, 'd) httpsfv \<Rightarrow> SignatureInput \<Rightarrow> int \<Rightarrow> bool" where
  "signatureParametersFit h input budget =
     (case consumeSize budget 2 of (r, ok) \<Rightarrow>
        if \<not> ok then False
        else case componentsFit_loop h True r (InComponents input) of
               None \<Rightarrow> False
             | Some r' \<Rightarrow> parametersFit_loop h r' (InParameters input))"

section \<open>Request targets\<close>

record urls =
  url_Parse :: "string \<Rightarrow> URL res"
  url_ParseRequestURI :: "string \<Rightarrow> URL res"
  url_EscapedPath :: "URL \<Rightarrow> string"
  url_RequestURI :: "URL \<Rightarrow> string"
  url_Hostname :: "URL \<Rightarrow> string"
  url_Port :: "URL \<Rightarrow> string"

definition removeIPv6Zone :: "string \<Rightarrow> string" where
  "removeIPv6Zone host =
     (if \<not> hasPrefix host ''['' then host
      else case indexByte host CHR '']'' of
             None \<Rightarrow> host
           | Some closing \<Rightarrow>
               (case indexByte (rev (take closing host)) CHR ''%'' of
                  None \<Rightarrow> host
                | Some k \<Rightarrow> take (closing - 1 - k) host @ drop closing host))"

definition JoinHostPort :: "string \<Rightarrow> string \<Rightarrow> string" where
  "JoinHostPort host port =
     (if CHR '':'' \<in> set host then ''['' @ host @ '']:'' @ port else host @ '':'' @ port)"

definition normalizePort :: "string \<Rightarrow> string \<Rightarrow> string res" where
  "normalizePort port scheme =
     (if port = [] then Inr []
      else case parseUint 16 port of
             None \<Rightarrow> Inl (NewErr ''invalid request port'')
           | Some numericPort \<Rightarrow>
               let port = formatNat numericPort in
               if port = ''80'' \<and> scheme = ''http'' \<or> port = ''443'' \<and> scheme = ''https''
               then Inr [] else Inr port)"

definition normalizeAuthority :: "urls \<Rightarrow> string \<Rightarrow> string \<Rightarrow> string res" where
  "normalizeAuthority u authority scheme =
     (case url_Parse u (''//'' @ removeIPv6Zone authority) of
        Inl _ \<Rightarrow> Inl (NewErr ''invalid request authority'')
      | Inr parsed \<Rightarrow>
          if URLUser parsed \<or> URLHost parsed = [] \<or> URLPath parsed \<noteq> [] \<or> URLRawQuery parsed \<noteq> [] \<or>
             URLFragment parsed \<noteq> [] \<or> URLOpaque parsed \<noteq> []
          then Inl (NewErr ''invalid request authority'')
          else
            let host = toLower (url_Hostname u parsed) in
            if host = [] \<or> \<not> asciiString host then Inl (NewErr ''invalid request host'')
            else
              (case normalizePort (url_Port u parsed) scheme of
                 Inl err \<Rightarrow> Inl err
               | Inr port \<Rightarrow>
                   let host = (if CHR '':'' \<in> set host then ''['' @ host @ '']'' else host) in
                   if port \<noteq> [] then Inr (JoinHostPort (trim ''[]'' host) port) else Inr host))"

record normalizedRequestParts =
  partsScheme :: string
  partsAuthority :: string
  partsRequestTarget :: string
  partsOriginTarget :: string
  partsPath :: string
  partsRawQuery :: string

text \<open>What the target \<^verbatim>\<open>switch\<close> of \<^verbatim>\<open>requestParts\<close> leaves behind.\<close>

record resolvedTarget =
  rtURL :: URL
  rtEmpty :: bool
  rtScheme :: string
  rtAuthority :: string

definition sameAuthorities :: "urls \<Rightarrow> string \<Rightarrow> string \<Rightarrow> string \<Rightarrow> string \<Rightarrow> bool" where
  "sameAuthorities u target targetScheme external externalScheme =
     (case (normalizeAuthority u target targetScheme, normalizeAuthority u external externalScheme) of
        (Inr a, Inr b) \<Rightarrow> a = b
      | _ \<Rightarrow> False)"

definition resolveTarget ::
  "urls \<Rightarrow> Request \<Rightarrow> ExternalRequestContext option \<Rightarrow> string \<Rightarrow> string \<Rightarrow> string \<Rightarrow> resolvedTarget res" where
  "resolveTarget u request external scheme authority requestTarget =
     (let malformed = NewErr ''request target is malformed'';
          lowerTarget = toLower requestTarget
      in if hasPrefix lowerTarget ''http://'' \<or> hasPrefix lowerTarget ''https://'' then
        (case url_Parse u requestTarget of
           Inl _ \<Rightarrow> Inl malformed
         | Inr parsedTarget \<Rightarrow>
             if URLHost parsedTarget = [] \<or> URLUser parsedTarget \<or> URLFragment parsedTarget \<noteq> [] \<or>
                URLOpaque parsedTarget \<noteq> []
             then Inl malformed
             else case external of
                    None \<Rightarrow>
                      Inr \<lparr>rtURL = parsedTarget, rtEmpty = False, rtScheme = URLScheme parsedTarget,
                           rtAuthority = URLHost parsedTarget\<rparr>
                  | Some ext \<Rightarrow>
                      let targetScheme = toLower (URLScheme parsedTarget);
                          externalScheme = toLower (ExtScheme ext)
                      in if targetScheme \<noteq> externalScheme \<or>
                            \<not> sameAuthorities u (URLHost parsedTarget) targetScheme (ExtAuthority ext) externalScheme
                         then Inl (NewErr ''external request context contradicts absolute target'')
                         else Inr \<lparr>rtURL = parsedTarget, rtEmpty = False, rtScheme = scheme, rtAuthority = authority\<rparr>)
      else if hasPrefix requestTarget ''/'' then
        (case url_ParseRequestURI u requestTarget of
           Inl _ \<Rightarrow> Inl malformed
         | Inr parsedTarget \<Rightarrow>
             if CHR ''#'' \<in> set requestTarget then Inl malformed
             else Inr \<lparr>rtURL = parsedTarget, rtEmpty = False, rtScheme = scheme, rtAuthority = authority\<rparr>)
      else if requestTarget = ''*'' then
        (if ReqMethod request \<noteq> ''OPTIONS'' then Inl (NewErr ''asterisk request target requires OPTIONS'')
         else Inr \<lparr>rtURL = emptyURL, rtEmpty = True, rtScheme = scheme, rtAuthority = authority\<rparr>)
      else if ReqMethod request = ''CONNECT'' then
        (case url_Parse u (''//'' @ requestTarget) of
           Inl _ \<Rightarrow> Inl malformed
         | Inr parsedAuthority \<Rightarrow>
             if URLHost parsedAuthority = [] \<or> url_Port u parsedAuthority = [] \<or> URLPath parsedAuthority \<noteq> [] \<or>
                URLUser parsedAuthority \<or> URLRawQuery parsedAuthority \<noteq> [] \<or> URLFragment parsedAuthority \<noteq> []
             then Inl malformed
             else case external of
                    None \<Rightarrow>
                      Inr \<lparr>rtURL = emptyURL, rtEmpty = True, rtScheme = scheme, rtAuthority = URLHost parsedAuthority\<rparr>
                  | Some ext \<Rightarrow>
                      let externalScheme = toLower (ExtScheme ext) in
                      if \<not> sameAuthorities u (URLHost parsedAuthority) externalScheme (ExtAuthority ext) externalScheme
                      then Inl (NewErr ''external request context contradicts authority target'')
                      else Inr \<lparr>rtURL = emptyURL, rtEmpty = True, rtScheme = scheme, rtAuthority = authority\<rparr>)
      else Inl malformed)"

definition finishParts :: "urls \<Rightarrow> Request \<Rightarrow> string \<Rightarrow> resolvedTarget \<Rightarrow> normalizedRequestParts res" where
  "finishParts u request requestTarget t =
     (let scheme = (if rtScheme t = [] then (if ReqTLS request then ''https'' else ''http'') else rtScheme t);
          scheme = toLower scheme
      in if scheme \<noteq> ''http'' \<and> scheme \<noteq> ''https'' then Inl (NewErr ''request scheme is not HTTP'')
         else
           let authority = (if rtAuthority t = [] then ReqHost request else rtAuthority t) in
           case normalizeAuthority u authority scheme of
             Inl err \<Rightarrow> Inl err
           | Inr normalizedAuthority \<Rightarrow>
               let rawPath = url_EscapedPath u (rtURL t);
                   path = (if rawPath = [] then ''/'' else rawPath);
                   rawQuery = (if rtEmpty t then [] else URLRawQuery (rtURL t));
                   originTarget =
                     (if \<not> rtEmpty t \<and> (URLForceQuery (rtURL t) \<or> rawQuery \<noteq> [])
                      then rawPath @ ''?'' @ rawQuery else rawPath)
               in Inr \<lparr>partsScheme = scheme, partsAuthority = normalizedAuthority,
                       partsRequestTarget = requestTarget, partsOriginTarget = originTarget,
                       partsPath = path, partsRawQuery = rawQuery\<rparr>)"

definition requestParts ::
  "urls \<Rightarrow> Request option \<Rightarrow> ExternalRequestContext option \<Rightarrow> normalizedRequestParts res" where
  "requestParts u request external =
     (case request of
        None \<Rightarrow> Inl (NewErr ''request URL is unavailable'')
      | Some r \<Rightarrow>
          (case ReqURL r of
             None \<Rightarrow> Inl (NewErr ''request URL is unavailable'')
           | Some requestURL \<Rightarrow>
               (case external of
                  Some ext \<Rightarrow>
                    if ExtScheme ext = [] \<or> ExtAuthority ext = [] \<or> ExtRequestTarget ext = []
                    then Inl (NewErr ''external request context must be complete'')
                    else
                      (case resolveTarget u r external (ExtScheme ext) (ExtAuthority ext) (ExtRequestTarget ext) of
                         Inl err \<Rightarrow> Inl err
                       | Inr t \<Rightarrow> finishParts u r (ExtRequestTarget ext) t)
                | None \<Rightarrow>
                    let authority = (if ReqHost r = [] then URLHost requestURL else ReqHost r);
                        requestTarget =
                          (if ReqRequestURI r = [] then url_RequestURI u requestURL else ReqRequestURI r)
                    in case resolveTarget u r external (URLScheme requestURL) authority requestTarget of
                         Inl err \<Rightarrow> Inl err
                       | Inr t \<Rightarrow> finishParts u r requestTarget t)))"

definition derivedSourceFits :: "Request option \<Rightarrow> ExternalRequestContext option \<Rightarrow> string \<Rightarrow> int \<Rightarrow> bool" where
  "derivedSourceFits request external name budget =
     (case request of
        None \<Rightarrow> True
      | Some r \<Rightarrow>
          (case ReqURL r of
             None \<Rightarrow> True
           | Some requestURL \<Rightarrow>
               if budget < 0 then True
               else
                 let authority = (if ReqHost r = [] then URLHost requestURL else ReqHost r);
                     queryBytes = saturatingSizeMultiply (go_len (URLRawQuery requestURL)) 3;
                     pathBytes = saturatingSizeMultiply (go_len (URLPath requestURL)) 3;
                     targetBytes = saturatingSizeAdd pathBytes (go_len (URLRawPath requestURL));
                     targetBytes = saturatingSizeAdd targetBytes queryBytes;
                     targetBytes = saturatingSizeAdd targetBytes 2;
                     opaqueBytes = saturatingSizeAdd (go_len (URLOpaque requestURL)) (go_len (URLScheme requestURL));
                     opaqueBytes = saturatingSizeAdd opaqueBytes 2;
                     opaqueBytes = saturatingSizeAdd opaqueBytes queryBytes;
                     targetBytes = (if URLOpaque requestURL \<noteq> [] then max targetBytes opaqueBytes else targetBytes);
                     targetBytes = (if ReqRequestURI r \<noteq> [] then go_len (ReqRequestURI r) else targetBytes);
                     scheme = (case external of None \<Rightarrow> URLScheme requestURL | Some ext \<Rightarrow> ExtScheme ext);
                     authority = (case external of None \<Rightarrow> authority | Some ext \<Rightarrow> ExtAuthority ext);
                     targetBytes = (case external of None \<Rightarrow> targetBytes | Some ext \<Rightarrow> go_len (ExtRequestTarget ext));
                     scheme = (if scheme = [] then (if ReqTLS r then ''https'' else ''http'') else scheme)
                 in if go_len scheme > budget \<or> go_len authority > budget \<or> targetBytes > budget then False
                    else if name = ''@scheme'' then go_len scheme \<le> budget
                    else if name = ''@authority'' then go_len authority \<le> budget
                    else if name = ''@query-param'' then targetBytes \<le> go_div budget 3
                    else if name \<in> {''@request-target'', ''@path'', ''@query''} then targetBytes \<le> budget
                    else if name = ''@target-uri'' then
                      saturatingSizeAdd (saturatingSizeAdd (saturatingSizeAdd (go_len scheme) 3) (go_len authority))
                        targetBytes \<le> budget
                    else True))"

section \<open>Component parameters\<close>

record componentParameters =
  cp_bs :: bool
  cp_sf :: bool
  cp_tr :: bool
  cp_req :: bool
  cp_key :: "string option"
  cp_name :: "string option"

definition noComponentParameters :: componentParameters where
  "noComponentParameters =
     \<lparr>cp_bs = False, cp_sf = False, cp_tr = False, cp_req = False, cp_key = None, cp_name = None\<rparr>"

fun componentParameterSet_loop :: "componentParameters \<Rightarrow> Parameter list \<Rightarrow> componentParameters res" where
  "componentParameterSet_loop result [] =
     (if cp_bs result \<and> (cp_sf result \<or> cp_key result \<noteq> None)
      then Inl (NewErr ''bs is incompatible with sf and key'') else Inr result)"
| "componentParameterSet_loop result (p # ps) =
     (if ParName p \<in> {''bs'', ''sf'', ''tr'', ''req''} then
        (if ParValue p \<noteq> VBool True then Inl (NewErr ''flag parameter is not true'')
         else
           componentParameterSet_loop
             (if ParName p = ''bs'' then result\<lparr>cp_bs := True\<rparr>
              else if ParName p = ''sf'' then result\<lparr>cp_sf := True\<rparr>
              else if ParName p = ''tr'' then result\<lparr>cp_tr := True\<rparr>
              else result\<lparr>cp_req := True\<rparr>) ps)
      else if ParName p = ''key'' then
        (case ParValue p of
           VString v \<Rightarrow> componentParameterSet_loop (result\<lparr>cp_key := Some v\<rparr>) ps
         | _ \<Rightarrow> Inl (NewErr ''key parameter is not a string''))
      else if ParName p = ''name'' then
        (case ParValue p of
           VString v \<Rightarrow> componentParameterSet_loop (result\<lparr>cp_name := Some v\<rparr>) ps
         | _ \<Rightarrow> Inl (NewErr ''name parameter is not a string''))
      else Inl (NewErr ''unknown component parameter''))"

definition componentParameterSet :: "Parameter list \<Rightarrow> componentParameters res" where
  "componentParameterSet parameters = componentParameterSet_loop noComponentParameters parameters"

section \<open>Message selection\<close>

definition requestForComponent :: "MessageContext \<Rightarrow> bool \<Rightarrow> Request res" where
  "requestForComponent context related =
     (if related then
        (case (CtxResponse context, CtxRelatedRequest context) of
           (Some _, Some r) \<Rightarrow> Inr r
         | _ \<Rightarrow> Inl (NewErr ''req requires an explicit related request''))
      else case CtxRequest context of
             Some r \<Rightarrow> Inr r
           | None \<Rightarrow> Inl (NewErr ''request component requires a request or req''))"

text \<open>
  The code compares request pointers; a request reaching this function is always the target or the
  related request of the context, so comparing the values decides the same.
\<close>

definition externalForRequest :: "MessageContext \<Rightarrow> Request \<Rightarrow> ExternalRequestContext option" where
  "externalForRequest context request =
     (if CtxRequest context = Some request \<or> CtxRelatedRequest context = Some request
      then CtxExternalRequest context else None)"

definition headerForComponent :: "MessageContext \<Rightarrow> bool \<Rightarrow> bool \<Rightarrow> header res" where
  "headerForComponent context related trailer =
     (if related then
        (case requestForComponent context True of
           Inl err \<Rightarrow> Inl err
         | Inr r \<Rightarrow> Inr (if trailer then ReqTrailer r else ReqHeader r))
      else case CtxRequest context of
             Some r \<Rightarrow> Inr (if trailer then ReqTrailer r else ReqHeader r)
           | None \<Rightarrow>
               (case CtxResponse context of
                  Some p \<Rightarrow> Inr (if trailer then RespTrailer p else RespHeader p)
                | None \<Rightarrow> Inl (GoPanic ''nil pointer dereference'')))"

definition componentHTTPMajor :: "MessageContext \<Rightarrow> bool \<Rightarrow> int" where
  "componentHTTPMajor context related =
     (if related \<or> CtxRequest context \<noteq> None then
        (case requestForComponent context related of Inl _ \<Rightarrow> 0 | Inr r \<Rightarrow> ReqProtoMajor r)
      else case CtxResponse context of Some p \<Rightarrow> RespProtoMajor p | None \<Rightarrow> 0)"

section \<open>Derived components\<close>

definition derivedValue :: "normalizedRequestParts \<Rightarrow> string \<Rightarrow> string" where
  "derivedValue parts name =
     (if name = ''@target-uri'' then partsScheme parts @ ''://'' @ partsAuthority parts @ partsOriginTarget parts
      else if name = ''@authority'' then partsAuthority parts
      else if name = ''@scheme'' then partsScheme parts
      else if name = ''@request-target'' then partsRequestTarget parts
      else if name = ''@path'' then partsPath parts
      else if name = ''@query'' then ''?'' @ partsRawQuery parts
      else [])"

definition resolveRequestDerived ::
  "urls \<Rightarrow> MessageContext \<Rightarrow> string \<Rightarrow> componentParameters \<Rightarrow> int \<Rightarrow> Request \<Rightarrow> string res" where
  "resolveRequestDerived u context name parameters maxBytes request =
     (if name = ''@method'' then
        (if go_len (ReqMethod request) > maxBytes then Inl (Sentinel ErrSignatureBaseLimit)
         else if \<not> validHTTPToken (ReqMethod request) then Inl (NewErr ''request method is invalid'')
         else Inr (ReqMethod request))
      else if name \<in> {''@target-uri'', ''@authority'', ''@scheme'', ''@request-target'', ''@path'', ''@query'',
                       ''@query-param''} then
        (if \<not> derivedSourceFits (Some request) (externalForRequest context request) name maxBytes
         then Inl (Sentinel ErrSignatureBaseLimit)
         else case requestParts u (Some request) (externalForRequest context request) of
                Inl partsErr \<Rightarrow> Inl partsErr
              | Inr parts \<Rightarrow>
                  if name \<noteq> ''@query-param'' then Inr (derivedValue parts name)
                  else (case cp_name parameters of
                          None \<Rightarrow> Inl (NewErr ''@query-param requires name'')
                        | Some n \<Rightarrow> queryParameter (partsRawQuery parts) n maxBytes))
      else Inl (NewErr ''unknown derived component''))"

definition resolveDerived ::
  "urls \<Rightarrow> MessageContext \<Rightarrow> string \<Rightarrow> componentParameters \<Rightarrow> int \<Rightarrow> string res" where
  "resolveDerived u context name parameters maxBytes =
     (if cp_bs parameters \<or> cp_sf parameters \<or> cp_tr parameters \<or> cp_key parameters \<noteq> None
      then Inl (NewErr ''field parameter used on derived component'')
      else if name \<noteq> ''@query-param'' \<and> cp_name parameters \<noteq> None
      then Inl (NewErr ''name parameter used outside @query-param'')
      else if name = ''@status'' then
        (if cp_req parameters \<or> cp_name parameters \<noteq> None then Inl (NewErr ''@status has invalid parameters'')
         else case CtxResponse context of
                None \<Rightarrow> Inl (NewErr ''@status requires a valid response'')
              | Some response \<Rightarrow>
                  if RespStatusCode response < 100 \<or> RespStatusCode response > 599
                  then Inl (NewErr ''@status requires a valid response'')
                  else Inr (formatInt (RespStatusCode response)))
      else case requestForComponent context (cp_req parameters) of
             Inl err \<Rightarrow> Inl err
           | Inr request \<Rightarrow> resolveRequestDerived u context name parameters maxBytes request)"

section \<open>Field values\<close>

text \<open>\<^verbatim>\<open>obsoleteLineFolding.ReplaceAllString(value, " ")\<close> for the expression CR LF followed by spaces or tabs.\<close>

function replaceFolding :: "string \<Rightarrow> string" where
  "replaceFolding [] = []"
| "replaceFolding (c # cs) =
     (if c = CHR 0x0D \<and> (case cs of d # e # _ \<Rightarrow> d = CHR 0x0A \<and> e \<in> set ows | _ \<Rightarrow> False)
      then CHR '' '' # replaceFolding (trimLeft ows (drop 1 cs))
      else c # replaceFolding cs)"
  by pat_completeness auto
termination
proof (relation "measure length", goal_cases)
  case (2 c cs)
  have "length (trimLeft ows (drop 1 cs)) \<le> length (drop 1 cs)" by (rule length_trimLeft)
  then show ?case using 2 by simp
qed auto

definition normalizeFieldBytes :: "string \<Rightarrow> string res" where
  "normalizeFieldBytes value =
     (let value = replaceFolding (trim ows value) in
      if containsAny value [CHR 0x0D, CHR 0x0A] then Inl (NewErr ''field value contains prohibited bytes'')
      else Inr value)"

definition normalizeFieldValue :: "string \<Rightarrow> string res" where
  "normalizeFieldValue value =
     (case normalizeFieldBytes value of
        Inl err \<Rightarrow> Inl err
      | Inr v \<Rightarrow> if \<not> asciiString v then Inl (NewErr ''field value contains prohibited bytes'') else Inr v)"

fun mapRes :: "('a \<Rightarrow> 'b res) \<Rightarrow> 'a list \<Rightarrow> 'b list res" where
  "mapRes f [] = Inr []"
| "mapRes f (x # xs) =
     (case f x of Inl e \<Rightarrow> Inl e | Inr y \<Rightarrow> (case mapRes f xs of Inl e \<Rightarrow> Inl e | Inr ys \<Rightarrow> Inr (y # ys)))"

definition canonicalCookieValue :: "string \<Rightarrow> string option" where
  "canonicalCookieValue value =
     (let parts = map (trim ows) (split CHR '';'' value) in
      if [] \<in> set parts then None else Some (join ''; '' parts))"

definition validNetHTTPHostHeader :: "string \<Rightarrow> bool" where
  "validNetHTTPHostHeader host =
     list_all (\<lambda>c. isDigit c \<or> isLower c \<or> isUpper c \<or>
       c \<in> set [CHR ''!'', CHR ''$'', CHR ''%'', CHR ''&'', CHR ''('', CHR '')'', CHR ''*'', CHR ''+'', CHR '','',
                CHR ''-'', CHR ''.'', CHR '':'', CHR '';'', CHR ''='', CHR 0x27, CHR ''['', CHR '']'', CHR ''_'',
                CHR ''~'']) host"

definition strictStructuredField :: "('p, 'd) httpsfv \<Rightarrow> string list \<Rightarrow> nat \<Rightarrow> string res" where
  "strictStructuredField h values fieldType =
     (if fieldType \<noteq> 1 \<and> fieldType \<noteq> 2 \<and> fieldType \<noteq> 3 then Inl (NewErr ''unknown structured field type'')
      else
        let values = normalizeStructuredFieldOWS values;
            parsed = (if fieldType = 1 then map_sum id SFDictionary (unmarshalStructuredDictionary h values)
                      else if fieldType = 2 then map_sum id SFList (unmarshalStructuredList h values)
                      else map_sum id SFItem (unmarshalStructuredItem h values))
        in case parsed of
             Inl _ \<Rightarrow> Inl (NewErr ''malformed structured field'')
           | Inr value \<Rightarrow>
               if \<not> isRFC8941StructuredField h value
               then Inl (NewErr ''structured field uses RFC 9651-only value'')
               else marshalRFC8941 h value)"

definition managedRequestField :: "MessageContext \<Rightarrow> string \<Rightarrow> bool \<Rightarrow> (string list \<times> bool) res" where
  "managedRequestField context name related =
     (case requestForComponent context related of
        Inl err \<Rightarrow> Inl err
      | Inr request \<Rightarrow>
          if EqualFold name ''host'' then
            (let host = (if ReqHost request = [] then
                           (case ReqURL request of None \<Rightarrow> [] | Some v \<Rightarrow> URLHost v) else ReqHost request);
                 host = removeIPv6Zone host
             in if host = [] then Inr ([], True)
                else if \<not> validNetHTTPHostHeader host
                then Inl (NewErr ''request Host is not representable on the net/http wire'')
                else Inr ([host], True))
          else if EqualFold name ''content-length'' then
            (case requestContentLength (Some request) of
               Some contentLength \<Rightarrow> Inr ([formatInt contentLength], True)
             | None \<Rightarrow> Inr ([], True))
          else requestTransportFieldValues request name)"

definition managedFieldValues ::
  "MessageContext \<Rightarrow> string \<Rightarrow> componentParameters \<Rightarrow> bool \<Rightarrow> (string list \<times> bool) res" where
  "managedFieldValues context name parameters requestOwned =
     (case (if requestOwned then managedRequestField context name (cp_req parameters) else Inr ([], False)) of
        Inl err \<Rightarrow> Inl err
      | Inr (values, handled) \<Rightarrow>
          if handled then Inr (values, True)
          else case CtxResponse context of
                 None \<Rightarrow> Inr ([], False)
               | Some response \<Rightarrow>
                   if cp_req parameters \<or> cp_tr parameters then Inr ([], False)
                   else if EqualFold name ''content-length'' then
                     map_sum id (\<lambda>vs. (vs, True))
                       (responseContentLengthFieldValues response (CtxResponseTransport context))
                   else responseTransportFieldValues response (CtxResponseTransport context) name)"

definition fieldSource ::
  "MessageContext \<Rightarrow> string \<Rightarrow> componentParameters \<Rightarrow> bool \<Rightarrow> string list res" where
  "fieldSource context name parameters requestOwned =
     (case managedFieldValues context name parameters requestOwned of
        Inl err \<Rightarrow> Inl err
      | Inr (values, True) \<Rightarrow> Inr values
      | Inr (values, False) \<Rightarrow>
          (case headerForComponent context (cp_req parameters) (cp_tr parameters) of
             Inl (GoPanic m) \<Rightarrow> Inl (GoPanic m)
           | Inl _ \<Rightarrow> Inr []
           | Inr header \<Rightarrow> caseInsensitiveHeaderValues header name))"

definition cookieCheck :: "string list \<Rightarrow> unit res" where
  "cookieCheck values =
     (case values of
        [v] \<Rightarrow>
          (case normalizeFieldValue v of
             Inl err \<Rightarrow> Inl err
           | Inr normalizedCookie \<Rightarrow>
               if canonicalCookieValue normalizedCookie \<noteq> Some normalizedCookie
               then Inl (NewErr ''cookie coverage requires canonical semicolon spacing'') else Inr ())
      | _ \<Rightarrow> Inl (NewErr ''cookie coverage requires one canonical field value''))"

definition canonicalField ::
  "('p, 'd) httpsfv \<Rightarrow> MessageContext \<Rightarrow> string \<Rightarrow> componentParameters \<Rightarrow> string list \<Rightarrow> string res" where
  "canonicalField h context name parameters values =
     (if cp_bs parameters then
        map_sum id (join '', '')
          (mapRes (\<lambda>v. map_sum id (\<lambda>n. '':'' @ encodeToString n @ '':'') (normalizeFieldBytes v)) values)
      else case mapRes normalizeFieldValue values of
        Inl err \<Rightarrow> Inl err
      | Inr normalized \<Rightarrow>
          (case cp_key parameters of
             Some key \<Rightarrow>
               (case unmarshalStructuredDictionary h normalized of
                  Inl _ \<Rightarrow> Inl (NewErr ''covered dictionary field is malformed'')
                | Inr dictionary \<Rightarrow>
                    if \<not> isRFC8941StructuredField h (SFDictionary dictionary)
                    then Inl (NewErr ''covered dictionary field is malformed'')
                    else case DictGet h dictionary key of
                           None \<Rightarrow> Inl (NewErr ''covered dictionary member is absent'')
                         | Some member \<Rightarrow> marshalMember h member)
           | None \<Rightarrow>
               if cp_sf parameters then
                 (case CtxStructuredFields context (toLower name) of
                    None \<Rightarrow> Inl (NewErr ''structured field type is unknown'')
                  | Some fieldType \<Rightarrow> strictStructuredField h normalized fieldType)
               else Inr (join '', '' normalized)))"

definition resolveField ::
  "('p, 'd) httpsfv \<Rightarrow> MessageContext \<Rightarrow> string \<Rightarrow> componentParameters \<Rightarrow> int \<Rightarrow> string res" where
  "resolveField h context name parameters maxBytes =
     (if cp_name parameters \<noteq> None then Inl (NewErr ''name parameter used on field'')
      else
        let requestOwned = (\<not> cp_tr parameters \<and> (cp_req parameters \<or> CtxRequest context \<noteq> None)) in
        case fieldSource context name parameters requestOwned of
          Inl err \<Rightarrow> Inl err
        | Inr values \<Rightarrow>
            if values = [] then Inl (NewErr ''covered field is absent'')
            else if \<not> cp_bs parameters \<and> EqualFold name ''set-cookie'' \<and> length values \<noteq> 1
            then Inl (NewErr ''multiple Set-Cookie fields require binary wrapping'')
            else
              (case (if requestOwned \<and> EqualFold name ''cookie'' \<and> \<not> cp_bs parameters
                     then cookieCheck values else Inr ()) of
                 Inl err \<Rightarrow> Inl err
               | Inr _ \<Rightarrow>
                   if \<not> fieldValuesFit values (cp_bs parameters) maxBytes then Inl (Sentinel ErrSignatureBaseLimit)
                   else if componentHTTPMajor context (cp_req parameters) \<noteq> 1 \<and>
                           list_ex (\<lambda>v. containsAny v [CHR 0x0D, CHR 0x0A]) values
                   then Inl (NewErr ''field value contains HTTP/1.1-only line folding'')
                   else canonicalField h context name parameters values))"

definition resolveComponent ::
  "('p, 'd) httpsfv \<Rightarrow> urls \<Rightarrow> MessageContext \<Rightarrow> ComponentIdentifier \<Rightarrow> int \<Rightarrow> string res" where
  "resolveComponent h u context component maxBytes =
     (if CompName component = ''@signature-params''
      then Inl (NewErr ''@signature-params cannot be covered explicitly'')
      else case componentParameterSet (CompParameters component) of
             Inl err \<Rightarrow> Inl err
           | Inr parameters \<Rightarrow>
               if hasPrefix (CompName component) ''@''
               then resolveDerived u context (CompName component) parameters maxBytes
               else resolveField h context (CompName component) parameters maxBytes)"

section \<open>The signature base\<close>

definition DefaultMaxSignatureBaseBytes :: int where
  "DefaultMaxSignatureBaseBytes = 2 ^ 20"

definition validDerivedValue :: "string \<Rightarrow> bool" where
  "validDerivedValue value \<longleftrightarrow>
     value \<noteq> [] \<and> hd value \<notin> set ows \<and> last value \<notin> set ows \<and>
     list_all (\<lambda>c. 0x20 \<le> byte c \<and> byte c \<le> 0x7e) value"

definition baseError :: "string \<Rightarrow> goerr" where
  "baseError text = Errorf text [Sentinel ErrSignatureBase] []"

definition parameterPrefix :: string where
  "parameterPrefix = [CHR 0x22] @ ''@signature-params'' @ [CHR 0x22] @ '': ''"

definition baseLine :: "string \<Rightarrow> string \<Rightarrow> string" where
  "baseLine identifier value = identifier @ '': '' @ value @ [CHR 0x0A]"

fun createBase_loop ::
  "('p, 'd) httpsfv \<Rightarrow> urls \<Rightarrow> MessageContext \<Rightarrow> string set \<Rightarrow> int \<Rightarrow> string \<Rightarrow> ComponentIdentifier list \<Rightarrow>
   (int \<times> string) res" where
  "createBase_loop h u context seen remaining builder [] = Inr (remaining, builder)"
| "createBase_loop h u context seen remaining builder (component # components) =
     (if \<not> structuredItemFits h (CompName component) (CompParameters component) remaining
      then Inl (Sentinel ErrSignatureBaseLimit)
      else case serializeComponentIdentifier h component of
        Inl _ \<Rightarrow> Inl (baseError ''%w: invalid component identifier'')
      | Inr identifier \<Rightarrow>
          let comparisonKey = comparisonKeyOrEmpty h component in
          if comparisonKey \<in> seen then Inl (baseError ''%w: duplicate component identifier'')
          else
            let fixedBytes = saturatingSizeAdd (go_len identifier) 3 in
            case consumeSize remaining fixedBytes of (r, ok) \<Rightarrow>
              if \<not> ok then Inl (Sentinel ErrSignatureBaseLimit)
              else case resolveComponent h u context component r of
                Inl err \<Rightarrow>
                  if errorsIs err ErrSignatureBaseLimit then Inl (Sentinel ErrSignatureBaseLimit)
                  else if isPanic (Inl err :: unit res) then Inl err
                  else Inl (Errorf ''%w: %v'' [Sentinel ErrSignatureBase] [err])
              | Inr value \<Rightarrow>
                  if hasPrefix (CompName component) ''@'' \<and> CompName component \<noteq> ''@query-param'' \<and>
                     \<not> validDerivedValue value
                  then Inl (baseError ''%w: component contains prohibited bytes'')
                  else createBase_loop h u context (insert comparisonKey seen) (i64 (r - go_len value))
                         (builder @ baseLine identifier value) components)"

definition CreateSignatureBase ::
  "('p, 'd) httpsfv \<Rightarrow> urls \<Rightarrow> MessageContext \<Rightarrow> SignatureInput \<Rightarrow> string res" where
  "CreateSignatureBase h u context input =
     (if (CtxRequest context = None) = (CtxResponse context = None)
      then Inl (baseError ''%w: exactly one target message is required'')
      else if CtxResponseTransport context > ResponseTransportWrite \<or>
              CtxRequest context \<noteq> None \<and> CtxResponseTransport context \<noteq> ResponseTransportUnspecified
      then Inl (baseError ''%w: invalid response transport mode'')
      else
        let limit = (if CtxMaxSignatureBaseBytes context = 0 then DefaultMaxSignatureBaseBytes
                     else CtxMaxSignatureBaseBytes context)
        in if limit < 0 then Inl (Sentinel ErrSignatureBaseLimit)
           else case createBase_loop h u context {} limit [] (InComponents input) of
             Inl err \<Rightarrow> Inl err
           | Inr (remaining, builder) \<Rightarrow>
               (case consumeSize remaining (go_len parameterPrefix) of (r, ok) \<Rightarrow>
                  if \<not> ok \<or> \<not> signatureParametersFit h input r then Inl (Sentinel ErrSignatureBaseLimit)
                  else case serializeSignatureParameters h input of
                         Inl _ \<Rightarrow> Inl (baseError ''%w: invalid signature parameters'')
                       | Inr parameters \<Rightarrow> Inr (builder @ parameterPrefix @ parameters)))"

section \<open>Values on one line\<close>

text \<open>What the code relies on of the serialiser: its output has no line break.\<close>

definition oneLine :: "string \<Rightarrow> bool" where
  "oneLine s \<longleftrightarrow> CHR 0x0A \<notin> set s"

definition marshalOneLine :: "('p, 'd) httpsfv \<Rightarrow> bool" where
  "marshalOneLine h \<longleftrightarrow> (\<forall>v s. Marshal h v = Inr s \<longrightarrow> oneLine s)"

lemma oneLine_append [simp]: "oneLine (s @ t) \<longleftrightarrow> oneLine s \<and> oneLine t"
  by (auto simp: oneLine_def)

lemma oneLine_join: "oneLine sep \<Longrightarrow> \<forall>x \<in> set xs. oneLine x \<Longrightarrow> oneLine (join sep xs)"
  using set_join [of sep xs] by (auto simp: oneLine_def)

lemma set_restoreDecimals:
  "set (restoreDecimals_loop s index result quoted escaped) \<subseteq> set result \<union> set s \<union> {CHR ''0''}"
proof (induction "length s - index" arbitrary: index result quoted escaped rule: less_induct)
  case less
  show ?case
  proof (cases "index \<ge> length s")
    case True
    then show ?thesis by (subst restoreDecimals_loop.simps) auto
  next
    case False
    then have lt: "length s - (index + 1) < length s - index" and c: "s ! index \<in> set s" by auto
    have IH: "set (restoreDecimals_loop s (index + 1) (result @ x) q e) \<subseteq> set result \<union> set s \<union> {CHR ''0''}"
      if "set x \<subseteq> set s \<union> {CHR ''0''}" for x q e
      using less.hyps [OF lt, of "result @ x" q e] that by auto
    show ?thesis
      using False c
      by (subst restoreDecimals_loop.simps) (simp only: Let_def if_False split: if_split, intro conjI impI IH, auto)
  qed
qed

lemma oneLine_restore: "oneLine s \<Longrightarrow> oneLine (restoreRFC8941IntegralDecimals s)"
  using set_restoreDecimals [of s 0 "[]" False False]
  by (auto simp: oneLine_def restoreRFC8941IntegralDecimals_def)

lemma marshalRFC8941_oneLine: "marshalOneLine h \<Longrightarrow> marshalRFC8941 h v = Inr s \<Longrightarrow> oneLine s"
  by (auto simp: marshalRFC8941_def marshalOneLine_def intro!: oneLine_restore split: if_splits sum.splits)

lemma oneLine_drop: "oneLine s \<Longrightarrow> oneLine (drop n s)"
  unfolding oneLine_def using in_set_dropD by fastforce

lemma marshalMember_oneLine: "marshalOneLine h \<Longrightarrow> marshalMember h m = Inr s \<Longrightarrow> oneLine s"
proof -
  assume h: "marshalOneLine h" and m: "marshalMember h m = Inr s"
  from m obtain t where t: "marshalRFC8941 h (SFDictionary (DictAdd h (NewDictionary h) ''x'' m)) = Inr t"
    by (auto simp: marshalMember_def split: sum.splits)
  then have "oneLine t" by (rule marshalRFC8941_oneLine [OF h])
  then have "oneLine (drop n t)" "oneLine (''?1'' @ t)" "oneLine (''?1'' @ drop n t)" for n
    unfolding oneLine_append using oneLine_drop by (auto simp: oneLine_def)
  then show ?thesis using m t by (auto simp: marshalMember_def split: if_splits)
qed

lemma normalizeFieldBytes_oneLine: "normalizeFieldBytes v = Inr s \<Longrightarrow> oneLine s"
  by (auto simp: normalizeFieldBytes_def oneLine_def containsAny_def Let_def split: if_splits)

lemma normalizeFieldValue_oneLine: "normalizeFieldValue v = Inr s \<Longrightarrow> oneLine s"
  by (auto simp: normalizeFieldValue_def dest: normalizeFieldBytes_oneLine split: sum.splits if_splits)

lemma mapRes_all: "mapRes f xs = Inr ys \<Longrightarrow> (\<And>x y. f x = Inr y \<Longrightarrow> P y) \<Longrightarrow> \<forall>y \<in> set ys. P y"
  by (induction xs arbitrary: ys) (auto split: sum.splits)

lemma encodeToString_oneLine: "oneLine (encodeToString s)"
proof -
  obtain k where "encodeToString s = map b64char (encodeSextets s) @ replicate k CHR ''=''"
    using encodeToString_pads by blast
  then show ?thesis unfolding oneLine_def using encodeSextets_less b64char_props(4) by fastforce
qed

lemma strictStructuredField_oneLine:
  "marshalOneLine h \<Longrightarrow> strictStructuredField h xs t = Inr s \<Longrightarrow> oneLine s"
  by (auto simp: strictStructuredField_def Let_def dest: marshalRFC8941_oneLine split: if_splits sum.splits)

lemma canonicalField_oneLine:
  assumes "marshalOneLine h" "canonicalField h context name parameters xs = Inr s"
  shows "oneLine s"
proof (cases "cp_bs parameters")
  case True
  let ?f = "\<lambda>v. map_sum id (\<lambda>n. '':'' @ encodeToString n @ '':'') (normalizeFieldBytes v)"
  from True assms(2) have "map_sum id (join '', '') (mapRes ?f xs) = Inr s" by (simp add: canonicalField_def)
  then obtain ys where ys: "mapRes ?f xs = Inr ys" "s = join '', '' ys" by (cases "mapRes ?f xs") auto
  have "\<forall>y \<in> set ys. oneLine y"
  proof (rule mapRes_all [OF ys(1)])
    fix x y assume "?f x = Inr y"
    then obtain n where "y = '':'' @ encodeToString n @ '':''" by (cases "normalizeFieldBytes x") auto
    then show "oneLine y" unfolding oneLine_def using encodeToString_oneLine [of n] by (auto simp: oneLine_def)
  qed
  then show ?thesis using ys(2) oneLine_join [of "'', ''" ys] by (simp add: oneLine_def [of "'', ''"])
next
  case False
  then obtain ns where ns: "mapRes normalizeFieldValue xs = Inr ns"
    using assms(2) by (auto simp: canonicalField_def split: sum.splits)
  have "oneLine (join '', '' ns)"
    using mapRes_all [OF ns, of oneLine] normalizeFieldValue_oneLine oneLine_join [of "'', ''" ns]
    by (simp add: oneLine_def [of "'', ''"])
  then show ?thesis
    using assms False ns marshalMember_oneLine strictStructuredField_oneLine
    by (auto simp: canonicalField_def split: sum.splits option.splits if_splits)
qed

lemma resolveField_oneLine:
  "marshalOneLine h \<Longrightarrow> resolveField h context name parameters m = Inr s \<Longrightarrow> oneLine s"
  using canonicalField_oneLine [of h]
  by (auto simp: resolveField_def Let_def split: if_splits sum.splits)

lemma printable_oneLine: "list_all (\<lambda>c. 0x20 \<le> byte c \<and> byte c \<le> 0x7e) s \<Longrightarrow> oneLine s"
  by (auto simp: oneLine_def list_all_iff)

lemma queryParameter_oneLine: "queryParameter q n m = Inr s \<Longrightarrow> oneLine s"
proof -
  assume "queryParameter q n m = Inr s"
  then obtain p where "s = pairValue p" using queryParameter_ok by blast
  then have "list_all (\<lambda>c. formUnreserved c \<or> c = CHR ''%'') s"
    using formPercentEncode_alphabet by (simp add: pairValue_def)
  then show ?thesis
    by (auto simp: oneLine_def list_all_iff formUnreserved_def isLower_def isUpper_def isDigit_def)
qed

text \<open>The value of a covered component, once the derived-value check has passed, is on one line.\<close>

lemma resolveComponent_oneLine:
  assumes "marshalOneLine h" "resolveComponent h u context c m = Inr s"
    "\<not> (hasPrefix (CompName c) ''@'' \<and> CompName c \<noteq> ''@query-param'' \<and> \<not> validDerivedValue s)"
  shows "oneLine s"
proof -
  obtain ps where ps: "(if hasPrefix (CompName c) ''@'' then resolveDerived u context (CompName c) ps m
      else resolveField h context (CompName c) ps m) = Inr s"
    using assms(2) by (auto simp: resolveComponent_def split: if_splits sum.splits)
  consider "\<not> hasPrefix (CompName c) ''@''" | "validDerivedValue s"
    | "hasPrefix (CompName c) ''@''" "CompName c = ''@query-param''" using assms(3) by blast
  then show ?thesis
  proof cases
    case 1
    then show ?thesis using ps resolveField_oneLine [OF assms(1)] by simp
  next
    case 2
    then show ?thesis by (simp add: validDerivedValue_def printable_oneLine)
  next
    case 3
    then have "resolveDerived u context ''@query-param'' ps m = Inr s" using ps by simp
    then show ?thesis
      by (auto simp: resolveDerived_def resolveRequestDerived_def dest: queryParameter_oneLine
          split: if_splits sum.splits option.splits)
  qed
qed


section \<open>Structure of the base\<close>

definition isLimit :: "MessageContext \<Rightarrow> int \<Rightarrow> bool" where
  "isLimit ctx limit \<longleftrightarrow>
     limit = (if CtxMaxSignatureBaseBytes ctx = 0 then DefaultMaxSignatureBaseBytes
              else CtxMaxSignatureBaseBytes ctx)"

text \<open>One iteration of the component loop that does not fail.\<close>

lemma createBase_step:
  assumes "createBase_loop h u ctx seen remaining builder (c # cs) = Inr out"
  obtains i v where
    "structuredItemFits h (CompName c) (CompParameters c) remaining"
    "serializeComponentIdentifier h c = Inr i" "comparisonKeyOrEmpty h c \<notin> seen"
    "consumeSize remaining (saturatingSizeAdd (go_len i) 3) =
       (fst (consumeSize remaining (saturatingSizeAdd (go_len i) 3)), True)"
    "resolveComponent h u ctx c (fst (consumeSize remaining (saturatingSizeAdd (go_len i) 3))) = Inr v"
    "\<not> (hasPrefix (CompName c) ''@'' \<and> CompName c \<noteq> ''@query-param'' \<and> \<not> validDerivedValue v)"
    "createBase_loop h u ctx (insert (comparisonKeyOrEmpty h c) seen)
       (i64 (fst (consumeSize remaining (saturatingSizeAdd (go_len i) 3)) - go_len v))
       (builder @ baseLine i v) cs = Inr out"
proof -
  from assms obtain i where i: "serializeComponentIdentifier h c = Inr i"
    by (auto split: if_splits sum.splits)
  obtain r ok where r: "consumeSize remaining (saturatingSizeAdd (go_len i) 3) = (r, ok)"
    by (cases "consumeSize remaining (saturatingSizeAdd (go_len i) 3)")
  from assms i r have ok by (auto simp: Let_def split: if_splits)
  with assms i r obtain v where v: "resolveComponent h u ctx c r = Inr v"
    by (auto simp: Let_def split: if_splits sum.splits)
  show ?thesis
    by (rule that [of i v]) (use assms i r v \<open>ok\<close> in \<open>auto simp: Let_def split: if_splits\<close>)
qed

definition baseLines :: "string list \<Rightarrow> string list \<Rightarrow> string" where
  "baseLines ids vs = concat (map2 baseLine ids vs)"

lemma serializeComponentIdentifier_oneLine:
  "marshalOneLine h \<Longrightarrow> serializeComponentIdentifier h c = Inr i \<Longrightarrow> oneLine i"
  by (auto simp: serializeComponentIdentifier_def dest: marshalRFC8941_oneLine split: if_splits)

lemma createBase_loop_lines:
  assumes "marshalOneLine h"
  shows "createBase_loop h u ctx seen remaining builder cs = Inr (r, out) \<Longrightarrow>
    \<exists>ids vs. out = builder @ baseLines ids vs \<and> length vs = length ids \<and>
      mapRes (serializeComponentIdentifier h) cs = Inr ids \<and>
      (\<forall>x \<in> set ids \<union> set vs. oneLine x)"
proof (induction cs arbitrary: seen remaining builder)
  case Nil
  then show ?case by (intro exI [of _ "[]"]) (simp add: baseLines_def)
next
  case (Cons c cs)
  obtain i v rem where s: "serializeComponentIdentifier h c = Inr i"
    "resolveComponent h u ctx c rem = Inr v"
    "\<not> (hasPrefix (CompName c) ''@'' \<and> CompName c \<noteq> ''@query-param'' \<and> \<not> validDerivedValue v)"
    "createBase_loop h u ctx (insert (comparisonKeyOrEmpty h c) seen) (i64 (rem - go_len v))
       (builder @ baseLine i v) cs = Inr (r, out)"
    using createBase_step [OF Cons.prems] by metis
  from Cons.IH [OF s(4)] obtain ids vs where IH: "out = (builder @ baseLine i v) @ baseLines ids vs"
    "length vs = length ids" "mapRes (serializeComponentIdentifier h) cs = Inr ids"
    "\<forall>x \<in> set ids \<union> set vs. oneLine x" by blast
  have "oneLine i" "oneLine v"
    using serializeComponentIdentifier_oneLine [OF assms s(1)] resolveComponent_oneLine [OF assms s(2,3)] by auto
  with IH s(1) show ?case
    by (intro exI [of _ "i # ids"] exI [of _ "v # vs"]) (simp add: baseLines_def)
qed

lemma CreateSignatureBase_ok:
  assumes "CreateSignatureBase h u ctx input = Inr base"
  obtains limit remaining builder r params where
    "isLimit ctx limit" "0 \<le> limit" "(CtxRequest ctx = None) \<noteq> (CtxResponse ctx = None)"
    "createBase_loop h u ctx {} limit [] (InComponents input) = Inr (remaining, builder)"
    "consumeSize remaining (go_len parameterPrefix) = (r, True)" "signatureParametersFit h input r"
    "serializeSignatureParameters h input = Inr params" "base = builder @ parameterPrefix @ params"
  using assms that
  by (auto simp: CreateSignatureBase_def isLimit_def Let_def split: if_splits sum.splits prod.splits)

lemma split_oneLine_append: "oneLine s \<Longrightarrow> split CHR 0x0A (s @ CHR 0x0A # t) = s # split CHR 0x0A t"
  by (induction s) (auto simp: oneLine_def)

lemma split_oneLine: "oneLine s \<Longrightarrow> split CHR 0x0A s = [s]"
  by (induction s) (auto simp: oneLine_def)

lemma split_baseLines:
  "length vs = length ids \<Longrightarrow> \<forall>x \<in> set ids \<union> set vs. oneLine x \<Longrightarrow> oneLine t \<Longrightarrow>
   split CHR 0x0A (baseLines ids vs @ t) = map2 (\<lambda>i v. i @ '': '' @ v) ids vs @ [t]"
proof (induction vs ids rule: list_induct2)
  case Nil
  then show ?case by (simp add: baseLines_def split_oneLine)
next
  case (Cons v vs i ids)
  have "oneLine (i @ '': '' @ v)" using Cons.prems by (simp add: oneLine_def)
  moreover have "baseLines (i # ids) (v # vs) @ t = (i @ '': '' @ v) @ CHR 0x0A # (baseLines ids vs @ t)"
    by (simp add: baseLines_def baseLine_def)
  ultimately have "split CHR 0x0A (baseLines (i # ids) (v # vs) @ t) =
      (i @ '': '' @ v) # split CHR 0x0A (baseLines ids vs @ t)"
    using split_oneLine_append by metis
  then show ?case using Cons by simp
qed

lemma serializeSignatureParameters_oneLine:
  "marshalOneLine h \<Longrightarrow> serializeSignatureParameters h input = Inr s \<Longrightarrow> oneLine s"
  by (auto simp: serializeSignatureParameters_def dest: marshalRFC8941_oneLine split: if_splits sum.splits)

lemma parameterPrefix_oneLine: "oneLine parameterPrefix"
  by (simp add: parameterPrefix_def oneLine_def)

lemma base_lines:
  assumes "marshalOneLine h" "CreateSignatureBase h u ctx input = Inr base"
  shows "\<exists>ids vs params. mapRes (serializeComponentIdentifier h) (InComponents input) = Inr ids \<and>
    length vs = length ids \<and> serializeSignatureParameters h input = Inr params \<and>
    split CHR 0x0A base = map2 (\<lambda>i v. i @ '': '' @ v) ids vs @ [parameterPrefix @ params]"
proof -
  obtain limit remaining builder params where b:
    "createBase_loop h u ctx {} limit [] (InComponents input) = Inr (remaining, builder)"
    "serializeSignatureParameters h input = Inr params" "base = builder @ parameterPrefix @ params"
    using CreateSignatureBase_ok [OF assms(2)] by metis
  obtain ids vs where l: "builder = baseLines ids vs" "length vs = length ids"
    "mapRes (serializeComponentIdentifier h) (InComponents input) = Inr ids" "\<forall>x \<in> set ids \<union> set vs. oneLine x"
    using createBase_loop_lines [OF assms(1) b(1)] by auto
  have "oneLine (parameterPrefix @ params)"
    using parameterPrefix_oneLine serializeSignatureParameters_oneLine [OF assms(1) b(2)] by simp
  from split_baseLines [OF l(2,4) this] l b show ?thesis by auto
qed

section \<open>Identities of the base\<close>

lemma createBase_loop_keys:
  "createBase_loop h u ctx seen remaining builder cs = Inr out \<Longrightarrow>
   sorted_wrt (\<lambda>c d. comparisonKeyOrEmpty h c \<noteq> comparisonKeyOrEmpty h d) cs \<and>
   (\<forall>c \<in> set cs. comparisonKeyOrEmpty h c \<notin> seen \<and> CompName c \<noteq> ''@signature-params'' \<and>
      validComponentName (CompName c) \<and> isOk (componentParameterSet (CompParameters c)))"
proof (induction cs arbitrary: seen remaining builder)
  case (Cons c cs)
  obtain i v rem rem' where s: "serializeComponentIdentifier h c = Inr i" "comparisonKeyOrEmpty h c \<notin> seen"
    "resolveComponent h u ctx c rem = Inr v"
    "createBase_loop h u ctx (insert (comparisonKeyOrEmpty h c) seen) rem' (builder @ baseLine i v) cs = Inr out"
    using createBase_step [OF Cons.prems] by metis
  have "CompName c \<noteq> ''@signature-params''" "isOk (componentParameterSet (CompParameters c))"
    using s(3) by (auto simp: resolveComponent_def split: if_splits sum.splits)
  moreover have "validComponentName (CompName c)"
    using s(1) by (auto simp: serializeComponentIdentifier_def split: if_splits)
  ultimately show ?case using Cons.IH [OF s(4)] s(2) by auto
qed simp

section \<open>Budget\<close>

definition signatureParametersUpperBound :: "('p, 'd) httpsfv \<Rightarrow> SignatureInput \<Rightarrow> int" where
  "signatureParametersUpperBound h input =
     2 + sum_list (map (\<lambda>c. structuredItemUpperBound h (CompName c) (CompParameters c)) (InComponents input)) +
     (go_len (InComponents input) - (if InComponents input = [] then 0 else 1)) +
     sum_list (map (parameterUpperBound h) (InParameters input))"

text \<open>A Go string has at most \<^verbatim>\<open>MaxInt\<close> bytes; the library's results are Go strings too.\<close>

definition goStrings :: "('p, 'd) httpsfv \<Rightarrow> urls \<Rightarrow> MessageContext \<Rightarrow> ComponentIdentifier list \<Rightarrow> bool" where
  "goStrings h u ctx cs \<longleftrightarrow>
     (\<forall>c \<in> set cs. \<forall>m v. resolveComponent h u ctx c m = Inr v \<longrightarrow> go_len v \<le> MaxInt)"

lemma consumeSize_True:
  "consumeSize remaining n = (r, True) \<Longrightarrow> remaining \<le> MaxInt \<Longrightarrow>
   0 \<le> n \<and> n \<le> remaining \<and> r = remaining - n"
  using consumeSize_eq [of remaining n] consumeSize_rejects [of remaining n]
  by (cases "remaining < 0") (auto simp: go_size_def split: if_splits)

lemma saturatingSizeAdd_exact:
  "0 \<le> a \<Longrightarrow> go_size b \<Longrightarrow> saturatingSizeAdd a b < MaxInt \<Longrightarrow> saturatingSizeAdd a b = a + b"
  by (auto simp: saturatingSizeAdd_eq min_def split: if_splits)

lemma saturatingSizeAdd_neg: "a < 0 \<Longrightarrow> saturatingSizeAdd a b = MaxInt"
  by (simp add: saturatingSizeAdd_def safeSizeAdd_def)

lemma createBase_loop_budget:
  assumes "limit < MaxInt"
  shows "createBase_loop h u ctx seen remaining builder cs = Inr (r, out) \<Longrightarrow> goStrings h u ctx cs \<Longrightarrow>
    remaining = limit - go_len builder \<Longrightarrow> r = limit - go_len out"
proof (induction cs arbitrary: seen remaining builder)
  case (Cons c cs)
  obtain i v rem where s:
    "consumeSize remaining (saturatingSizeAdd (go_len i) 3) = (rem, True)"
    "resolveComponent h u ctx c rem = Inr v"
    "createBase_loop h u ctx (insert (comparisonKeyOrEmpty h c) seen) (i64 (rem - go_len v))
       (builder @ baseLine i v) cs = Inr (r, out)"
    using createBase_step [OF Cons.prems(1)] by metis
  have le: "remaining < MaxInt" using Cons.prems(3) assms by simp
  have f: "0 \<le> saturatingSizeAdd (go_len i) 3" "saturatingSizeAdd (go_len i) 3 \<le> remaining"
    "rem = remaining - saturatingSizeAdd (go_len i) 3"
    using consumeSize_True [OF s(1)] le by auto
  have "saturatingSizeAdd (go_len i) 3 = go_len i + 3"
    by (rule saturatingSizeAdd_exact) (use f(2) le in auto)
  then have rem: "rem = limit - go_len builder - go_len i - 3" "0 \<le> rem" using f Cons.prems(3) by auto
  have "go_len v \<le> MaxInt" using Cons.prems(2) s(2) unfolding goStrings_def by auto
  then have "go_int (rem - go_len v)"
    using rem(2) f(1) le f(3) by (auto simp: go_int_def MinInt_def MaxInt_def)
  then have "i64 (rem - go_len v) = limit - go_len (builder @ baseLine i v)"
    using rem(1) by (simp add: baseLine_def)
  with Cons.IH [OF s(3)] Cons.prems(2) show ?case by (simp add: goStrings_def)
qed simp

lemma componentsFit_loop_sum:
  "componentsFit_loop h first remaining cs = Some r \<Longrightarrow> remaining < MaxInt \<Longrightarrow>
   r = remaining -
     (sum_list (map (\<lambda>c. structuredItemUpperBound h (CompName c) (CompParameters c)) cs) +
      (go_len cs - (if first \<and> cs \<noteq> [] then 1 else 0))) \<and> r < MaxInt"
proof (induction cs arbitrary: first remaining)
  case (Cons c cs)
  define b where "b = structuredItemUpperBound h (CompName c) (CompParameters c)"
  define n where "n = (if first then b else saturatingSizeAdd b 1)"
  from Cons.prems(1) obtain rem where s: "consumeSize remaining n = (rem, True)"
    "componentsFit_loop h False rem cs = Some r"
    by (auto simp: Let_def b_def [symmetric] n_def [symmetric] split: prod.splits if_splits)
  have c: "0 \<le> n" "n \<le> remaining" "rem = remaining - n" using consumeSize_True [OF s(1)] Cons.prems(2) by auto
  have "n = b + (if first then 0 else 1)"
  proof (cases "b < 0")
    case True
    then show ?thesis using c Cons.prems(2) saturatingSizeAdd_neg [of b 1] by (auto simp: n_def split: if_splits)
  next
    case False
    then show ?thesis using c Cons.prems(2) saturatingSizeAdd_exact [of b 1] by (auto simp: n_def split: if_splits)
  qed
  with Cons.IH [OF s(2)] c Cons.prems(2) show ?case by (auto simp: b_def)
qed auto

lemma parametersFit_loop_sum:
  "parametersFit_loop h remaining ps \<Longrightarrow> 0 \<le> remaining \<Longrightarrow> remaining < MaxInt \<Longrightarrow>
   sum_list (map (parameterUpperBound h) ps) \<le> remaining"
proof (induction ps arbitrary: remaining)
  case (Cons p ps)
  from Cons.prems(1) obtain rem where "consumeSize remaining (parameterUpperBound h p) = (rem, True)"
    "parametersFit_loop h rem ps" by (auto split: prod.splits if_splits)
  with Cons.IH [of rem] consumeSize_True [of remaining "parameterUpperBound h p" rem] Cons.prems(2,3)
  show ?case by auto
qed simp

lemma componentsFit_loop_nonneg:
  "componentsFit_loop h first remaining cs = Some r \<Longrightarrow> 0 \<le> remaining \<Longrightarrow> remaining < MaxInt \<Longrightarrow> 0 \<le> r"
proof (induction cs arbitrary: first remaining)
  case (Cons c cs)
  from Cons.prems(1) obtain n rem where "consumeSize remaining n = (rem, True)"
    "componentsFit_loop h False rem cs = Some r" by (auto simp: Let_def split: prod.splits if_splits)
  with Cons.IH [of False rem] consumeSize_True [of remaining n rem] Cons.prems(2,3) show ?case by auto
qed simp

lemma signatureParametersFit_sum:
  assumes "signatureParametersFit h input budget" "budget < MaxInt"
  shows "signatureParametersUpperBound h input \<le> budget"
proof -
  obtain r r' where r: "consumeSize budget 2 = (r, True)" "componentsFit_loop h True r (InComponents input) = Some r'"
    "parametersFit_loop h r' (InParameters input)"
    using assms(1) by (auto simp: signatureParametersFit_def split: prod.splits if_splits option.splits)
  have b: "r = budget - 2" "0 \<le> r" "r < MaxInt" using consumeSize_True [OF r(1)] assms(2) by auto
  have "0 \<le> r'" "r' < MaxInt"
    using componentsFit_loop_nonneg [OF r(2)] componentsFit_loop_sum [OF r(2)] b by auto
  with parametersFit_loop_sum [OF r(3)] componentsFit_loop_sum [OF r(2)] b show ?thesis
    by (auto simp: signatureParametersUpperBound_def)
qed

end
