(* ===== verification/SignatureBase.thy ===== *)
theory SignatureBase
  imports Message
begin

text \<open>
  What the signature base guarantees: its line structure (no covered value can add or merge a line), the
  identity of the covered components, the byte budget, the classification of every failure, and the
  agreement of the two response representations when no transport mode is selected.
\<close>

section \<open>Failures\<close>

definition noPanic :: "goerr \<Rightarrow> bool" where
  "noPanic e \<longleftrightarrow> (\<forall>m. e \<noteq> GoPanic m)"

text \<open>\<^verbatim>\<open>httpsfv.Marshal\<close> reports failures as errors.\<close>

definition marshalTotal :: "('p, 'd) httpsfv \<Rightarrow> bool" where
  "marshalTotal h \<longleftrightarrow> (\<forall>v e. Marshal h v = Inl e \<longrightarrow> noPanic e)"

lemma noPanic_simps [simp]:
  "noPanic (Sentinel s)" "noPanic (NewErr m)" "noPanic (Errorf f ws vs)" "\<not> noPanic (GoPanic m)"
  by (simp_all add: noPanic_def)

lemma noPanic_isPanic: "isPanic (Inl e :: unit res) \<longleftrightarrow> \<not> noPanic e"
  by (cases e) auto

lemma marshalRFC8941_noPanic: "marshalTotal h \<Longrightarrow> marshalRFC8941 h v = Inl e \<Longrightarrow> noPanic e"
  by (auto simp: marshalRFC8941_def marshalTotal_def errStructuredFieldRFC8941_def split: if_splits sum.splits)

lemma marshalMember_noPanic: "marshalTotal h \<Longrightarrow> marshalMember h m = Inl e \<Longrightarrow> noPanic e"
  by (auto simp: marshalMember_def dest: marshalRFC8941_noPanic split: if_splits sum.splits)

lemma strictStructuredField_noPanic: "marshalTotal h \<Longrightarrow> strictStructuredField h xs t = Inl e \<Longrightarrow> noPanic e"
  by (auto simp: strictStructuredField_def Let_def dest: marshalRFC8941_noPanic split: if_splits sum.splits)

lemma headerValues_loop_noPanic: "headerValues_loop name found hdr = Inl e \<Longrightarrow> noPanic e"
  by (induction name found hdr rule: headerValues_loop.induct) (auto split: if_splits)

lemma caseInsensitiveHeaderValues_noPanic: "caseInsensitiveHeaderValues hdr name = Inl e \<Longrightarrow> noPanic e"
  unfolding caseInsensitiveHeaderValues_def by (rule headerValues_loop_noPanic)

lemma mapRes_error: "mapRes f xs = Inl e \<Longrightarrow> (\<And>x e. f x = Inl e \<Longrightarrow> P e) \<Longrightarrow> P e"
  by (induction xs) (auto split: sum.splits)

lemma map_sum_Inl: "map_sum id g x = Inl e \<longleftrightarrow> x = Inl e"
  by (cases x) auto

lemma trailerKeys_loop_noPanic: "trailerKeys_loop keys hdr = Inl e \<Longrightarrow> noPanic e"
  by (induction keys hdr rule: trailerKeys_loop.induct) (auto simp: Let_def split: if_splits)

lemma trailerDeclaration_noPanic: "trailerDeclarationFieldValues hdr = Inl e \<Longrightarrow> noPanic e"
  by (auto simp: trailerDeclarationFieldValues_def dest: trailerKeys_loop_noPanic split: sum.splits)

lemma transferEncoding_noPanic: "transferEncodingFieldValues es = Inl e \<Longrightarrow> noPanic e"
  by (auto simp: transferEncodingFieldValues_def split: if_splits)

lemma requestTransport_noPanic: "requestTransportFieldValues r name = Inl e \<Longrightarrow> noPanic e"
  by (auto simp: requestTransportFieldValues_def map_sum_Inl dest: trailerDeclaration_noPanic
      transferEncoding_noPanic caseInsensitiveHeaderValues_noPanic
      split: if_splits sum.splits list.splits)

lemma matching_noPanic: "matchingResponseFieldValues a b = Inl e \<Longrightarrow> noPanic e"
  by (auto simp: matchingResponseFieldValues_def split: sum.splits if_splits)

lemma selectRepresentation_noPanic:
  "selectRepresentation m a b = Inl e \<Longrightarrow> (\<And>e. a = Inl e \<Longrightarrow> noPanic e) \<Longrightarrow> (\<And>e. b = Inl e \<Longrightarrow> noPanic e) \<Longrightarrow>
   noPanic e"
  by (auto simp: selectRepresentation_def dest: matching_noPanic split: if_splits)

lemma responseClose_noPanic: "responseCloseFieldValues r b = Inl e \<Longrightarrow> noPanic e"
  by (auto simp: responseCloseFieldValues_def dest: caseInsensitiveHeaderValues_noPanic split: sum.splits if_splits)

lemma preserved_noPanic: "preservedResponseContentLengthFieldValues hdr = Inl e \<Longrightarrow> noPanic e"
  by (auto simp: preservedResponseContentLengthFieldValues_def dest: caseInsensitiveHeaderValues_noPanic
      split: sum.splits list.splits option.splits)

lemma receivedContentLength_noPanic: "receivedResponseContentLengthFieldValues r = Inl e \<Longrightarrow> noPanic e"
  by (auto simp: receivedResponseContentLengthFieldValues_def Let_def dest: preserved_noPanic
      split: sum.splits list.splits if_splits)

lemma writeContentLength_noPanic: "writeResponseContentLengthFieldValues r = Inl e \<Longrightarrow> noPanic e"
  by (auto simp: writeResponseContentLengthFieldValues_def Let_def split: if_splits)

lemma responseContentLength_noPanic: "responseContentLengthFieldValues r m = Inl e \<Longrightarrow> noPanic e"
  unfolding responseContentLengthFieldValues_def
  by (erule selectRepresentation_noPanic) (auto dest: receivedContentLength_noPanic writeContentLength_noPanic)

lemma responseTransport_noPanic: "responseTransportFieldValues r m name = Inl e \<Longrightarrow> noPanic e"
  by (auto simp: responseTransportFieldValues_def map_sum_Inl responseTransferEncodingFieldValues_def
      responseTrailerFieldValues_def responseConnectionFieldValues_def
      receivedResponseTransferEncodingFieldValues_def writeResponseTransferEncodingFieldValues_def
      dest: trailerDeclaration_noPanic responseClose_noPanic
      elim!: selectRepresentation_noPanic split: if_splits)

lemma requestForComponent_noPanic: "requestForComponent ctx b = Inl e \<Longrightarrow> noPanic e"
  by (auto simp: requestForComponent_def split: if_splits option.splits)

lemma managedRequestField_noPanic: "managedRequestField ctx name b = Inl e \<Longrightarrow> noPanic e"
  by (auto simp: managedRequestField_def Let_def dest: requestForComponent_noPanic requestTransport_noPanic
      split: sum.splits if_splits option.splits)

lemma managedFieldValues_noPanic: "managedFieldValues ctx name ps b = Inl e \<Longrightarrow> noPanic e"
  by (auto simp: managedFieldValues_def map_sum_Inl dest: managedRequestField_noPanic
      responseContentLength_noPanic responseTransport_noPanic split: sum.splits if_splits option.splits prod.splits)

definition oneTarget :: "MessageContext \<Rightarrow> bool" where
  "oneTarget ctx \<longleftrightarrow> (CtxRequest ctx = None) \<noteq> (CtxResponse ctx = None)"

lemma headerForComponent_noPanic: "oneTarget ctx \<Longrightarrow> headerForComponent ctx a b = Inl e \<Longrightarrow> noPanic e"
  by (auto simp: headerForComponent_def oneTarget_def dest: requestForComponent_noPanic
      split: if_splits sum.splits option.splits)

lemma fieldSource_noPanic:
  assumes "oneTarget ctx" "fieldSource ctx name ps b = Inl e"
  shows "noPanic e"
proof (cases "managedFieldValues ctx name ps b")
  case (Inl e')
  then show ?thesis using assms(2) managedFieldValues_noPanic [OF Inl] by (simp add: fieldSource_def)
next
  case (Inr r)
  then obtain vs where "r = (vs, False)" using assms(2) by (cases r; cases "snd r") (auto simp: fieldSource_def)
  with Inr assms show ?thesis
    using headerForComponent_noPanic [OF assms(1)] caseInsensitiveHeaderValues_noPanic
    by (cases "headerForComponent ctx (cp_req ps) (cp_tr ps)") (auto simp: fieldSource_def split: goerr.splits)
qed

lemma normalizeField_noPanic:
  "normalizeFieldBytes v = Inl e \<Longrightarrow> noPanic e" "normalizeFieldValue v = Inl e \<Longrightarrow> noPanic e"
  by (auto simp: normalizeFieldValue_def normalizeFieldBytes_def Let_def split: if_splits sum.splits)

lemma canonicalField_noPanic:
  assumes "marshalTotal h" "canonicalField h ctx name ps xs = Inl e"
  shows "noPanic e"
proof (cases "cp_bs ps")
  case True
  then have "mapRes (\<lambda>v. map_sum id (\<lambda>n. '':'' @ encodeToString n @ '':'') (normalizeFieldBytes v)) xs = Inl e"
    using assms(2) by (simp add: canonicalField_def map_sum_Inl)
  then show ?thesis by (rule mapRes_error) (auto simp: map_sum_Inl dest: normalizeField_noPanic)
next
  case False
  show ?thesis
  proof (cases "mapRes normalizeFieldValue xs")
    case (Inl e')
    then show ?thesis using False assms(2) mapRes_error [OF Inl, of noPanic] normalizeField_noPanic(2)
      by (auto simp: canonicalField_def)
  next
    case (Inr ns)
    then show ?thesis
      using False assms marshalMember_noPanic strictStructuredField_noPanic
      by (auto simp: canonicalField_def split: option.splits sum.splits if_splits)
  qed
qed

lemma cookieCheck_noPanic: "cookieCheck xs = Inl e \<Longrightarrow> noPanic e"
  by (auto simp: cookieCheck_def dest: normalizeField_noPanic split: list.splits sum.splits if_splits)

lemma resolveField_noPanic:
  "marshalTotal h \<Longrightarrow> oneTarget ctx \<Longrightarrow> resolveField h ctx name ps m = Inl e \<Longrightarrow> noPanic e"
  by (auto simp: resolveField_def Let_def dest: fieldSource_noPanic cookieCheck_noPanic canonicalField_noPanic
      split: if_splits sum.splits)

lemma normalizeAuthority_noPanic: "normalizeAuthority u a s = Inl e \<Longrightarrow> noPanic e"
  by (auto simp: normalizeAuthority_def normalizePort_def Let_def split: sum.splits if_splits option.splits)

lemma resolveTarget_noPanic: "resolveTarget u r ext s a t = Inl e \<Longrightarrow> noPanic e"
  by (auto simp: resolveTarget_def Let_def split: sum.splits if_splits option.splits)

lemma requestParts_noPanic: "requestParts u r ext = Inl e \<Longrightarrow> noPanic e"
  by (auto simp: requestParts_def finishParts_def Let_def dest: resolveTarget_noPanic normalizeAuthority_noPanic
      split: option.splits sum.splits if_splits)

lemma queryParameter_noPanic: "queryParameter q n m = Inl e \<Longrightarrow> noPanic e"
  by (auto simp: queryParameter_def split: if_splits prod.splits)

lemma resolveRequestDerived_noPanic: "resolveRequestDerived u ctx name ps m r = Inl e \<Longrightarrow> noPanic e"
  unfolding resolveRequestDerived_def
  by (simp split: if_split_asm sum.split_asm option.split_asm)
    (auto dest: requestParts_noPanic queryParameter_noPanic)

lemma resolveDerived_noPanic: "resolveDerived u ctx name ps m = Inl e \<Longrightarrow> noPanic e"
  unfolding resolveDerived_def
  by (simp split: if_split_asm sum.split_asm option.split_asm)
    (auto dest: requestForComponent_noPanic resolveRequestDerived_noPanic)

lemma componentParameterSet_loop_noPanic: "componentParameterSet_loop r ps = Inl e \<Longrightarrow> noPanic e"
  by (induction r ps rule: componentParameterSet_loop.induct) (auto split: if_splits goval.splits)

lemma resolveComponent_noPanic:
  "marshalTotal h \<Longrightarrow> oneTarget ctx \<Longrightarrow> resolveComponent h u ctx c m = Inl e \<Longrightarrow> noPanic e"
  by (auto simp: resolveComponent_def componentParameterSet_def dest: componentParameterSet_loop_noPanic
      resolveDerived_noPanic resolveField_noPanic split: if_splits sum.splits)

lemma createBase_loop_errors:
  assumes "marshalTotal h" "oneTarget ctx"
  shows "createBase_loop h u ctx seen remaining builder cs = Inl e \<Longrightarrow> errorsIs e ErrSignatureBase"
proof (induction cs arbitrary: seen remaining builder)
  case (Cons c cs)
  have np: "resolveComponent h u ctx c m = Inl err \<Longrightarrow> \<not> isPanic (Inl err :: unit res)" for m err
    using resolveComponent_noPanic [OF assms] noPanic_isPanic by blast
  from Cons.prems show ?case
    by (auto simp: Let_def baseError_def dest: np intro: Cons.IH split: if_splits sum.splits prod.splits)
qed simp


section \<open>Example\<close>

definition exampleURLs :: urls where
  "exampleURLs =
     \<lparr>url_Parse = (\<lambda>s. Inr (emptyURL\<lparr>URLHost := drop 2 s\<rparr>)),
      url_ParseRequestURI = (\<lambda>s. Inr (emptyURL\<lparr>URLPath := s\<rparr>)),
      url_EscapedPath = URLPath, url_RequestURI = (\<lambda>v. if URLPath v = [] then ''/'' else URLPath v),
      url_Hostname = URLHost, url_Port = (\<lambda>_. [])\<rparr>"

definition exampleRequest :: Request where
  "exampleRequest =
     \<lparr>ReqMethod = ''GET'', ReqURL = Some (emptyURL\<lparr>URLScheme := ''https'', URLHost := ''h'', URLPath := ''/p''\<rparr>),
      ReqProtoMajor = 1, ReqProtoMinor = 1, ReqHeader = [(''A'', [''x'', '' y''])], ReqBody = NilBody, ReqContentLength = 0,
      ReqTransferEncoding = [], ReqClose = False, ReqHost = [], ReqTrailer = [], ReqRequestURI = [],
      ReqTLS = False\<rparr>"

definition exampleContext :: MessageContext where
  "exampleContext =
     \<lparr>CtxRequest = Some exampleRequest, CtxResponse = None, CtxRelatedRequest = None,
      CtxExternalRequest = None, CtxStructuredFields = Map.empty, CtxResponseTransport = 0,
      CtxMaxSignatureBaseBytes = 200\<rparr>"

definition exampleCoverage :: SignatureInput where
  "exampleCoverage =
     \<lparr>InLabel = ''s'',
      InComponents = [\<lparr>CompName = ''@method'', CompParameters = []\<rparr>, \<lparr>CompName = ''a'', CompParameters = []\<rparr>],
      InParameters = [\<lparr>ParName = ''keyid'', ParValue = VString ''k''\<rparr>]\<rparr>"

definition exampleBase :: string where
  "exampleBase =
     quote ''@method'' @ '': GET'' @ [CHR 0x0A] @ quote ''a'' @ '': x, y'' @ [CHR 0x0A] @
     quote ''@signature-params'' @ '': ('' @ quote ''@method'' @ '' '' @ quote ''a'' @ '');keyid='' @ quote ''k''"

lemma exampleBase_created:
  "CreateSignatureBase exampleSfv exampleURLs exampleContext exampleCoverage = Inr exampleBase"
  by code_simp

lemma example_marshal: "marshalOneLine exampleSfv" "marshalTotal exampleSfv"
proof -
  have "Marshal exampleSfv v = Inr s \<Longrightarrow> list_all (\<lambda>c. 0x20 \<le> byte c \<and> byte c \<le> 0x7e) s" for v s
    by (auto simp: exampleSfv_def alistSfv_def marshalValue_def split: sum.splits if_splits)
  then show "marshalOneLine exampleSfv" unfolding marshalOneLine_def using printable_oneLine by blast
  show "marshalTotal exampleSfv"
    by (auto simp: marshalTotal_def exampleSfv_def alistSfv_def marshalValue_def split: sum.splits if_splits)
qed

definition methodCoverage :: SignatureInput where
  "methodCoverage = exampleCoverage\<lparr>InComponents := [\<lparr>CompName = ''@method'', CompParameters = []\<rparr>]\<rparr>"

lemma methodCoverage_created:
  "\<exists>base. CreateSignatureBase exampleSfv exampleURLs exampleContext methodCoverage = Inr base"
proof -
  have "isOk (CreateSignatureBase exampleSfv exampleURLs exampleContext methodCoverage)" by code_simp
  then show ?thesis by (simp add: isOk_iff)
qed

lemma methodCoverage_strings: "goStrings exampleSfv exampleURLs exampleContext (InComponents methodCoverage)"
proof -
  have "resolveComponent exampleSfv exampleURLs exampleContext \<lparr>CompName = ''@method'', CompParameters = []\<rparr> m = Inr v \<Longrightarrow>
      go_len v \<le> MaxInt" for m v
    by (auto simp: resolveComponent_def componentParameterSet_def noComponentParameters_def resolveDerived_def
        resolveRequestDerived_def requestForComponent_def exampleContext_def exampleRequest_def MaxInt_def split: if_splits)
  then show ?thesis
    by (simp add: goStrings_def methodCoverage_def exampleCoverage_def)
qed

section \<open>Properties\<close>

text \<open>C11. The lines of a signature base are exactly the covered components, in order, each with its
  identifier, then the signature parameters: whatever the message contains, no covered value can add,
  merge or forge a line of the base. (The serialiser of the library is taken to emit no line feed, as
  RFC 8941 serialisation does.)\<close>

theorem signature_base_lines:
  assumes "marshalOneLine h" "CreateSignatureBase h u ctx input = Inr base"
  shows "\<exists>ids vs params. mapRes (serializeComponentIdentifier h) (InComponents input) = Inr ids \<and>
    length vs = length ids \<and> serializeSignatureParameters h input = Inr params \<and>
    split CHR 0x0A base = map2 (\<lambda>i v. i @ '': '' @ v) ids vs @ [parameterPrefix @ params]"
  by (rule base_lines [OF assms])

theorem signature_base_lines_witness:
  "marshalOneLine exampleSfv \<and>
   CreateSignatureBase exampleSfv exampleURLs exampleContext exampleCoverage = Inr exampleBase \<and>
   (\<exists>ids vs params. mapRes (serializeComponentIdentifier exampleSfv) (InComponents exampleCoverage) = Inr ids \<and>
     split CHR 0x0A exampleBase = map2 (\<lambda>i v. i @ '': '' @ v) ids vs @ [parameterPrefix @ params])"
  using signature_base_lines [OF example_marshal(1) exampleBase_created] example_marshal(1) exampleBase_created
  by blast



text \<open>C13. Base construction fails closed: every failure, for whatever message, input and parser behaviour,
  is an error matching \<^verbatim>\<open>ErrSignatureBase\<close> (the limit error included), and no nil dereference or other
  panic escapes.\<close>

theorem signature_base_errors:
  assumes "marshalTotal h" "CreateSignatureBase h u ctx input = Inl err"
  shows "errorsIs err ErrSignatureBase \<and> noPanic err"
proof -
  have "errorsIs err ErrSignatureBase"
  proof (cases "oneTarget ctx")
    case True
    then show ?thesis
      using assms createBase_loop_errors [OF assms(1) True]
      by (auto simp: CreateSignatureBase_def baseError_def Let_def split: if_splits sum.splits prod.splits)
  next
    case False
    then show ?thesis using assms(2) by (auto simp: CreateSignatureBase_def oneTarget_def baseError_def split: if_splits)
  qed
  then show ?thesis by (cases err) auto
qed

theorem signature_base_errors_witness:
  "marshalTotal exampleSfv \<and>
   (case CreateSignatureBase exampleSfv exampleURLs (exampleContext\<lparr>CtxMaxSignatureBaseBytes := 20\<rparr>) exampleCoverage of
      Inl err \<Rightarrow> errorsIs err ErrSignatureBase \<and> noPanic err | Inr _ \<Rightarrow> False)"
proof -
  have "CreateSignatureBase exampleSfv exampleURLs (exampleContext\<lparr>CtxMaxSignatureBaseBytes := 20\<rparr>) exampleCoverage =
      Inl (Sentinel ErrSignatureBaseLimit)" by code_simp
  with signature_base_errors [OF example_marshal(2) this] example_marshal(2) show ?thesis by simp
qed



text \<open>Not every resolver respects the budget it receives: \<^verbatim>\<open>@status\<close> returns its three digits whatever is left.\<close>

lemma status_ignores_budget:
  assumes "CtxResponse ctx = Some r" "RespStatusCode r = 200"
  shows "resolveComponent h u ctx \<lparr>CompName = ''@status'', CompParameters = []\<rparr> 0 = Inr ''200''"
proof -
  have "formatInt 200 = ''200''" by code_simp
  then show ?thesis
    using assms by (simp add: resolveComponent_def resolveDerived_def componentParameterSet_def noComponentParameters_def)
qed

text \<open>C15. Without a selected transport mode a managed response field is signed only when it is the same on
  both wires: whatever value the unspecified mode returns for \<^verbatim>\<open>Transfer-Encoding\<close>, \<^verbatim>\<open>Trailer\<close>,
  \<^verbatim>\<open>Connection\<close> or \<^verbatim>\<open>Content-Length\<close> is the value of both the received and the written representation.\<close>

theorem unspecified_mode_unambiguous:
  "(responseTransportFieldValues r ResponseTransportUnspecified name = Inr (vs, True) \<longrightarrow>
      responseTransportFieldValues r ResponseTransportReceived name = Inr (vs, True) \<and>
      responseTransportFieldValues r ResponseTransportWrite name = Inr (vs, True)) \<and>
   (responseContentLengthFieldValues r ResponseTransportUnspecified = Inr vs \<longrightarrow>
      responseContentLengthFieldValues r ResponseTransportReceived = Inr vs \<and>
      responseContentLengthFieldValues r ResponseTransportWrite = Inr vs)"
proof -
  have same: "sameFieldValues a b \<Longrightarrow> a = b" for a b
    by (induction a b rule: sameFieldValues.induct) auto
  have m: "matchingResponseFieldValues a b = Inr vs \<Longrightarrow> a = Inr vs \<and> b = Inr vs" for a b vs
    by (auto simp: matchingResponseFieldValues_def dest: same split: sum.splits if_splits)
  have lift: "map_sum id (\<lambda>vs. (vs, True)) a = Inr (vs, True) \<longleftrightarrow> a = Inr vs" for a :: "string list res" and vs
    by (cases a) auto
  show ?thesis
    by (auto simp: responseTransportFieldValues_def responseContentLengthFieldValues_def
        responseTransferEncodingFieldValues_def responseTrailerFieldValues_def responseConnectionFieldValues_def
        selectRepresentation_def lift dest: m split: if_splits)
qed

definition exampleResponse :: Response where
  "exampleResponse =
     \<lparr>RespStatusCode = 200, RespProtoMajor = 1, RespProtoMinor = 1, RespHeader = [],
      RespBody = SomeBody, RespContentLength = -1, RespTransferEncoding = [''chunked''], RespClose = False,
      RespUncompressed = False, RespTrailer = [], RespRequest = None\<rparr>"

theorem unspecified_mode_unambiguous_witness:
  "responseTransportFieldValues exampleResponse ResponseTransportUnspecified ''transfer-encoding'' =
     Inr ([''chunked''], True) \<and>
   responseTransportFieldValues exampleResponse ResponseTransportWrite ''transfer-encoding'' = Inr ([''chunked''], True)"
proof -
  have "responseTransportFieldValues exampleResponse ResponseTransportUnspecified ''transfer-encoding'' =
      Inr ([''chunked''], True)" by code_simp
  with unspecified_mode_unambiguous [of exampleResponse "''transfer-encoding''" "[''chunked'']"] show ?thesis by blast
qed

end
