(* ===== verification/Signer.thy ===== *)
theory Signer
  imports Algorithm SignatureBase
begin

text \<open>
  \<^verbatim>\<open>signer.go\<close>, with the profile checks that \<^verbatim>\<open>verifier.go\<close> shares: profile construction, signing one message
  under a profile, and the combination of signed fields. The key provider, the clock, the provider
  deadline and the source of randomness appear as what one call observed of them (\<open>signEnv\<close>).
\<close>

section \<open>Policies\<close>

abbreviation (input) ParameterForbidden :: nat where "ParameterForbidden \<equiv> 1"
abbreviation (input) ParameterOptional :: nat where "ParameterOptional \<equiv> 2"
abbreviation (input) ParameterRequired :: nat where "ParameterRequired \<equiv> 3"

definition supportedAlgorithm :: "Algorithm \<Rightarrow> bool" where
  "supportedAlgorithm algorithm \<longleftrightarrow>
     algorithm \<in> {RSAPSSSHA512, RSAV15SHA256, HMACSHA256, ECDSAP256SHA256, ECDSAP384SHA384, Ed25519}"

definition signingParameterPolicy :: "nat \<Rightarrow> bool" where
  "signingParameterPolicy policy \<longleftrightarrow> policy = ParameterForbidden \<or> policy = ParameterRequired"

definition validSignatureLabel :: "string \<Rightarrow> bool" where
  "validSignatureLabel label \<longleftrightarrow> label \<noteq> [] \<and> dictionaryMemberKey label = label"

definition validProfileComponent :: "ComponentIdentifier \<Rightarrow> bool" where
  "validProfileComponent component =
     (case componentParameterSet (CompParameters component) of
        Inl _ \<Rightarrow> False
      | Inr parameters \<Rightarrow>
          if \<not> hasPrefix (CompName component) ''@'' then cp_name parameters = None
          else if cp_bs parameters \<or> cp_sf parameters \<or> cp_tr parameters \<or> cp_key parameters \<noteq> None then False
          else if CompName component = ''@query-param'' then cp_name parameters \<noteq> None
          else if CompName component = ''@status'' then cp_name parameters = None \<and> \<not> cp_req parameters
          else if CompName component \<in> {''@method'', ''@target-uri'', ''@authority'', ''@scheme'', ''@request-target'',
                                        ''@path'', ''@query''} then cp_name parameters = None
          else False)"

text \<open>The allowlist loop of both profile constructors; \<open>None\<close> when the configuration is refused.\<close>

fun algorithmSet_loop :: "Algorithm set \<Rightarrow> Algorithm list \<Rightarrow> Algorithm set option" where
  "algorithmSet_loop algorithms [] = Some algorithms"
| "algorithmSet_loop algorithms (algorithm # rest) =
     (if \<not> supportedAlgorithm algorithm then None
      else if algorithm \<in> algorithms then None
      else algorithmSet_loop (insert algorithm algorithms) rest)"

text \<open>The coverage loop of both profile constructors.\<close>

fun profileComponents_loop ::
  "('p, 'd) httpsfv \<Rightarrow> string set \<Rightarrow> ComponentIdentifier list \<Rightarrow> ComponentIdentifier list \<Rightarrow>
   ComponentIdentifier list option" where
  "profileComponents_loop h seen components [] = Some components"
| "profileComponents_loop h seen components (component # rest) =
     (case componentComparisonKey h component of
        Inl _ \<Rightarrow> None
      | Inr identifier \<Rightarrow>
          if \<not> validProfileComponent component then None
          else if identifier \<in> seen then None
          else profileComponents_loop h (insert identifier seen)
                 (components @ [\<lparr>CompName = CompName component, CompParameters = cloneParameters (CompParameters component)\<rparr>])
                 rest)"

section \<open>Profiles\<close>

record SigningKey =
  SKKeyID :: string
  SKAlgorithm :: Algorithm
  SKKey :: gokey
  SKNotBefore :: time
  SKNotAfter :: time
  SKRevoked :: bool

text \<open>\<open>SCNow\<close> and \<open>SCProvider\<close> say whether the clock and the provider are non-nil.\<close>

record SigningProfileConfig =
  SCAllowedAlgorithms :: "Algorithm list"
  SCCoveredComponents :: "ComponentIdentifier list"
  SCAllowEmptyCoverage :: bool
  SCExpires :: nat
  SCAlgorithmParameter :: nat
  SCNonce :: nat
  SCTag :: nat
  SCTagValue :: string
  SCLifetime :: duration
  SCResolveTimeout :: duration
  SCNow :: bool
  SCProvider :: bool
  SCRequireExternal :: bool

record SigningProfile =
  SPAlgorithms :: "Algorithm set"
  SPComponents :: "ComponentIdentifier list"
  SPAllowEmptyCoverage :: bool
  SPExpires :: nat
  SPAlgorithmParameter :: nat
  SPNonce :: nat
  SPTag :: nat
  SPTagValue :: string
  SPLifetime :: duration
  SPResolveTimeout :: duration
  SPRequireExternal :: bool

definition NewSigningProfile :: "('p, 'd) httpsfv \<Rightarrow> SigningProfileConfig \<Rightarrow> SigningProfile res" where
  "NewSigningProfile h config =
     (if SCAllowedAlgorithms config = [] \<or> \<not> SCNow config \<or> \<not> SCProvider config \<or> SCResolveTimeout config \<le> 0 \<or>
         \<not> signingParameterPolicy (SCExpires config) \<or> \<not> signingParameterPolicy (SCAlgorithmParameter config) \<or>
         \<not> signingParameterPolicy (SCNonce config) \<or> \<not> signingParameterPolicy (SCTag config)
      then Inl (Sentinel ErrInvalidSigningProfile)
      else if SCCoveredComponents config = [] \<and> \<not> SCAllowEmptyCoverage config
      then Inl (Sentinel ErrInvalidSigningProfile)
      else if SCExpires config = ParameterRequired \<and>
                (SCLifetime config < second \<or> go_mod (SCLifetime config) second \<noteq> 0) \<or>
              SCExpires config = ParameterForbidden \<and> SCLifetime config \<noteq> 0
      then Inl (Sentinel ErrInvalidSigningProfile)
      else if SCTag config = ParameterRequired \<and> (SCTagValue config = [] \<or> \<not> validSFStringValue (SCTagValue config)) \<or>
              SCTag config = ParameterForbidden \<and> SCTagValue config \<noteq> []
      then Inl (Sentinel ErrInvalidSigningProfile)
      else
        case algorithmSet_loop {} (SCAllowedAlgorithms config) of
          None \<Rightarrow> Inl (Sentinel ErrInvalidSigningProfile)
        | Some algorithms \<Rightarrow>
            (case profileComponents_loop h {} [] (SCCoveredComponents config) of
               None \<Rightarrow> Inl (Sentinel ErrInvalidSigningProfile)
             | Some components \<Rightarrow>
                 Inr \<lparr>SPAlgorithms = algorithms, SPComponents = components,
                      SPAllowEmptyCoverage = SCAllowEmptyCoverage config, SPExpires = SCExpires config,
                      SPAlgorithmParameter = SCAlgorithmParameter config, SPNonce = SCNonce config,
                      SPTag = SCTag config, SPTagValue = SCTagValue config, SPLifetime = SCLifetime config,
                      SPResolveTimeout = SCResolveTimeout config, SPRequireExternal = SCRequireExternal config\<rparr>))"

section \<open>Signing\<close>

record SignedFields =
  SFInput :: SignatureInput
  SFSignature :: SignatureValue

record signEnv =
  seContext :: gocontext
  seResolveErr :: "goerr option"
  seProvider :: "SigningKey res"
  seNow :: time
  seRandom :: nat

definition mapSigningError :: "goerr \<Rightarrow> goerr" where
  "mapSigningError err =
     (if errorsIs err ErrIncompatibleKey then Sentinel ErrSigningKey else Sentinel ErrSigningCryptographic)"

definition usableSigningKey :: "SigningKey \<Rightarrow> time \<Rightarrow> bool" where
  "usableSigningKey key now \<longleftrightarrow>
     \<not> (SKKeyID key = [] \<or> SKKey key = KNil \<or> SKRevoked key \<or> isZero (SKNotBefore key) \<or> isZero (SKNotAfter key) \<or>
        \<not> SKNotAfter key > SKNotBefore key \<or> now < SKNotBefore key \<or> \<not> now < SKNotAfter key)"

definition signingParameters :: "SigningProfile \<Rightarrow> SigningKey \<Rightarrow> string \<Rightarrow> time \<Rightarrow> Parameter list" where
  "signingParameters profile key nonce now =
     [\<lparr>ParName = ''created'', ParValue = VInt64 (timeUnix now)\<rparr>] @
     (if SPExpires profile = ParameterRequired
      then [\<lparr>ParName = ''expires'', ParValue = VInt64 (timeUnix (now + SPLifetime profile))\<rparr>] else []) @
     (if SPNonce profile = ParameterRequired then [\<lparr>ParName = ''nonce'', ParValue = VString nonce\<rparr>] else []) @
     [\<lparr>ParName = ''keyid'', ParValue = VString (SKKeyID key)\<rparr>] @
     (if SPAlgorithmParameter profile = ParameterRequired
      then [\<lparr>ParName = ''alg'', ParValue = VString (SKAlgorithm key)\<rparr>] else []) @
     (if SPTag profile = ParameterRequired then [\<lparr>ParName = ''tag'', ParValue = VString (SPTagValue profile)\<rparr>] else [])"

definition propagatePanic :: "goerr \<Rightarrow> goerr \<Rightarrow> goerr" where
  "propagatePanic err classified = (case err of GoPanic m \<Rightarrow> GoPanic m | _ \<Rightarrow> classified)"

definition signWithKey ::
  "('p, 'd) httpsfv \<Rightarrow> urls \<Rightarrow> hashes \<Rightarrow> crypto \<Rightarrow> signEnv \<Rightarrow> SigningProfile \<Rightarrow> MessageContext \<Rightarrow> string \<Rightarrow> string \<Rightarrow>
   SigningKey \<Rightarrow> SignedFields res" where
  "signWithKey h u H P env profile message label nonce key =
     (let now = seNow env in
      if \<not> usableSigningKey key now then Inl (Sentinel ErrSigningKey)
      else if SKAlgorithm key \<notin> SPAlgorithms profile then Inl (Sentinel ErrSigningKey)
      else if SPExpires profile = ParameterRequired \<and> now + SPLifetime profile > SKNotAfter key
      then Inl (Sentinel ErrSigningKey)
      else
        let input = \<lparr>InLabel = label, InComponents = SPComponents profile,
                     InParameters = signingParameters profile key nonce now\<rparr>
        in case CreateSignatureBase h u message input of
             Inl err \<Rightarrow> Inl (propagatePanic err (Sentinel ErrSigningBase))
           | Inr base \<Rightarrow>
               (case Sign H P (seRandom env) (seContext env) 1 (SKAlgorithm key) (SKKey key) base of
                  Inl err \<Rightarrow> Inl (propagatePanic err (mapSigningError err))
                | Inr value \<Rightarrow>
                    Inr \<lparr>SFInput = cloneSignatureInput input,
                         SFSignature = \<lparr>SigLabel = label, SigValue = [] @ value, SigParameters = []\<rparr>\<rparr>))"

definition Signer_Sign ::
  "('p, 'd) httpsfv \<Rightarrow> urls \<Rightarrow> hashes \<Rightarrow> crypto \<Rightarrow> signEnv \<Rightarrow> SigningProfile option \<Rightarrow> MessageContext \<Rightarrow> string \<Rightarrow>
   string \<Rightarrow> SignedFields res" where
  "Signer_Sign h u H P env profile message label nonce =
     (case seContext env of
        None \<Rightarrow> Inl (Sentinel ContextCanceled)
      | Some observe \<Rightarrow>
          (case observe 0 of
             Some err \<Rightarrow> Inl err
           | None \<Rightarrow>
               (case profile of
                  None \<Rightarrow> Inl (Sentinel ErrSigningPolicy)
                | Some p \<Rightarrow>
                    if \<not> validSignatureLabel label then Inl (Sentinel ErrSigningPolicy)
                    else if SPRequireExternal p \<and> CtxExternalRequest message = None then Inl (Sentinel ErrSigningPolicy)
                    else if SPNonce p = ParameterRequired \<and> nonce = [] \<or> SPNonce p = ParameterForbidden \<and> nonce \<noteq> []
                    then Inl (Sentinel ErrSigningPolicy)
                    else case seResolveErr env of
                           Some err \<Rightarrow> Inl err
                         | None \<Rightarrow>
                             (case seProvider env of
                                Inl _ \<Rightarrow> Inl (Sentinel ErrSigningProvider)
                              | Inr key \<Rightarrow> signWithKey h u H P env p message label nonce key))))"

section \<open>Signed fields\<close>

definition SignatureInputField :: "('p, 'd) httpsfv \<Rightarrow> SignedFields \<Rightarrow> string res" where
  "SignatureInputField h sf =
     (if \<not> validSignatureLabel (InLabel (SFInput sf)) then Inr []
      else SignatureInputs_String h [cloneSignatureInput (SFInput sf)])"

definition SignatureField :: "('p, 'd) httpsfv \<Rightarrow> SignedFields \<Rightarrow> string res" where
  "SignatureField h sf =
     (if \<not> validSignatureLabel (SigLabel (SFSignature sf)) \<or> SigValue (SFSignature sf) = [] then Inr []
      else Signatures_String h [\<lparr>SigLabel = SigLabel (SFSignature sf), SigValue = [] @ SigValue (SFSignature sf),
                                 SigParameters = []\<rparr>])"

fun combineFields_loop ::
  "string set \<Rightarrow> SignatureInput list \<Rightarrow> SignatureValue list \<Rightarrow> SignedFields list \<Rightarrow>
   (SignatureInput list \<times> SignatureValue list) res" where
  "combineFields_loop seen inputs signatures [] = Inr (inputs, signatures)"
| "combineFields_loop seen inputs signatures (sf # fs) =
     (let label = InLabel (SFInput sf) in
      if \<not> validSignatureLabel label \<or> SigLabel (SFSignature sf) \<noteq> label \<or> SigValue (SFSignature sf) = []
      then Inl (Sentinel ErrInvalidSignedFields)
      else if label \<in> seen then Inl (Sentinel ErrInvalidSignedFields)
      else combineFields_loop (insert label seen) (inputs @ [cloneSignatureInput (SFInput sf)])
             (signatures @ [\<lparr>SigLabel = SigLabel (SFSignature sf), SigValue = [] @ SigValue (SFSignature sf),
                             SigParameters = []\<rparr>]) fs)"

definition CombineSignedFields :: "SignedFields list \<Rightarrow> (SignatureInput list \<times> SignatureValue list) res" where
  "CombineSignedFields fs =
     (if fs = [] then Inl (Sentinel ErrInvalidSignedFields) else combineFields_loop {} [] [] fs)"

section \<open>Lemmas\<close>

lemma cloneSignatureInput_id [simp]: "cloneSignatureInput i = i"
proof -
  have "map (\<lambda>c. \<lparr>CompName = CompName c, CompParameters = cloneParameters (CompParameters c)\<rparr>) cs = cs" for cs
    by (rule map_idI) simp
  then show ?thesis by (simp add: cloneSignatureInput_def)
qed

lemma algorithmSet_loop_iff:
  "algorithmSet_loop A as = Some B \<longleftrightarrow>
   B = A \<union> set as \<and> distinct as \<and> set as \<inter> A = {} \<and> (\<forall>a \<in> set as. supportedAlgorithm a)"
  by (induction A as rule: algorithmSet_loop.induct) auto

definition profileCoverage :: "('p, 'd) httpsfv \<Rightarrow> ComponentIdentifier list \<Rightarrow> bool" where
  "profileCoverage h cs \<longleftrightarrow>
     (\<forall>c \<in> set cs. validProfileComponent c \<and> isOk (componentComparisonKey h c)) \<and>
     distinct (map (comparisonKeyOrEmpty h) cs)"

lemma profileComponents_loop_iff:
  "profileComponents_loop h seen acc cs = Some out \<longleftrightarrow>
   out = acc @ cs \<and> profileCoverage h cs \<and> comparisonKeyOrEmpty h ` set cs \<inter> seen = {}"
proof (induction h seen acc cs rule: profileComponents_loop.induct)
  case (2 h seen acc c cs)
  have c: "\<lparr>CompName = CompName c, CompParameters = cloneParameters (CompParameters c)\<rparr> = c" by simp
  show ?case
  proof (cases "componentComparisonKey h c")
    case (Inl e)
    then show ?thesis by (simp add: profileCoverage_def)
  next
    case (Inr k)
    then show ?thesis
      using 2 [OF Inr] by (auto simp: c profileCoverage_def comparisonKeyOrEmpty_def [of h c])
  qed
qed (auto simp: profileCoverage_def)

definition wfSigningProfile :: "('p, 'd) httpsfv \<Rightarrow> SigningProfile \<Rightarrow> bool" where
  "wfSigningProfile h p \<longleftrightarrow>
     SPAlgorithms p \<noteq> {} \<and> (\<forall>a \<in> SPAlgorithms p. supportedAlgorithm a) \<and>
     profileCoverage h (SPComponents p) \<and> (SPComponents p = [] \<longrightarrow> SPAllowEmptyCoverage p) \<and>
     (SPExpires p = ParameterRequired \<and> second \<le> SPLifetime p \<and> SPLifetime p mod second = 0 \<or>
      SPExpires p = ParameterForbidden \<and> SPLifetime p = 0) \<and>
     (SPTag p = ParameterRequired \<and> SPTagValue p \<noteq> [] \<and> validSFStringValue (SPTagValue p) \<or>
      SPTag p = ParameterForbidden \<and> SPTagValue p = []) \<and>
     signingParameterPolicy (SPNonce p) \<and> signingParameterPolicy (SPAlgorithmParameter p) \<and> 0 < SPResolveTimeout p"

lemma go_mod_pos: "0 \<le> a \<Longrightarrow> 0 < b \<Longrightarrow> go_mod a b = a mod b"
  by (simp add: go_mod_def minus_mult_div_eq_mod)

lemma NewSigningProfile_wf: "NewSigningProfile h config = Inr p \<Longrightarrow> wfSigningProfile h p"
proof -
  assume n: "NewSigningProfile h config = Inr p"
  have mod: "second \<le> l \<Longrightarrow> go_mod l second = l mod second" for l by (simp add: go_mod_pos second_def)
  from n obtain as cs where a: "algorithmSet_loop {} (SCAllowedAlgorithms config) = Some as"
    "profileComponents_loop h {} [] (SCCoveredComponents config) = Some cs" "SPAlgorithms p = as" "SPComponents p = cs"
    by (auto simp: NewSigningProfile_def split: if_splits option.splits)
  then have "as = set (SCAllowedAlgorithms config)" "\<forall>a \<in> as. supportedAlgorithm a" "cs = SCCoveredComponents config"
    "profileCoverage h cs"
    by (auto simp: algorithmSet_loop_iff profileComponents_loop_iff)
  moreover have "p = \<lparr>SPAlgorithms = as, SPComponents = cs,
                      SPAllowEmptyCoverage = SCAllowEmptyCoverage config, SPExpires = SCExpires config,
                      SPAlgorithmParameter = SCAlgorithmParameter config, SPNonce = SCNonce config,
                      SPTag = SCTag config, SPTagValue = SCTagValue config, SPLifetime = SCLifetime config,
                      SPResolveTimeout = SCResolveTimeout config, SPRequireExternal = SCRequireExternal config\<rparr>"
    using n a(1,2) by (simp add: NewSigningProfile_def split: if_split_asm)
  moreover have "SCAllowedAlgorithms config \<noteq> []" "0 < SCResolveTimeout config"
    "signingParameterPolicy (SCExpires config)" "signingParameterPolicy (SCAlgorithmParameter config)"
    "signingParameterPolicy (SCNonce config)" "signingParameterPolicy (SCTag config)"
    "SCCoveredComponents config = [] \<Longrightarrow> SCAllowEmptyCoverage config"
    "SCExpires config = ParameterRequired \<Longrightarrow> second \<le> SCLifetime config \<and> go_mod (SCLifetime config) second = 0"
    "SCExpires config = ParameterForbidden \<Longrightarrow> SCLifetime config = 0"
    "SCTag config = ParameterRequired \<Longrightarrow> SCTagValue config \<noteq> [] \<and> validSFStringValue (SCTagValue config)"
    "SCTag config = ParameterForbidden \<Longrightarrow> SCTagValue config = []"
    using n by (simp_all add: NewSigningProfile_def split: if_split_asm)
  ultimately show ?thesis
    using mod [of "SCLifetime config"] by (simp add: wfSigningProfile_def) (auto simp: signingParameterPolicy_def)
qed

lemma signWithKey_ok:
  assumes "signWithKey h u H P env p message label nonce key = Inr sf"
  obtains base v where "usableSigningKey key (seNow env)" "SKAlgorithm key \<in> SPAlgorithms p"
    "\<not> (SPExpires p = ParameterRequired \<and> seNow env + SPLifetime p > SKNotAfter key)"
    "CreateSignatureBase h u message (SFInput sf) = Inr base"
    "Sign H P (seRandom env) (seContext env) 1 (SKAlgorithm key) (SKKey key) base = Inr v"
    "SFInput sf = \<lparr>InLabel = label, InComponents = SPComponents p, InParameters = signingParameters p key nonce (seNow env)\<rparr>"
    "SFSignature sf = \<lparr>SigLabel = label, SigValue = v, SigParameters = []\<rparr>"
  using assms that by (auto simp: signWithKey_def Let_def split: if_splits sum.splits)

lemma Signer_Sign_ok:
  assumes "Signer_Sign h u H P env profile message label nonce = Inr sf"
  obtains p key where "profile = Some p" "seProvider env = Inr key" "seResolveErr env = None"
    "validSignatureLabel label" "SPRequireExternal p \<longrightarrow> CtxExternalRequest message \<noteq> None"
    "\<not> (SPNonce p = ParameterRequired \<and> nonce = [] \<or> SPNonce p = ParameterForbidden \<and> nonce \<noteq> [])"
    "signWithKey h u H P env p message label nonce key = Inr sf"
  using assms that by (auto simp: Signer_Sign_def split: option.splits sum.splits if_splits)

definition combinable :: "SignedFields \<Rightarrow> bool" where
  "combinable sf \<longleftrightarrow> validSignatureLabel (InLabel (SFInput sf)) \<and> SigLabel (SFSignature sf) = InLabel (SFInput sf) \<and>
     SigValue (SFSignature sf) \<noteq> []"

definition bareSignature :: "SignedFields \<Rightarrow> SignatureValue" where
  "bareSignature sf = (SFSignature sf)\<lparr>SigParameters := []\<rparr>"

lemma combineFields_loop_iff:
  "combineFields_loop seen inputs signatures fs = Inr r \<longleftrightarrow>
   r = (inputs @ map SFInput fs, signatures @ map bareSignature fs) \<and> (\<forall>sf \<in> set fs. combinable sf) \<and>
   distinct (map (\<lambda>sf. InLabel (SFInput sf)) fs) \<and> (\<lambda>sf. InLabel (SFInput sf)) ` set fs \<inter> seen = {}"
proof (induction seen inputs signatures fs rule: combineFields_loop.induct)
  case (2 seen inputs signatures sf fs)
  have b: "\<lparr>SigLabel = SigLabel (SFSignature sf), SigValue = [] @ SigValue (SFSignature sf), SigParameters = []\<rparr> =
      bareSignature sf" by (simp add: bareSignature_def)
  show ?case
    using 2 unfolding combineFields_loop.simps Let_def b cloneSignatureInput_id
    by (auto simp: combinable_def)
qed auto

lemma timeUnix_whole: "l mod second = 0 \<Longrightarrow> timeUnix (t + l) = timeUnix t + l div second"
proof -
  assume "l mod second = 0"
  then have "(t + l) div second = t div second + l div second" by (simp add: second_def div_add1_eq)
  then show ?thesis by (simp add: timeUnix_def)
qed

lemma signingParameters_lookup:
  "parameter (signingParameters p key nonce now) ''created'' = Some (VInt64 (timeUnix now))"
  "parameter (signingParameters p key nonce now) ''keyid'' = Some (VString (SKKeyID key))"
  "parameter (signingParameters p key nonce now) ''expires'' =
     (if SPExpires p = ParameterRequired then Some (VInt64 (timeUnix (now + SPLifetime p))) else None)"
  "parameter (signingParameters p key nonce now) ''nonce'' =
     (if SPNonce p = ParameterRequired then Some (VString nonce) else None)"
  "parameter (signingParameters p key nonce now) ''alg'' =
     (if SPAlgorithmParameter p = ParameterRequired then Some (VString (SKAlgorithm key)) else None)"
  "parameter (signingParameters p key nonce now) ''tag'' =
     (if SPTag p = ParameterRequired then Some (VString (SPTagValue p)) else None)"
  by (simp_all add: signingParameters_def)

section \<open>Example\<close>

definition exampleSigningConfig :: SigningProfileConfig where
  "exampleSigningConfig =
     \<lparr>SCAllowedAlgorithms = [HMACSHA256],
      SCCoveredComponents = [\<lparr>CompName = ''@method'', CompParameters = []\<rparr>, \<lparr>CompName = ''a'', CompParameters = []\<rparr>],
      SCAllowEmptyCoverage = False, SCExpires = ParameterRequired, SCAlgorithmParameter = ParameterForbidden,
      SCNonce = ParameterRequired, SCTag = ParameterForbidden, SCTagValue = [], SCLifetime = 10 * second,
      SCResolveTimeout = second, SCNow = True, SCProvider = True, SCRequireExternal = False\<rparr>"

definition exampleSigningProfile :: SigningProfile where
  "exampleSigningProfile =
     \<lparr>SPAlgorithms = {HMACSHA256},
      SPComponents = [\<lparr>CompName = ''@method'', CompParameters = []\<rparr>, \<lparr>CompName = ''a'', CompParameters = []\<rparr>],
      SPAllowEmptyCoverage = False, SPExpires = ParameterRequired, SPAlgorithmParameter = ParameterForbidden,
      SPNonce = ParameterRequired, SPTag = ParameterForbidden, SPTagValue = [], SPLifetime = 10 * second,
      SPResolveTimeout = second, SPRequireExternal = False\<rparr>"

definition exampleNow :: time where
  "exampleNow = unixTime 1000"

definition exampleSigningKey :: SigningKey where
  "exampleSigningKey =
     \<lparr>SKKeyID = ''k'', SKAlgorithm = HMACSHA256, SKKey = KHMAC exampleSecret, SKNotBefore = unixTime 900,
      SKNotAfter = unixTime 2000, SKRevoked = False\<rparr>"

definition exampleSignEnv :: signEnv where
  "exampleSignEnv =
     \<lparr>seContext = background, seResolveErr = None, seProvider = Inr exampleSigningKey, seNow = exampleNow, seRandom = 0\<rparr>"

lemma exampleSigningProfile_new: "NewSigningProfile exampleSfv exampleSigningConfig = Inr exampleSigningProfile"
  by code_simp

definition exampleSignedFields :: SignedFields where
  "exampleSignedFields =
     \<lparr>SFInput =
        \<lparr>InLabel = ''s'', InComponents = SPComponents exampleSigningProfile,
         InParameters = [\<lparr>ParName = ''created'', ParValue = VInt64 1000\<rparr>, \<lparr>ParName = ''expires'', ParValue = VInt64 1010\<rparr>,
           \<lparr>ParName = ''nonce'', ParValue = VString ''n''\<rparr>, \<lparr>ParName = ''keyid'', ParValue = VString ''k''\<rparr>]\<rparr>,
      SFSignature =
        \<lparr>SigLabel = ''s'',
         SigValue = ''kkkk'' @ quote ''@method'' @ '': GET'' @ [CHR 0x0A] @ quote ''a'' @ '': x, y'' @ [CHR 0x0A] @
           quote ''@signature-params'' @ '': ('' @ quote ''@method'' @ '' '' @ quote ''a'' @
           '');created=1000;expires=1010;nonce='' @ quote ''n'' @ '';keyid='' @ quote ''k'',
         SigParameters = []\<rparr>\<rparr>"

lemma exampleSigned:
  "Signer_Sign exampleSfv exampleURLs exampleHashes exampleCrypto exampleSignEnv (Some exampleSigningProfile)
     exampleContext ''s'' ''n'' = Inr exampleSignedFields"
  by code_simp

section \<open>Properties\<close>

text \<open>A signing profile that is constructed is complete and consistent: a non-empty allowlist of
  supported algorithms, pairwise different valid components (none only with explicit permission), a
  whole positive number of seconds of lifetime exactly when an expiration is emitted, a valid tag exactly
  when a tag is emitted, and it keeps the configured algorithms and the configured component order.\<close>

theorem signing_profile_wellformed:
  assumes "NewSigningProfile h config = Inr p"
  shows "wfSigningProfile h p \<and> SPAlgorithms p = set (SCAllowedAlgorithms config) \<and>
    SPComponents p = SCCoveredComponents config"
  using NewSigningProfile_wf [OF assms] assms
  by (auto simp: NewSigningProfile_def algorithmSet_loop_iff profileComponents_loop_iff split: if_splits option.splits)

theorem signing_profile_wellformed_witness:
  "NewSigningProfile exampleSfv exampleSigningConfig = Inr exampleSigningProfile \<and>
   wfSigningProfile exampleSfv exampleSigningProfile"
  using signing_profile_wellformed [OF exampleSigningProfile_new] exampleSigningProfile_new by blast

text \<open>C9. What a signer returns is a signature it was allowed to make: the provider's key was usable at the
  sampled time (inclusive activation, exclusive expiry, not revoked), its algorithm is on the allowlist,
  the emitted expiration is exactly the profile's lifetime after the emitted creation time and not past
  the key's own expiry, the covered components are those of the profile, and the value is the primitive's
  signature over the base of exactly the returned input.\<close>

theorem signer_sign_sound:
  assumes "wfSigningProfile h p" "Signer_Sign h u H P env (Some p) message label nonce = Inr sf"
  shows "\<exists>key base. seProvider env = Inr key \<and>
    SKNotBefore key \<le> seNow env \<and> seNow env < SKNotAfter key \<and> \<not> SKRevoked key \<and>
    SKAlgorithm key \<in> SPAlgorithms p \<and>
    InLabel (SFInput sf) = label \<and> InComponents (SFInput sf) = SPComponents p \<and>
    SignatureInput_Parameter (SFInput sf) ''created'' = Some (VInt64 (timeUnix (seNow env))) \<and>
    SignatureInput_Parameter (SFInput sf) ''keyid'' = Some (VString (SKKeyID key)) \<and>
    (SPExpires p = ParameterRequired \<longrightarrow> seNow env + SPLifetime p \<le> SKNotAfter key \<and>
       SignatureInput_Parameter (SFInput sf) ''expires'' =
         Some (VInt64 (timeUnix (seNow env) + SPLifetime p div second))) \<and>
    CreateSignatureBase h u message (SFInput sf) = Inr base \<and>
    Sign H P (seRandom env) (seContext env) 1 (SKAlgorithm key) (SKKey key) base = Inr (SigValue (SFSignature sf)) \<and>
    SigLabel (SFSignature sf) = label"
proof -
  obtain key where k: "seProvider env = Inr key" "signWithKey h u H P env p message label nonce key = Inr sf"
    using Signer_Sign_ok [OF assms(2)] by (metis option.inject)
  obtain base v where b: "usableSigningKey key (seNow env)" "SKAlgorithm key \<in> SPAlgorithms p"
    "\<not> (SPExpires p = ParameterRequired \<and> seNow env + SPLifetime p > SKNotAfter key)"
    "CreateSignatureBase h u message (SFInput sf) = Inr base"
    "Sign H P (seRandom env) (seContext env) 1 (SKAlgorithm key) (SKKey key) base = Inr v"
    "SFInput sf = \<lparr>InLabel = label, InComponents = SPComponents p, InParameters = signingParameters p key nonce (seNow env)\<rparr>"
    "SFSignature sf = \<lparr>SigLabel = label, SigValue = v, SigParameters = []\<rparr>"
    using signWithKey_ok [OF k(2)] by metis
  have l: "SPExpires p = ParameterRequired \<Longrightarrow> SPLifetime p mod second = 0"
    using assms(1) by (auto simp: wfSigningProfile_def)
  show ?thesis
    by (rule exI [of _ key], rule exI [of _ base])
      (use k b l in \<open>simp add: SignatureInput_Parameter_def signingParameters_lookup timeUnix_whole usableSigningKey_def not_less\<close>)
qed

theorem signer_sign_sound_witness:
  "\<exists>sf. Signer_Sign exampleSfv exampleURLs exampleHashes exampleCrypto exampleSignEnv (Some exampleSigningProfile)
     exampleContext ''s'' ''n'' = Inr sf \<and> InComponents (SFInput sf) = SPComponents exampleSigningProfile \<and>
     SignatureInput_Parameter (SFInput sf) ''created'' = Some (VInt64 (timeUnix (seNow exampleSignEnv)))"
  using signer_sign_sound [OF NewSigningProfile_wf [OF exampleSigningProfile_new] exampleSigned] exampleSigned by blast

text \<open>C10. The errors of a signer are fixed: apart from the context's own errors every refusal is one of six
  package sentinels, so neither the key provider's nor the crypto library's diagnostics reach the caller.
  (A panic of the crypto library is not an error and leaves the call as a panic.)\<close>

theorem signer_sign_errors_redacted:
  "case Signer_Sign h u H P env profile message label nonce of
     Inr _ \<Rightarrow> True
   | Inl err \<Rightarrow>
       err \<in> Sentinel ` {ContextCanceled, ErrSigningPolicy, ErrSigningProvider, ErrSigningKey, ErrSigningBase,
         ErrSigningCryptographic} \<or>
       seContext env \<noteq> None \<and> the (seContext env) 0 = Some err \<or> seResolveErr env = Some err \<or>
       isPanic (Inl err :: unit res)"
proof -
  have c: "propagatePanic e (Sentinel s) = Sentinel s \<or> isPanic (Inl (propagatePanic e (Sentinel s)) :: unit res)" for e s
    by (cases e) (auto simp: propagatePanic_def)
  have k: "signWithKey h u H P env p message label nonce key = Inl err \<Longrightarrow>
      err \<in> Sentinel ` {ErrSigningKey, ErrSigningBase, ErrSigningCryptographic} \<or> isPanic (Inl err :: unit res)"
    for p key err
    using c by (auto simp: signWithKey_def Let_def mapSigningError_def split: if_splits sum.splits)
  show ?thesis
    by (simp add: Signer_Sign_def split: option.split sum.split) (use k in fastforce)
qed

text \<open>Combining signed fields accepts exactly non-empty lists of complete pairs whose labels are valid
  and pairwise different, and returns the inputs and the signature values in the caller's order.\<close>

theorem combine_signed_fields_iff:
  "CombineSignedFields fs = Inr (inputs, signatures) \<longleftrightarrow>
   fs \<noteq> [] \<and> list_all combinable fs \<and> distinct (map (\<lambda>sf. InLabel (SFInput sf)) fs) \<and>
   inputs = map SFInput fs \<and> signatures = map bareSignature fs"
  by (auto simp: CombineSignedFields_def combineFields_loop_iff list_all_iff)

end
