(* ===== verification/Verifier.thy ===== *)
theory Verifier
  imports Signer Replay
begin

text \<open>
  \<^verbatim>\<open>verifier.go\<close>: profile construction, the selection of one labelled signature, the policy on its metadata
  and on the resolved key, and the whole of \<^verbatim>\<open>Verify\<close> up to the consumption of the nonce. The resolver and the
  replay store are interfaces of the program and so parameters (\<open>verifyEnv\<close>), the replay store a function
  on an arbitrary state; the two clock samples and the errors of the derived contexts are what one
  call observed.
\<close>

section \<open>Data\<close>

record ResolvedKey =
  RKAlgorithm :: Algorithm
  RKKey :: gokey
  RKNotBefore :: time
  RKNotAfter :: time
  RKFreshUntil :: time
  RKRevoked :: bool

text \<open>\<open>VCNow\<close>, \<open>VCResolver\<close> and \<open>VCReplay\<close> say whether the collaborators are non-nil.\<close>

record VerificationProfileConfig =
  VCAllowedAlgorithms :: "Algorithm list"
  VCRequiredComponents :: "ComponentIdentifier list"
  VCAllowEmptyCoverage :: bool
  VCCreated :: nat
  VCExpires :: nat
  VCAlgorithmParameter :: nat
  VCNonce :: nat
  VCTag :: nat
  VCAllowedTags :: "string list"
  VCMaxAge :: duration
  VCClockSkew :: duration
  VCResolveTimeout :: duration
  VCReplayTimeout :: duration
  VCNow :: bool
  VCResolver :: bool
  VCReplay :: bool
  VCRequireExternal :: bool

record VerificationProfile =
  VPAlgorithms :: "Algorithm set"
  VPRequiredComponents :: "ComponentIdentifier list"
  VPAllowEmptyCoverage :: bool
  VPCreated :: nat
  VPExpires :: nat
  VPAlgorithmParameter :: nat
  VPNonce :: nat
  VPTag :: nat
  VPAllowedTags :: "string set"
  VPMaxAge :: duration
  VPClockSkew :: duration
  VPResolveTimeout :: duration
  VPReplayTimeout :: duration
  VPReplay :: bool
  VPRequireExternal :: bool

datatype VerificationFailure =
    VerificationSelection | VerificationPolicy | VerificationTime | VerificationKeyResolution
  | VerificationKey | VerificationAlgorithm | VerificationBase | VerificationCryptographic | VerificationReplay

datatype verr =
    VerificationError VerificationFailure goerr
  | VPanic string

text \<open>\<open>verificationError\<close> wraps its cause once more; a panic of a callee is not an error and passes through.\<close>

definition verificationError :: "VerificationFailure \<Rightarrow> goerr \<Rightarrow> verr" where
  "verificationError failure cause =
     (case cause of GoPanic m \<Rightarrow> VPanic m | _ \<Rightarrow> VerificationError failure (Errorf ''%w'' [cause] []))"

record VerifiedSignature =
  VSLabel :: string
  VSKeyID :: string
  VSAlgorithm :: Algorithm
  VSCreated :: time
  VSExpires :: time

record validatedMetadata =
  vmResult :: VerifiedSignature
  vmKeyID :: string
  vmNonce :: string
  vmAlgorithm :: Algorithm
  vmHasAlgorithm :: bool
  vmReplayExpires :: time

record 's verifyEnv =
  veContext :: gocontext
  veInputNow :: time
  veKeyNow :: time
  veResolve :: "string \<Rightarrow> ResolvedKey res"
  veResolveErr :: "goerr option"
  veConsume :: "ReplayRecord \<Rightarrow> 's \<Rightarrow> unit res \<times> 's"
  veReplayErr :: "goerr option"

section \<open>Profile construction\<close>

definition validParameterPolicy :: "nat \<Rightarrow> bool" where
  "validParameterPolicy policy \<longleftrightarrow> policy \<ge> ParameterForbidden \<and> policy \<le> ParameterRequired"

definition presenceAllowed :: "nat \<Rightarrow> bool \<Rightarrow> bool" where
  "presenceAllowed policy present \<longleftrightarrow>
     policy = ParameterOptional \<or> policy = ParameterRequired \<and> present \<or> policy = ParameterForbidden \<and> \<not> present"

fun allowedTags_loop :: "string set \<Rightarrow> string list \<Rightarrow> string set option" where
  "allowedTags_loop tags [] = Some tags"
| "allowedTags_loop tags (tag # rest) =
     (if tag = [] \<or> \<not> validSFStringValue tag then None
      else if tag \<in> tags then None
      else allowedTags_loop (insert tag tags) rest)"

definition NewVerificationProfile :: "('p, 'd) httpsfv \<Rightarrow> VerificationProfileConfig \<Rightarrow> VerificationProfile res" where
  "NewVerificationProfile h config =
     (if VCAllowedAlgorithms config = [] \<or> \<not> VCNow config \<or> \<not> VCResolver config \<or>
         VCResolveTimeout config \<le> 0 \<or> VCClockSkew config < 0 \<or> VCMaxAge config > MaxInt - VCClockSkew config \<or>
         \<not> validParameterPolicy (VCCreated config) \<or> \<not> validParameterPolicy (VCExpires config) \<or>
         \<not> validParameterPolicy (VCAlgorithmParameter config) \<or> \<not> validParameterPolicy (VCNonce config) \<or>
         \<not> validParameterPolicy (VCTag config)
      then Inl (Sentinel ErrInvalidVerificationProfile)
      else if VCCreated config = ParameterForbidden \<and> VCMaxAge config \<noteq> 0 \<or>
              VCCreated config \<noteq> ParameterForbidden \<and> VCMaxAge config \<le> 0
      then Inl (Sentinel ErrInvalidVerificationProfile)
      else if VCNonce config = ParameterForbidden \<and> (VCReplay config \<or> VCReplayTimeout config \<noteq> 0) \<or>
              VCNonce config \<noteq> ParameterForbidden \<and> (\<not> VCReplay config \<or> VCReplayTimeout config \<le> 0)
      then Inl (Sentinel ErrInvalidVerificationProfile)
      else if VCTag config = ParameterForbidden \<and> VCAllowedTags config \<noteq> [] \<or>
              VCTag config \<noteq> ParameterForbidden \<and> VCAllowedTags config = []
      then Inl (Sentinel ErrInvalidVerificationProfile)
      else if VCRequiredComponents config = [] \<and> \<not> VCAllowEmptyCoverage config
      then Inl (Sentinel ErrInvalidVerificationProfile)
      else
        case algorithmSet_loop {} (VCAllowedAlgorithms config) of
          None \<Rightarrow> Inl (Sentinel ErrInvalidVerificationProfile)
        | Some algorithms \<Rightarrow>
            (case profileComponents_loop h {} [] (VCRequiredComponents config) of
               None \<Rightarrow> Inl (Sentinel ErrInvalidVerificationProfile)
             | Some required \<Rightarrow>
                 (case allowedTags_loop {} (VCAllowedTags config) of
                    None \<Rightarrow> Inl (Sentinel ErrInvalidVerificationProfile)
                  | Some tags \<Rightarrow>
                      Inr \<lparr>VPAlgorithms = algorithms, VPRequiredComponents = required,
                           VPAllowEmptyCoverage = VCAllowEmptyCoverage config, VPCreated = VCCreated config,
                           VPExpires = VCExpires config, VPAlgorithmParameter = VCAlgorithmParameter config,
                           VPNonce = VCNonce config, VPTag = VCTag config, VPAllowedTags = tags,
                           VPMaxAge = VCMaxAge config, VPClockSkew = VCClockSkew config,
                           VPResolveTimeout = VCResolveTimeout config, VPReplayTimeout = VCReplayTimeout config,
                           VPReplay = VCReplay config, VPRequireExternal = VCRequireExternal config\<rparr>)))"

section \<open>Selection\<close>

definition matchingLabelSets :: "SignatureInput list \<Rightarrow> SignatureValue list \<Rightarrow> bool" where
  "matchingLabelSets inputs signatures =
     (if length inputs \<noteq> length signatures then False
      else let labels = set (map InLabel inputs) in list_all (\<lambda>signature. SigLabel signature \<in> labels) signatures)"

definition selectSignature ::
  "string \<Rightarrow> SignatureInput list \<Rightarrow> SignatureValue list \<Rightarrow> (SignatureInput \<times> SignatureValue) option" where
  "selectSignature label inputs signatures =
     (case List.find (\<lambda>candidate. InLabel candidate = label) inputs of
        None \<Rightarrow> None
      | Some input \<Rightarrow>
          (case List.find (\<lambda>candidate. SigLabel candidate = label) signatures of
             None \<Rightarrow> None
           | Some candidate \<Rightarrow>
               Some (cloneSignatureInput input,
                     \<lparr>SigLabel = SigLabel candidate, SigValue = [] @ SigValue candidate,
                      SigParameters = cloneParameters (SigParameters candidate)\<rparr>)))"

definition integerParameter :: "SignatureInput \<Rightarrow> string \<Rightarrow> int \<times> bool" where
  "integerParameter input name =
     (case SignatureInput_Parameter input name of Some (VInt64 integer) \<Rightarrow> (integer, True) | _ \<Rightarrow> (0, False))"

definition stringParameter :: "SignatureInput \<Rightarrow> string \<Rightarrow> string \<times> bool" where
  "stringParameter input name =
     (case SignatureInput_Parameter input name of Some (VString str) \<Rightarrow> (str, True) | _ \<Rightarrow> ([], False))"

section \<open>Metadata policy\<close>

text \<open>\<^verbatim>\<open>validateInput\<close> in the order of the code: coverage, creation time, expiration, algorithm, key identifier, nonce
  and tag. Each stage returns the updated metadata.\<close>

fun covered_loop :: "('p, 'd) httpsfv \<Rightarrow> string set \<Rightarrow> ComponentIdentifier list \<Rightarrow> string set res" where
  "covered_loop h covered [] = Inr covered"
| "covered_loop h covered (component # rest) =
     (case componentComparisonKey h component of
        Inl err \<Rightarrow> Inl err
      | Inr identifier \<Rightarrow> covered_loop h (insert identifier covered) rest)"

definition validateCoverage :: "('p, 'd) httpsfv \<Rightarrow> VerificationProfile \<Rightarrow> SignatureInput \<Rightarrow> verr + unit" where
  "validateCoverage h profile input =
     (if InComponents input = [] \<and> \<not> VPAllowEmptyCoverage profile
      then Inl (verificationError VerificationPolicy (NewErr ''empty coverage''))
      else case covered_loop h {} (InComponents input) of
             Inl err \<Rightarrow> Inl (verificationError VerificationPolicy err)
           | Inr covered \<Rightarrow>
               if list_all (\<lambda>component. comparisonKeyOrEmpty h component \<in> covered) (VPRequiredComponents profile)
               then Inr ()
               else Inl (verificationError VerificationPolicy (NewErr ''insufficient coverage'')))"

definition validateCreated ::
  "VerificationProfile \<Rightarrow> time \<Rightarrow> SignatureInput \<Rightarrow> validatedMetadata \<Rightarrow> verr + validatedMetadata" where
  "validateCreated profile now input metadata =
     (case integerParameter input ''created'' of
        (created, hasCreated) \<Rightarrow>
          if \<not> presenceAllowed (VPCreated profile) hasCreated
          then Inl (verificationError VerificationPolicy (NewErr ''created policy''))
          else if \<not> hasCreated then Inr metadata
          else
            let c = unixTime created; window = i64 (VPMaxAge profile + VPClockSkew profile) in
            if c > now + VPClockSkew profile \<or> timeSub now c > window
            then Inl (verificationError VerificationTime (NewErr ''creation time''))
            else Inr (metadata\<lparr>vmResult := (vmResult metadata)\<lparr>VSCreated := c\<rparr>, vmReplayExpires := c + window\<rparr>))"

definition validateExpires ::
  "VerificationProfile \<Rightarrow> time \<Rightarrow> SignatureInput \<Rightarrow> validatedMetadata \<Rightarrow> verr + validatedMetadata" where
  "validateExpires profile now input metadata =
     (case integerParameter input ''expires'' of
        (expires, hasExpires) \<Rightarrow>
          if \<not> presenceAllowed (VPExpires profile) hasExpires
          then Inl (verificationError VerificationPolicy (NewErr ''expires policy''))
          else if \<not> hasExpires then Inr metadata
          else
            let e = unixTime expires in
            if \<not> now < e + VPClockSkew profile \<or>
               snd (integerParameter input ''created'') \<and> \<not> e > VSCreated (vmResult metadata)
            then Inl (verificationError VerificationTime (NewErr ''expiration time''))
            else
              let m = metadata\<lparr>vmResult := (vmResult metadata)\<lparr>VSExpires := e\<rparr>\<rparr>;
                  replayExpiration = e + VPClockSkew profile
              in if isZero (vmReplayExpires m) \<or> replayExpiration < vmReplayExpires m
                 then Inr (m\<lparr>vmReplayExpires := replayExpiration\<rparr>) else Inr m)"

definition validateAlgorithmParameter ::
  "VerificationProfile \<Rightarrow> SignatureInput \<Rightarrow> validatedMetadata \<Rightarrow> verr + validatedMetadata" where
  "validateAlgorithmParameter profile input metadata =
     (case stringParameter input ''alg'' of
        (algorithm, hasAlgorithm) \<Rightarrow>
          if \<not> presenceAllowed (VPAlgorithmParameter profile) hasAlgorithm
          then Inl (verificationError VerificationPolicy (NewErr ''algorithm parameter policy''))
          else if hasAlgorithm \<and> algorithm \<notin> VPAlgorithms profile
          then Inl (verificationError VerificationAlgorithm (NewErr ''algorithm not allowed''))
          else Inr (metadata\<lparr>vmAlgorithm := algorithm, vmHasAlgorithm := hasAlgorithm\<rparr>))"

definition validateKeyID :: "SignatureInput \<Rightarrow> validatedMetadata \<Rightarrow> verr + validatedMetadata" where
  "validateKeyID input metadata =
     (let m = metadata\<lparr>vmKeyID := fst (stringParameter input ''keyid'')\<rparr> in
      if vmKeyID m = [] then Inl (verificationError VerificationPolicy (NewErr ''key identifier required''))
      else Inr (m\<lparr>vmResult := (vmResult m)\<lparr>VSKeyID := vmKeyID m\<rparr>\<rparr>))"

definition validateNonce ::
  "VerificationProfile \<Rightarrow> SignatureInput \<Rightarrow> validatedMetadata \<Rightarrow> verr + validatedMetadata" where
  "validateNonce profile input metadata =
     (case stringParameter input ''nonce'' of
        (given, hasNonce) \<Rightarrow>
          if \<not> presenceAllowed (VPNonce profile) hasNonce \<or> hasNonce \<and> given = []
          then Inl (verificationError VerificationPolicy (NewErr ''nonce policy''))
          else if hasNonce \<and> isZero (vmReplayExpires metadata)
          then Inl (verificationError VerificationPolicy (NewErr ''nonce lacks bounded lifetime''))
          else Inr (metadata\<lparr>vmNonce := given\<rparr>))"

definition validateTag ::
  "VerificationProfile \<Rightarrow> SignatureInput \<Rightarrow> validatedMetadata \<Rightarrow> verr + validatedMetadata" where
  "validateTag profile input metadata =
     (case stringParameter input ''tag'' of
        (tag, hasTag) \<Rightarrow>
          if \<not> presenceAllowed (VPTag profile) hasTag
          then Inl (verificationError VerificationPolicy (NewErr ''tag policy''))
          else if hasTag \<and> tag \<notin> VPAllowedTags profile
          then Inl (verificationError VerificationPolicy (NewErr ''tag not allowed''))
          else Inr metadata)"

definition bindRes :: "'e + 'a \<Rightarrow> ('a \<Rightarrow> 'e + 'b) \<Rightarrow> 'e + 'b" where
  "bindRes r f = (case r of Inl e \<Rightarrow> Inl e | Inr x \<Rightarrow> f x)"

lemma bindRes_simps [simp]: "bindRes (Inl e) f = Inl e" "bindRes (Inr x) f = f x"
  by (simp_all add: bindRes_def)

lemma bindRes_Inr: "bindRes r f = Inr y \<longleftrightarrow> (\<exists>x. r = Inr x \<and> f x = Inr y)"
  by (cases r) auto

definition initialMetadata :: "SignatureInput \<Rightarrow> validatedMetadata" where
  "initialMetadata input =
     \<lparr>vmResult = \<lparr>VSLabel = InLabel input, VSKeyID = [], VSAlgorithm = [], VSCreated = 0, VSExpires = 0\<rparr>,
      vmKeyID = [], vmNonce = [], vmAlgorithm = [], vmHasAlgorithm = False, vmReplayExpires = 0\<rparr>"

definition validateInput ::
  "('p, 'd) httpsfv \<Rightarrow> VerificationProfile \<Rightarrow> time \<Rightarrow> SignatureInput \<Rightarrow> verr + validatedMetadata" where
  "validateInput h profile now input =
     bindRes (validateCoverage h profile input) (\<lambda>_.
     bindRes (validateCreated profile now input (initialMetadata input)) (\<lambda>m1.
     bindRes (validateExpires profile now input m1) (\<lambda>m2.
     bindRes (validateAlgorithmParameter profile input m2) (\<lambda>m3.
     bindRes (validateKeyID input m3) (\<lambda>m4.
     bindRes (validateNonce profile input m4) (\<lambda>m5.
     validateTag profile input m5))))))"

section \<open>Key policy\<close>

definition usableKey :: "VerificationProfile \<Rightarrow> time \<Rightarrow> ResolvedKey \<Rightarrow> time \<Rightarrow> bool" where
  "usableKey profile now key created \<longleftrightarrow>
     \<not> (RKRevoked key \<or> RKKey key = KNil \<or> isZero (RKNotBefore key) \<or> isZero (RKNotAfter key) \<or>
        isZero (RKFreshUntil key) \<or> \<not> RKNotAfter key > RKNotBefore key \<or>
        now < RKNotBefore key + - VPClockSkew profile \<or> \<not> now < RKNotAfter key + VPClockSkew profile \<or>
        \<not> now < RKFreshUntil key \<or>
        \<not> isZero created \<and> (created < RKNotBefore key + - VPClockSkew profile \<or>
                            \<not> created < RKNotAfter key + VPClockSkew profile))"

definition validateKey ::
  "VerificationProfile \<Rightarrow> time \<Rightarrow> ResolvedKey \<Rightarrow> Algorithm \<Rightarrow> bool \<Rightarrow> time \<Rightarrow> verr + unit" where
  "validateKey profile now key parameterAlgorithm hasParameter created =
     (if \<not> usableKey profile now key created
      then Inl (verificationError VerificationKey (NewErr ''unusable key''))
      else if RKAlgorithm key \<notin> VPAlgorithms profile
      then Inl (verificationError VerificationAlgorithm (NewErr ''resolved algorithm not allowed''))
      else if hasParameter \<and> parameterAlgorithm \<noteq> RKAlgorithm key
      then Inl (verificationError VerificationAlgorithm (NewErr ''algorithm mismatch''))
      else Inr ())"

definition safeResolutionCause :: "goerr \<Rightarrow> goerr" where
  "safeResolutionCause err =
     (if errorsIs err ContextCanceled then Sentinel ContextCanceled
      else if errorsIs err ContextDeadlineExceeded then Sentinel ContextDeadlineExceeded
      else if errorsIs err ErrKeyNotFound then Sentinel ErrKeyNotFound
      else Sentinel ErrKeyResolutionFailure)"

definition safeReplayCause :: "goerr \<Rightarrow> goerr" where
  "safeReplayCause err =
     (if errorsIs err ContextCanceled then Sentinel ContextCanceled
      else if errorsIs err ContextDeadlineExceeded then Sentinel ContextDeadlineExceeded
      else if errorsIs err ErrReplayDetected then Sentinel ErrReplayDetected
      else if errorsIs err ErrReplayCapacity then Sentinel ErrReplayCapacity
      else if errorsIs err ErrInvalidReplayRecord then Sentinel ErrInvalidReplayRecord
      else Sentinel ErrReplayBackendFailure)"

section \<open>Verify\<close>

text \<open>The steps after selection and before the nonce: metadata, base, key and primitive.\<close>

definition resolveKey :: "'s verifyEnv \<Rightarrow> string \<Rightarrow> verr + ResolvedKey" where
  "resolveKey env identifier =
     (case (veResolve env identifier, veResolveErr env) of
        (Inl (GoPanic m), _) \<Rightarrow> Inl (VPanic m)
      | (_, Some err) \<Rightarrow> Inl (verificationError VerificationKeyResolution (safeResolutionCause err))
      | (Inl err, None) \<Rightarrow> Inl (verificationError VerificationKeyResolution (safeResolutionCause err))
      | (Inr resolved, None) \<Rightarrow> Inr resolved)"

definition verifyPrimitiveStep ::
  "hashes \<Rightarrow> crypto \<Rightarrow> 's verifyEnv \<Rightarrow> ResolvedKey \<Rightarrow> bytes \<Rightarrow> bytes \<Rightarrow> verr + unit" where
  "verifyPrimitiveStep H P env resolved base signature =
     (case Verify H P (veContext env) 1 (RKAlgorithm resolved) (RKKey resolved) base signature of
        Inr u \<Rightarrow> Inr u
      | Inl err \<Rightarrow>
          Inl (verificationError
                 (if errorsIs err ErrIncompatibleKey \<or> errorsIs err ErrUnsupportedSignatureAlgorithm
                  then VerificationKey else VerificationCryptographic) err))"

definition authenticate ::
  "('p, 'd) httpsfv \<Rightarrow> urls \<Rightarrow> hashes \<Rightarrow> crypto \<Rightarrow> 's verifyEnv \<Rightarrow> VerificationProfile \<Rightarrow> MessageContext \<Rightarrow>
   SignatureInput \<Rightarrow> SignatureValue \<Rightarrow> verr + validatedMetadata" where
  "authenticate h u H P env profile message input signature =
     bindRes (validateInput h profile (veInputNow env) input) (\<lambda>metadata.
     bindRes (case CreateSignatureBase h u message input of
                Inl err \<Rightarrow> Inl (verificationError VerificationBase err) | Inr base \<Rightarrow> Inr base) (\<lambda>base.
     bindRes (resolveKey env (vmKeyID metadata)) (\<lambda>resolved.
     bindRes (validateKey profile (veKeyNow env) resolved (vmAlgorithm metadata) (vmHasAlgorithm metadata)
                (VSCreated (vmResult metadata))) (\<lambda>_.
     bindRes (verifyPrimitiveStep H P env resolved base (SigValue signature)) (\<lambda>_.
     Inr (metadata\<lparr>vmResult := (vmResult metadata)\<lparr>VSAlgorithm := RKAlgorithm resolved\<rparr>\<rparr>))))))"

definition consumeNonce :: "'s verifyEnv \<Rightarrow> validatedMetadata \<Rightarrow> 's \<Rightarrow> (verr + unit) \<times> 's" where
  "consumeNonce env metadata s =
     (if vmNonce metadata = [] then (Inr (), s)
      else
        case veConsume env \<lparr>RecKeyID = vmKeyID metadata, RecNonce = vmNonce metadata,
                             RecExpiresAt = vmReplayExpires metadata\<rparr> s of
          (replayErr, s') \<Rightarrow>
            (case (replayErr, veReplayErr env) of
               (Inl (GoPanic m), _) \<Rightarrow> (Inl (VPanic m), s')
             | (_, Some err) \<Rightarrow> (Inl (verificationError VerificationReplay (safeReplayCause err)), s')
             | (Inl err, None) \<Rightarrow> (Inl (verificationError VerificationReplay (safeReplayCause err)), s')
             | (Inr _, None) \<Rightarrow> (Inr (), s')))"

definition selectVerified ::
  "'s verifyEnv \<Rightarrow> VerificationProfile option \<Rightarrow> MessageContext \<Rightarrow> string \<Rightarrow> SignatureInput list \<Rightarrow>
   SignatureValue list \<Rightarrow> verr + (VerificationProfile \<times> SignatureInput \<times> SignatureValue)" where
  "selectVerified env verifier message label inputs signatures =
     (case veContext env of
        None \<Rightarrow> Inl (verificationError VerificationSelection (NewErr ''nil context''))
      | Some observe \<Rightarrow>
          (case observe 0 of
             Some err \<Rightarrow> Inl (verificationError VerificationSelection err)
           | None \<Rightarrow>
               (case verifier of
                  None \<Rightarrow> Inl (verificationError VerificationSelection (Sentinel ErrInvalidVerificationProfile))
                | Some profile \<Rightarrow>
                    if label = []
                    then Inl (verificationError VerificationSelection (Sentinel ErrInvalidVerificationProfile))
                    else if \<not> matchingLabelSets inputs signatures
                    then Inl (verificationError VerificationSelection (NewErr ''field label mismatch''))
                    else case selectSignature label inputs signatures of
                           None \<Rightarrow> Inl (verificationError VerificationSelection (NewErr ''label mismatch''))
                         | Some (input, signature) \<Rightarrow>
                             if VPRequireExternal profile \<and> CtxExternalRequest message = None
                             then Inl (verificationError VerificationPolicy
                                         (NewErr ''trusted external request context required''))
                             else Inr (profile, input, signature))))"

definition Verifier_Verify ::
  "('p, 'd) httpsfv \<Rightarrow> urls \<Rightarrow> hashes \<Rightarrow> crypto \<Rightarrow> 's verifyEnv \<Rightarrow> VerificationProfile option \<Rightarrow> MessageContext \<Rightarrow>
   string \<Rightarrow> SignatureInput list \<Rightarrow> SignatureValue list \<Rightarrow> 's \<Rightarrow> (verr + VerifiedSignature) \<times> 's" where
  "Verifier_Verify h u H P env verifier message label inputs signatures s =
     (case selectVerified env verifier message label inputs signatures of
        Inl err \<Rightarrow> (Inl err, s)
      | Inr (profile, input, signature) \<Rightarrow>
          (case authenticate h u H P env profile message input signature of
             Inl err \<Rightarrow> (Inl err, s)
           | Inr metadata \<Rightarrow>
               (case consumeNonce env metadata s of
                  (Inl err, s') \<Rightarrow> (Inl err, s')
                | (Inr _, s') \<Rightarrow> (Inr (vmResult metadata), s'))))"

section \<open>Laws of the stages\<close>

named_theorems stage_simps \<open>when a stage of the verification succeeds\<close>

lemma verificationError_cases:
  "verificationError f c = VerificationError g e \<Longrightarrow> g = f \<and> e = Errorf ''%w'' [c] []"
  by (auto simp: verificationError_def split: goerr.splits)

lemma verificationError_simps [simp]:
  "verificationError f (NewErr t) = VerificationError f (Errorf ''%w'' [NewErr t] [])"
  "verificationError f (Sentinel x) = VerificationError f (Errorf ''%w'' [Sentinel x] [])"
  by (simp_all add: verificationError_def)

lemma allowedTags_loop_iff:
  "allowedTags_loop A ts = Some B \<longleftrightarrow>
   B = A \<union> set ts \<and> distinct ts \<and> set ts \<inter> A = {} \<and> (\<forall>t \<in> set ts. t \<noteq> [] \<and> validSFStringValue t)"
  by (induction A ts rule: allowedTags_loop.induct) auto

lemma covered_loop_iff:
  "covered_loop h A cs = Inr B \<longleftrightarrow>
   B = A \<union> comparisonKeyOrEmpty h ` set cs \<and> (\<forall>c \<in> set cs. isOk (componentComparisonKey h c))"
  by (induction h A cs rule: covered_loop.induct) (auto simp: comparisonKeyOrEmpty_def split: sum.splits)

lemma validateCoverage_ok [stage_simps]:
  "validateCoverage h p input = Inr x \<longleftrightarrow>
   (InComponents input = [] \<longrightarrow> VPAllowEmptyCoverage p) \<and>
   (\<forall>c \<in> set (InComponents input). isOk (componentComparisonKey h c)) \<and>
   comparisonKeyOrEmpty h ` set (VPRequiredComponents p) \<subseteq> comparisonKeyOrEmpty h ` set (InComponents input)"
proof -
  have *: "(\<exists>B. covered_loop h {} (InComponents input) = Inr B \<and> Q B) \<longleftrightarrow>
      (\<forall>c \<in> set (InComponents input). isOk (componentComparisonKey h c)) \<and>
      Q (comparisonKeyOrEmpty h ` set (InComponents input))" for Q
    unfolding covered_loop_iff by auto
  have "validateCoverage h p input = Inr x \<longleftrightarrow> (InComponents input = [] \<longrightarrow> VPAllowEmptyCoverage p) \<and>
      (\<exists>B. covered_loop h {} (InComponents input) = Inr B \<and>
        (\<forall>c \<in> set (VPRequiredComponents p). comparisonKeyOrEmpty h c \<in> B))"
    by (cases "covered_loop h {} (InComponents input)") (auto simp: validateCoverage_def list_all_iff)
  then show ?thesis unfolding * by auto
qed

abbreviation creation :: "SignatureInput \<Rightarrow> time" where
  "creation input \<equiv>
     (if snd (integerParameter input ''created'') then unixTime (fst (integerParameter input ''created'')) else 0)"

abbreviation expiration :: "SignatureInput \<Rightarrow> time" where
  "expiration input \<equiv>
     (if snd (integerParameter input ''expires'') then unixTime (fst (integerParameter input ''expires'')) else 0)"

text \<open>The accepted interval of processing times.\<close>

definition creationInWindow :: "VerificationProfile \<Rightarrow> time \<Rightarrow> SignatureInput \<Rightarrow> bool" where
  "creationInWindow p now input \<longleftrightarrow>
     presenceAllowed (VPCreated p) (snd (integerParameter input ''created'')) \<and>
     (snd (integerParameter input ''created'') \<longrightarrow>
        creation input \<le> now + VPClockSkew p \<and> timeSub now (creation input) \<le> i64 (VPMaxAge p + VPClockSkew p))"

definition notExpired :: "VerificationProfile \<Rightarrow> time \<Rightarrow> SignatureInput \<Rightarrow> bool" where
  "notExpired p now input \<longleftrightarrow>
     presenceAllowed (VPExpires p) (snd (integerParameter input ''expires'')) \<and>
     (snd (integerParameter input ''expires'') \<longrightarrow>
        now < expiration input + VPClockSkew p \<and>
        (snd (integerParameter input ''created'') \<longrightarrow> creation input < expiration input))"

text \<open>How long the nonce has to be remembered: a function of the profile and the signed metadata only.\<close>

definition retention :: "VerificationProfile \<Rightarrow> SignatureInput \<Rightarrow> time" where
  "retention p input =
     (let c = (if snd (integerParameter input ''created'') then creation input + i64 (VPMaxAge p + VPClockSkew p) else 0);
          e = expiration input + VPClockSkew p
      in if snd (integerParameter input ''expires'') \<and> (isZero c \<or> e < c) then e else c)"

lemma validateCreated_ok [stage_simps]:
  "validateCreated p now input (initialMetadata input) = Inr m \<longleftrightarrow>
   creationInWindow p now input \<and>
   m = (initialMetadata input)\<lparr>vmResult := (vmResult (initialMetadata input))\<lparr>VSCreated := creation input\<rparr>,
         vmReplayExpires := if snd (integerParameter input ''created'')
           then creation input + i64 (VPMaxAge p + VPClockSkew p) else 0\<rparr>"
  by (cases "integerParameter input ''created''")
    (auto simp: validateCreated_def creationInWindow_def initialMetadata_def Let_def not_less)

lemma validateExpires_ok [stage_simps]:
  assumes "VSCreated (vmResult m) = creation input" "VSExpires (vmResult m) = 0"
    "vmReplayExpires m = (if snd (integerParameter input ''created'')
       then creation input + i64 (VPMaxAge p + VPClockSkew p) else 0)"
  shows "validateExpires p now input m = Inr m' \<longleftrightarrow>
   notExpired p now input \<and>
   m' = m\<lparr>vmResult := (vmResult m)\<lparr>VSExpires := expiration input\<rparr>, vmReplayExpires := retention p input\<rparr>"
  using assms
  by (cases "integerParameter input ''expires''"; cases "integerParameter input ''created''")
    (auto simp: validateExpires_def notExpired_def retention_def Let_def not_less)

lemma validateAlgorithmParameter_ok [stage_simps]:
  "validateAlgorithmParameter p input m = Inr m' \<longleftrightarrow>
   presenceAllowed (VPAlgorithmParameter p) (snd (stringParameter input ''alg'')) \<and>
   (snd (stringParameter input ''alg'') \<longrightarrow> fst (stringParameter input ''alg'') \<in> VPAlgorithms p) \<and>
   m' = m\<lparr>vmAlgorithm := fst (stringParameter input ''alg''), vmHasAlgorithm := snd (stringParameter input ''alg'')\<rparr>"
  by (cases "stringParameter input ''alg''") (auto simp: validateAlgorithmParameter_def)

lemma validateKeyID_ok [stage_simps]:
  "validateKeyID input m = Inr m' \<longleftrightarrow>
   fst (stringParameter input ''keyid'') \<noteq> [] \<and>
   m' = m\<lparr>vmKeyID := fst (stringParameter input ''keyid''),
          vmResult := (vmResult m)\<lparr>VSKeyID := fst (stringParameter input ''keyid'')\<rparr>\<rparr>"
  by (auto simp: validateKeyID_def Let_def)

lemma validateNonce_ok [stage_simps]:
  "validateNonce p input m = Inr m' \<longleftrightarrow>
   presenceAllowed (VPNonce p) (snd (stringParameter input ''nonce'')) \<and>
   (snd (stringParameter input ''nonce'') \<longrightarrow>
      fst (stringParameter input ''nonce'') \<noteq> [] \<and> \<not> isZero (vmReplayExpires m)) \<and>
   m' = m\<lparr>vmNonce := fst (stringParameter input ''nonce'')\<rparr>"
  by (cases "stringParameter input ''nonce''") (auto simp: validateNonce_def)

lemma validateTag_ok [stage_simps]:
  "validateTag p input m = Inr m' \<longleftrightarrow>
   presenceAllowed (VPTag p) (snd (stringParameter input ''tag'')) \<and>
   (snd (stringParameter input ''tag'') \<longrightarrow> fst (stringParameter input ''tag'') \<in> VPAllowedTags p) \<and> m' = m"
  by (cases "stringParameter input ''tag''") (auto simp: validateTag_def)

text \<open>The declarative form of the metadata policy.\<close>

definition metadataAllowed :: "('p, 'd) httpsfv \<Rightarrow> VerificationProfile \<Rightarrow> SignatureInput \<Rightarrow> bool" where
  "metadataAllowed h p input \<longleftrightarrow>
     (InComponents input = [] \<longrightarrow> VPAllowEmptyCoverage p) \<and>
     (\<forall>c \<in> set (InComponents input). isOk (componentComparisonKey h c)) \<and>
     comparisonKeyOrEmpty h ` set (VPRequiredComponents p) \<subseteq> comparisonKeyOrEmpty h ` set (InComponents input) \<and>
     presenceAllowed (VPAlgorithmParameter p) (snd (stringParameter input ''alg'')) \<and>
     (snd (stringParameter input ''alg'') \<longrightarrow> fst (stringParameter input ''alg'') \<in> VPAlgorithms p) \<and>
     fst (stringParameter input ''keyid'') \<noteq> [] \<and>
     presenceAllowed (VPNonce p) (snd (stringParameter input ''nonce'')) \<and>
     (snd (stringParameter input ''nonce'') \<longrightarrow>
        fst (stringParameter input ''nonce'') \<noteq> [] \<and> \<not> isZero (retention p input)) \<and>
     presenceAllowed (VPTag p) (snd (stringParameter input ''tag'')) \<and>
     (snd (stringParameter input ''tag'') \<longrightarrow> fst (stringParameter input ''tag'') \<in> VPAllowedTags p)"

definition metadataOf :: "VerificationProfile \<Rightarrow> SignatureInput \<Rightarrow> validatedMetadata" where
  "metadataOf p input =
     \<lparr>vmResult = \<lparr>VSLabel = InLabel input, VSKeyID = fst (stringParameter input ''keyid''), VSAlgorithm = [],
                  VSCreated = creation input, VSExpires = expiration input\<rparr>,
      vmKeyID = fst (stringParameter input ''keyid''), vmNonce = fst (stringParameter input ''nonce''),
      vmAlgorithm = fst (stringParameter input ''alg''), vmHasAlgorithm = snd (stringParameter input ''alg''),
      vmReplayExpires = retention p input\<rparr>"

lemma bindRes_stage: "(\<And>x. r = Inr x \<longleftrightarrow> A \<and> x = y) \<Longrightarrow> bindRes r f = Inr z \<longleftrightarrow> A \<and> f y = Inr z"
  unfolding bindRes_Inr by metis

lemma validateExpires_created:
  "validateExpires p now input ((initialMetadata input)\<lparr>
      vmResult := (vmResult (initialMetadata input))\<lparr>VSCreated := creation input\<rparr>,
      vmReplayExpires := if snd (integerParameter input ''created'')
        then creation input + i64 (VPMaxAge p + VPClockSkew p) else 0\<rparr>) = Inr m \<longleftrightarrow>
   notExpired p now input \<and>
   m = (initialMetadata input)\<lparr>
      vmResult := (vmResult (initialMetadata input))\<lparr>VSCreated := creation input, VSExpires := expiration input\<rparr>,
      vmReplayExpires := retention p input\<rparr>"
  by (subst validateExpires_ok) (simp_all add: initialMetadata_def)

lemma validateInput_iff:
  "validateInput h p now input = Inr m \<longleftrightarrow>
   metadataAllowed h p input \<and> creationInWindow p now input \<and> notExpired p now input \<and> m = metadataOf p input"
proof -
  have cov: "bindRes (validateCoverage h p input) f = Inr m \<longleftrightarrow>
      (\<exists>x. validateCoverage h p input = Inr x) \<and> f () = Inr m" for f :: "unit \<Rightarrow> verr + validatedMetadata"
    by (auto simp: bindRes_Inr)
  show ?thesis
    unfolding validateInput_def cov bindRes_stage [OF validateCreated_ok] bindRes_stage [OF validateExpires_created]
      bindRes_stage [OF validateAlgorithmParameter_ok [unfolded conj_assoc [symmetric]]]
      bindRes_stage [OF validateKeyID_ok] bindRes_stage [OF validateNonce_ok [unfolded conj_assoc [symmetric]]]
      validateTag_ok validateCoverage_ok
    unfolding metadataAllowed_def metadataOf_def by (simp add: initialMetadata_def) blast
qed

lemma resolveKey_ok: "resolveKey env i = Inr k \<longleftrightarrow> veResolve env i = Inr k \<and> veResolveErr env = None"
  by (auto simp: resolveKey_def split: sum.splits goerr.splits option.splits)

lemma validateKey_ok:
  "validateKey p now key a has c = Inr x \<longleftrightarrow>
   usableKey p now key c \<and> RKAlgorithm key \<in> VPAlgorithms p \<and> (has \<longrightarrow> a = RKAlgorithm key)"
  by (auto simp: validateKey_def)

lemma verifyPrimitiveStep_ok:
  "verifyPrimitiveStep H P env key base sig = Inr x \<longleftrightarrow>
   Verify H P (veContext env) 1 (RKAlgorithm key) (RKKey key) base sig = Inr ()"
  by (auto simp: verifyPrimitiveStep_def split: sum.splits)

text \<open>What makes one signature acceptable, apart from its nonce.\<close>

definition acceptable ::
  "('p, 'd) httpsfv \<Rightarrow> urls \<Rightarrow> hashes \<Rightarrow> crypto \<Rightarrow> 's verifyEnv \<Rightarrow> VerificationProfile \<Rightarrow> MessageContext \<Rightarrow>
   SignatureInput \<Rightarrow> SignatureValue \<Rightarrow> ResolvedKey \<Rightarrow> string \<Rightarrow> bool" where
  "acceptable h u H P env p message input signature key base \<longleftrightarrow>
     metadataAllowed h p input \<and> creationInWindow p (veInputNow env) input \<and> notExpired p (veInputNow env) input \<and>
     CreateSignatureBase h u message input = Inr base \<and>
     veResolveErr env = None \<and> veResolve env (fst (stringParameter input ''keyid'')) = Inr key \<and>
     usableKey p (veKeyNow env) key (creation input) \<and> RKAlgorithm key \<in> VPAlgorithms p \<and>
     (snd (stringParameter input ''alg'') \<longrightarrow> fst (stringParameter input ''alg'') = RKAlgorithm key) \<and>
     Verify H P (veContext env) 1 (RKAlgorithm key) (RKKey key) base (SigValue signature) = Inr ()"

definition acceptedMetadata :: "VerificationProfile \<Rightarrow> SignatureInput \<Rightarrow> ResolvedKey \<Rightarrow> validatedMetadata" where
  "acceptedMetadata p input key =
     (metadataOf p input)\<lparr>vmResult := (vmResult (metadataOf p input))\<lparr>VSAlgorithm := RKAlgorithm key\<rparr>\<rparr>"

lemma authenticate_iff:
  "authenticate h u H P env p message input signature = Inr m \<longleftrightarrow>
   (\<exists>key base. acceptable h u H P env p message input signature key base \<and> m = acceptedMetadata p input key)"
proof -
  have base: "(case CreateSignatureBase h u message input of
      Inl err \<Rightarrow> Inl (verificationError VerificationBase err) | Inr base \<Rightarrow> Inr base) = Inr b \<longleftrightarrow>
      CreateSignatureBase h u message input = Inr b" for b
    by (auto split: sum.splits)
  have m: "vmKeyID (metadataOf p input) = fst (stringParameter input ''keyid'')"
    "vmAlgorithm (metadataOf p input) = fst (stringParameter input ''alg'')"
    "vmHasAlgorithm (metadataOf p input) = snd (stringParameter input ''alg'')"
    "VSCreated (vmResult (metadataOf p input)) = creation input"
    by (simp_all add: metadataOf_def)
  show ?thesis
    unfolding authenticate_def bindRes_Inr validateInput_iff base resolveKey_ok validateKey_ok verifyPrimitiveStep_ok
      acceptable_def acceptedMetadata_def
    by (auto simp: m simp del: One_nat_def)
qed

lemma selectSignature_ok:
  "selectSignature label inputs signatures = Some (input, signature) \<longleftrightarrow>
   List.find (\<lambda>c. InLabel c = label) inputs = Some input \<and>
   List.find (\<lambda>c. SigLabel c = label) signatures = Some signature"
  by (auto simp: selectSignature_def split: option.splits)

text \<open>The record the store receives.\<close>

definition replayRecordOf :: "VerificationProfile \<Rightarrow> SignatureInput \<Rightarrow> ReplayRecord" where
  "replayRecordOf p input =
     \<lparr>RecKeyID = fst (stringParameter input ''keyid''), RecNonce = fst (stringParameter input ''nonce''),
      RecExpiresAt = retention p input\<rparr>"

lemma consumeNonce_eq:
  "consumeNonce env (acceptedMetadata p input key) s =
   (if fst (stringParameter input ''nonce'') = [] then (Inr (), s)
    else (case fst (veConsume env (replayRecordOf p input) s) of
            Inl (GoPanic m) \<Rightarrow> Inl (VPanic m)
          | Inl err \<Rightarrow>
              (case veReplayErr env of
                 Some e \<Rightarrow> Inl (verificationError VerificationReplay (safeReplayCause e))
               | None \<Rightarrow> Inl (verificationError VerificationReplay (safeReplayCause err)))
          | Inr _ \<Rightarrow>
              (case veReplayErr env of
                 Some e \<Rightarrow> Inl (verificationError VerificationReplay (safeReplayCause e))
               | None \<Rightarrow> Inr ()),
          snd (veConsume env (replayRecordOf p input) s)))"
  by (cases "veConsume env (replayRecordOf p input) s")
    (auto simp: consumeNonce_def acceptedMetadata_def metadataOf_def replayRecordOf_def
      split: sum.splits goerr.splits option.splits)

definition replayAccepted :: "'s verifyEnv \<Rightarrow> VerificationProfile \<Rightarrow> SignatureInput \<Rightarrow> 's \<Rightarrow> 's \<Rightarrow> bool" where
  "replayAccepted env p input s s' =
     (if fst (stringParameter input ''nonce'') = [] then s' = s
      else veReplayErr env = None \<and> veConsume env (replayRecordOf p input) s = (Inr (), s'))"

lemma consumeNonce_ok:
  "consumeNonce env (acceptedMetadata p input key) s = (Inr x, s') \<longleftrightarrow> replayAccepted env p input s s'"
  by (cases "veConsume env (replayRecordOf p input) s")
    (auto simp: consumeNonce_eq replayAccepted_def split: sum.splits goerr.splits option.splits)

lemma selectVerified_ok:
  "selectVerified env verifier message label inputs signatures = Inr (p, input, signature) \<longleftrightarrow>
   contextError (veContext env) 0 = None \<and> verifier = Some p \<and> label \<noteq> [] \<and> matchingLabelSets inputs signatures \<and>
   List.find (\<lambda>c. InLabel c = label) inputs = Some input \<and>
   List.find (\<lambda>c. SigLabel c = label) signatures = Some signature \<and>
   (VPRequireExternal p \<longrightarrow> CtxExternalRequest message \<noteq> None)"
  using selectSignature_ok [of label inputs signatures input signature]
  by (cases "selectSignature label inputs signatures")
    (auto simp: selectVerified_def contextError_def split: option.splits)

definition verifiedResult :: "SignatureInput \<Rightarrow> ResolvedKey \<Rightarrow> VerifiedSignature" where
  "verifiedResult input key =
     \<lparr>VSLabel = InLabel input, VSKeyID = fst (stringParameter input ''keyid''), VSAlgorithm = RKAlgorithm key,
      VSCreated = creation input, VSExpires = expiration input\<rparr>"

lemma verify_iff:
  "Verifier_Verify h u H P env verifier message label inputs signatures s = (Inr v, s') \<longleftrightarrow>
   (\<exists>p input signature key base.
      selectVerified env verifier message label inputs signatures = Inr (p, input, signature) \<and>
      acceptable h u H P env p message input signature key base \<and>
      replayAccepted env p input s s' \<and> v = verifiedResult input key)"
  (is "_ = (Inr v, s') \<longleftrightarrow> ?R")
proof
  assume "Verifier_Verify h u H P env verifier message label inputs signatures s = (Inr v, s')"
  then obtain p input signature m where 1:
    "selectVerified env verifier message label inputs signatures = Inr (p, input, signature)"
    "authenticate h u H P env p message input signature = Inr m" "consumeNonce env m s = (Inr (), s')" "v = vmResult m"
    by (auto simp: Verifier_Verify_def split: sum.splits prod.splits)
  then obtain key base where "acceptable h u H P env p message input signature key base" "m = acceptedMetadata p input key"
    unfolding authenticate_iff by blast
  with 1 consumeNonce_ok [of env p input key s "()" s'] show ?R
    by (auto simp: acceptedMetadata_def metadataOf_def verifiedResult_def)
next
  assume ?R
  then obtain p input signature key base where 1:
    "selectVerified env verifier message label inputs signatures = Inr (p, input, signature)"
    "acceptable h u H P env p message input signature key base" "replayAccepted env p input s s'"
    "v = verifiedResult input key" by blast
  then have "authenticate h u H P env p message input signature = Inr (acceptedMetadata p input key)"
    unfolding authenticate_iff by blast
  with 1 consumeNonce_ok [of env p input key s "()" s']
  show "Verifier_Verify h u H P env verifier message label inputs signatures s = (Inr v, s')"
    by (simp add: Verifier_Verify_def) (simp add: acceptedMetadata_def metadataOf_def verifiedResult_def)
qed

section \<open>Failures\<close>

definition failureIn :: "VerificationFailure set \<Rightarrow> verr + 'a \<Rightarrow> bool" where
  "failureIn F r \<longleftrightarrow> (case r of Inl (VerificationError f c) \<Rightarrow> f \<in> F | _ \<Rightarrow> True)"

lemma failureIn_error [simp]: "f \<in> F \<Longrightarrow> failureIn F (Inl (verificationError f e))"
  by (auto simp: failureIn_def verificationError_def split: goerr.splits)

lemma failureIn_simps [simp]: "failureIn F (Inr x)" "failureIn F (Inl (VPanic m))"
  "failureIn F (Inl (VerificationError f c)) \<longleftrightarrow> f \<in> F"
  by (simp_all add: failureIn_def)

lemma failureIn_bind [intro]:
  "failureIn F r \<Longrightarrow> (\<And>x. failureIn F (f x)) \<Longrightarrow> failureIn F (bindRes r f)"
  by (cases r) (auto simp: failureIn_def)

lemma stage_failures:
  "failureIn {VerificationPolicy} (validateCoverage h p input)"
  "failureIn {VerificationPolicy, VerificationTime} (validateCreated p now input m)"
  "failureIn {VerificationPolicy, VerificationTime} (validateExpires p now input m)"
  "failureIn {VerificationPolicy, VerificationAlgorithm} (validateAlgorithmParameter p input m)"
  "failureIn {VerificationPolicy} (validateKeyID input m)"
  "failureIn {VerificationPolicy} (validateNonce p input m)"
  "failureIn {VerificationPolicy} (validateTag p input m)"
  "failureIn {VerificationKeyResolution} (resolveKey env i)"
  "failureIn {VerificationKey, VerificationAlgorithm} (validateKey p now key a has c)"
  "failureIn {VerificationKey, VerificationCryptographic} (verifyPrimitiveStep H P env key base sig)"
  by (simp_all add: validateCoverage_def validateCreated_def validateExpires_def validateAlgorithmParameter_def
      validateKeyID_def validateNonce_def validateTag_def resolveKey_def validateKey_def verifyPrimitiveStep_def Let_def
      del: verificationError_simps split: sum.split prod.split goerr.split option.split)

lemma failureIn_mono: "failureIn F r \<Longrightarrow> F \<subseteq> G \<Longrightarrow> failureIn G r"
  by (auto simp: failureIn_def split: sum.splits verr.splits)

lemma authenticate_failures:
  "failureIn (- {VerificationSelection, VerificationReplay}) (authenticate h u H P env p message input signature)"
  unfolding authenticate_def validateInput_def
  by (intro failureIn_bind) (rule failureIn_mono, rule stage_failures, simp | simp split: sum.split)+

lemma authenticate_failure:
  "authenticate h u H P env p message input signature = Inl (VerificationError f c) \<Longrightarrow> f \<noteq> VerificationReplay"
  using authenticate_failures [of h u H P env p message input signature] by simp

text \<open>The causes that collaborators can put into the error chain.\<close>

definition wrapped :: "sentinel set \<Rightarrow> goerr set" where
  "wrapped S = (\<lambda>x. Errorf ''%w'' [Sentinel x] []) ` S"

abbreviation resolutionCauses :: "sentinel set" where
  "resolutionCauses \<equiv> {ContextCanceled, ContextDeadlineExceeded, ErrKeyNotFound, ErrKeyResolutionFailure}"

abbreviation replayCauses :: "sentinel set" where
  "replayCauses \<equiv> {ContextCanceled, ContextDeadlineExceeded, ErrReplayDetected, ErrReplayCapacity,
     ErrInvalidReplayRecord, ErrReplayBackendFailure}"

definition redacted :: "verr + 'a \<Rightarrow> bool" where
  "redacted r \<longleftrightarrow>
     (case r of
        Inl (VerificationError f c) \<Rightarrow>
          (f = VerificationKeyResolution \<longrightarrow> c \<in> wrapped resolutionCauses) \<and>
          (f = VerificationReplay \<longrightarrow> c \<in> wrapped replayCauses)
      | _ \<Rightarrow> True)"

lemma redacted_bind [intro]: "redacted r \<Longrightarrow> (\<And>x. redacted (f x)) \<Longrightarrow> redacted (bindRes r f)"
  by (cases r) (auto simp: redacted_def)

lemma redacted_other: "failureIn (- {VerificationKeyResolution, VerificationReplay}) r \<Longrightarrow> redacted r"
  by (auto simp: failureIn_def redacted_def split: sum.splits verr.splits)

lemma redacted_causes:
  "redacted (Inl (verificationError VerificationKeyResolution (safeResolutionCause e)))"
  "redacted (Inl (verificationError VerificationReplay (safeReplayCause e)))"
  by (simp_all add: redacted_def safeResolutionCause_def safeReplayCause_def wrapped_def)

lemma redacted_resolveKey: "redacted (resolveKey env i)"
  using redacted_causes by (simp add: resolveKey_def split: sum.split goerr.split option.split) (simp add: redacted_def)

lemma redacted_authenticate: "redacted (authenticate h u H P env p message input signature)"
  unfolding authenticate_def validateInput_def
  by (intro redacted_bind redacted_resolveKey)
    (rule redacted_other, rule failureIn_mono, rule stage_failures, simp | rule redacted_other, simp split: sum.split)+

lemma redacted_selectVerified: "redacted (selectVerified env verifier message label inputs signatures)"
  by (rule redacted_other) (simp add: selectVerified_def del: verificationError_simps split: option.split prod.split)

lemma redacted_consumeNonce: "redacted (fst (consumeNonce env m s))"
  using redacted_causes(2)
  by (simp add: consumeNonce_def split: sum.split goerr.split option.split prod.split) (simp add: redacted_def)

lemma redacted_Verify:
  "redacted (fst (Verifier_Verify h u H P env verifier message label inputs signatures s))"
proof -
  show ?thesis
    using redacted_selectVerified [of env verifier message label inputs signatures]
      redacted_authenticate [of h u H P env _ message] redacted_consumeNonce [of env _ s]
    by (auto simp: Verifier_Verify_def redacted_def split: sum.splits prod.splits)
      (metis (no_types, lifting) fst_conv old.sum.simps(5) verr.simps(5))+
qed

section \<open>Well-formed profiles\<close>

definition wfVerificationProfile :: "('p, 'd) httpsfv \<Rightarrow> VerificationProfile \<Rightarrow> bool" where
  "wfVerificationProfile h p \<longleftrightarrow>
     VPAlgorithms p \<noteq> {} \<and> (\<forall>a \<in> VPAlgorithms p. supportedAlgorithm a) \<and>
     profileCoverage h (VPRequiredComponents p) \<and> (VPRequiredComponents p = [] \<longrightarrow> VPAllowEmptyCoverage p) \<and>
     (VPCreated p = ParameterForbidden \<and> VPMaxAge p = 0 \<or> VPCreated p \<noteq> ParameterForbidden \<and> 0 < VPMaxAge p) \<and>
     0 \<le> VPClockSkew p \<and> VPMaxAge p + VPClockSkew p \<le> MaxInt \<and>
     (VPNonce p = ParameterForbidden \<and> \<not> VPReplay p \<or>
      VPNonce p \<noteq> ParameterForbidden \<and> VPReplay p \<and> 0 < VPReplayTimeout p) \<and>
     (VPTag p = ParameterForbidden \<longleftrightarrow> VPAllowedTags p = {}) \<and>
     validParameterPolicy (VPCreated p) \<and> validParameterPolicy (VPExpires p) \<and>
     validParameterPolicy (VPAlgorithmParameter p) \<and> validParameterPolicy (VPNonce p) \<and>
     validParameterPolicy (VPTag p) \<and> 0 < VPResolveTimeout p"

lemma NewVerificationProfile_fields:
  assumes "NewVerificationProfile h config = Inr p"
  shows "p = \<lparr>VPAlgorithms = set (VCAllowedAlgorithms config), VPRequiredComponents = VCRequiredComponents config,
      VPAllowEmptyCoverage = VCAllowEmptyCoverage config, VPCreated = VCCreated config,
      VPExpires = VCExpires config, VPAlgorithmParameter = VCAlgorithmParameter config,
      VPNonce = VCNonce config, VPTag = VCTag config, VPAllowedTags = set (VCAllowedTags config),
      VPMaxAge = VCMaxAge config, VPClockSkew = VCClockSkew config,
      VPResolveTimeout = VCResolveTimeout config, VPReplayTimeout = VCReplayTimeout config,
      VPReplay = VCReplay config, VPRequireExternal = VCRequireExternal config\<rparr>"
    "\<forall>a \<in> set (VCAllowedAlgorithms config). supportedAlgorithm a" "profileCoverage h (VCRequiredComponents config)"
proof -
  obtain as cs ts where l: "algorithmSet_loop {} (VCAllowedAlgorithms config) = Some as"
    "profileComponents_loop h {} [] (VCRequiredComponents config) = Some cs"
    "allowedTags_loop {} (VCAllowedTags config) = Some ts"
    using assms by (simp add: NewVerificationProfile_def split: if_split_asm option.split_asm)
  then have e: "as = set (VCAllowedAlgorithms config)" "cs = VCRequiredComponents config" "ts = set (VCAllowedTags config)"
    by (auto simp: algorithmSet_loop_iff profileComponents_loop_iff allowedTags_loop_iff)
  show "\<forall>a \<in> set (VCAllowedAlgorithms config). supportedAlgorithm a" "profileCoverage h (VCRequiredComponents config)"
    using l(1,2) by (auto simp: algorithmSet_loop_iff profileComponents_loop_iff)
  show "p = \<lparr>VPAlgorithms = set (VCAllowedAlgorithms config), VPRequiredComponents = VCRequiredComponents config,
      VPAllowEmptyCoverage = VCAllowEmptyCoverage config, VPCreated = VCCreated config,
      VPExpires = VCExpires config, VPAlgorithmParameter = VCAlgorithmParameter config,
      VPNonce = VCNonce config, VPTag = VCTag config, VPAllowedTags = set (VCAllowedTags config),
      VPMaxAge = VCMaxAge config, VPClockSkew = VCClockSkew config,
      VPResolveTimeout = VCResolveTimeout config, VPReplayTimeout = VCReplayTimeout config,
      VPReplay = VCReplay config, VPRequireExternal = VCRequireExternal config\<rparr>"
    using assms l e by (simp add: NewVerificationProfile_def split: if_split_asm)
qed

lemma NewVerificationProfile_wf:
  assumes "NewVerificationProfile h config = Inr p"
  shows "wfVerificationProfile h p"
proof -
  note f = NewVerificationProfile_fields [OF assms]
  have "VCAllowedAlgorithms config \<noteq> []" "0 < VCResolveTimeout config" "0 \<le> VCClockSkew config"
    "VCMaxAge config + VCClockSkew config \<le> MaxInt"
    "validParameterPolicy (VCCreated config)" "validParameterPolicy (VCExpires config)"
    "validParameterPolicy (VCAlgorithmParameter config)" "validParameterPolicy (VCNonce config)"
    "validParameterPolicy (VCTag config)"
    using assms by (simp_all add: NewVerificationProfile_def split: if_split_asm)
  moreover have "VCCreated config = ParameterForbidden \<and> VCMaxAge config = 0 \<or>
      VCCreated config \<noteq> ParameterForbidden \<and> 0 < VCMaxAge config"
    "VCNonce config = ParameterForbidden \<and> \<not> VCReplay config \<or>
      VCNonce config \<noteq> ParameterForbidden \<and> VCReplay config \<and> 0 < VCReplayTimeout config"
    "VCTag config = ParameterForbidden \<longleftrightarrow> VCAllowedTags config = []"
    "VCRequiredComponents config = [] \<longrightarrow> VCAllowEmptyCoverage config"
    using assms by (simp_all add: NewVerificationProfile_def not_le split: if_split_asm) blast+
  ultimately show ?thesis
    using f(2,3) unfolding f(1) wfVerificationProfile_def by simp
qed

lemma window_no_wrap:
  "wfVerificationProfile h p \<Longrightarrow> i64 (VPMaxAge p + VPClockSkew p) = VPMaxAge p + VPClockSkew p"
  by (auto simp: wfVerificationProfile_def go_int_def MinInt_def intro!: i64_id)

section \<open>Example\<close>

definition exampleVerificationConfig :: VerificationProfileConfig where
  "exampleVerificationConfig =
     \<lparr>VCAllowedAlgorithms = [HMACSHA256], VCRequiredComponents = [\<lparr>CompName = ''@method'', CompParameters = []\<rparr>],
      VCAllowEmptyCoverage = False, VCCreated = ParameterRequired, VCExpires = ParameterOptional,
      VCAlgorithmParameter = ParameterOptional, VCNonce = ParameterRequired, VCTag = ParameterForbidden,
      VCAllowedTags = [], VCMaxAge = 60 * second, VCClockSkew = 5 * second, VCResolveTimeout = second,
      VCReplayTimeout = second, VCNow = True, VCResolver = True, VCReplay = True, VCRequireExternal = False\<rparr>"

definition exampleVerificationProfile :: VerificationProfile where
  "exampleVerificationProfile =
     \<lparr>VPAlgorithms = {HMACSHA256}, VPRequiredComponents = [\<lparr>CompName = ''@method'', CompParameters = []\<rparr>],
      VPAllowEmptyCoverage = False, VPCreated = ParameterRequired, VPExpires = ParameterOptional,
      VPAlgorithmParameter = ParameterOptional, VPNonce = ParameterRequired, VPTag = ParameterForbidden,
      VPAllowedTags = {}, VPMaxAge = 60 * second, VPClockSkew = 5 * second, VPResolveTimeout = second,
      VPReplayTimeout = second, VPReplay = True, VPRequireExternal = False\<rparr>"

lemma exampleVerificationProfile_new:
  "NewVerificationProfile exampleSfv exampleVerificationConfig = Inr exampleVerificationProfile"
  by code_simp

definition exampleResolvedKey :: ResolvedKey where
  "exampleResolvedKey =
     \<lparr>RKAlgorithm = HMACSHA256, RKKey = KHMAC exampleSecret, RKNotBefore = unixTime 900, RKNotAfter = unixTime 2000,
      RKFreshUntil = unixTime 1500, RKRevoked = False\<rparr>"

definition exampleVerifyEnv :: "(ReplayRecord \<Rightarrow> 's \<Rightarrow> unit res \<times> 's) \<Rightarrow> 's verifyEnv" where
  "exampleVerifyEnv consume =
     \<lparr>veContext = background, veInputNow = exampleNow, veKeyNow = exampleNow,
      veResolve = (\<lambda>k. if k = ''k'' then Inr exampleResolvedKey else Inl (Sentinel ErrKeyNotFound)), veResolveErr = None,
      veConsume = consume, veReplayErr = None\<rparr>"

text \<open>A store that remembers every identity.\<close>

definition exampleConsume :: "ReplayRecord \<Rightarrow> (string \<times> string) list \<Rightarrow> unit res \<times> (string \<times> string) list" where
  "exampleConsume r seen =
     (if (RecKeyID r, RecNonce r) \<in> set seen then (Inl (Sentinel ErrReplayDetected), seen)
      else (Inr (), (RecKeyID r, RecNonce r) # seen))"

definition exampleVerify ::
  "'s verifyEnv \<Rightarrow> 's \<Rightarrow> (verr + VerifiedSignature) \<times> 's" where
  "exampleVerify env =
     Verifier_Verify exampleSfv exampleURLs exampleHashes exampleCrypto env (Some exampleVerificationProfile)
       exampleContext ''s'' [SFInput exampleSignedFields] [SFSignature exampleSignedFields]"

definition exampleVerified :: VerifiedSignature where
  "exampleVerified =
     \<lparr>VSLabel = ''s'', VSKeyID = ''k'', VSAlgorithm = HMACSHA256, VSCreated = unixTime 1000, VSExpires = unixTime 1010\<rparr>"

lemma exampleVerify_ok:
  "exampleVerify (exampleVerifyEnv exampleConsume) [] = (Inr exampleVerified, [(''k'', ''n'')])"
  by code_simp

lemma exampleVerify_select:
  "selectVerified (exampleVerifyEnv consume) (Some exampleVerificationProfile) exampleContext ''s''
     [SFInput exampleSignedFields] [SFSignature exampleSignedFields] =
   Inr (exampleVerificationProfile, SFInput exampleSignedFields, SFSignature exampleSignedFields)"
proof -
  have "InLabel (SFInput exampleSignedFields) = ''s''" "SigLabel (SFSignature exampleSignedFields) = ''s''"
    by code_simp+
  then show ?thesis
    unfolding selectVerified_ok
    by (simp add: exampleVerifyEnv_def background_def contextError_def matchingLabelSets_def exampleVerificationProfile_def)
qed

text \<open>The checks before the nonce do not depend on the store, so the example can be replayed with any store.\<close>

lemma exampleVerify_accepts:
  "\<exists>base. acceptable exampleSfv exampleURLs exampleHashes exampleCrypto (exampleVerifyEnv consume)
     exampleVerificationProfile exampleContext (SFInput exampleSignedFields) (SFSignature exampleSignedFields)
     exampleResolvedKey base"
proof -
  obtain key base where a: "acceptable exampleSfv exampleURLs exampleHashes exampleCrypto (exampleVerifyEnv exampleConsume)
     exampleVerificationProfile exampleContext (SFInput exampleSignedFields) (SFSignature exampleSignedFields) key base"
    using exampleVerify_ok [unfolded exampleVerify_def verify_iff] exampleVerify_select [of exampleConsume] by auto
  then have "key = exampleResolvedKey"
    by (auto simp: acceptable_def exampleVerifyEnv_def split: if_splits)
  with a show ?thesis by (auto simp: acceptable_def exampleVerifyEnv_def)
qed

lemma exampleRecord:
  "replayRecordOf exampleVerificationProfile (SFInput exampleSignedFields) =
     \<lparr>RecKeyID = ''k'', RecNonce = ''n'', RecExpiresAt = unixTime 1015\<rparr>"
  "verifiedResult (SFInput exampleSignedFields) exampleResolvedKey = exampleVerified"
  by code_simp+

lemma exampleVerify_any:
  "exampleVerify (exampleVerifyEnv consume) s =
   (case consume \<lparr>RecKeyID = ''k'', RecNonce = ''n'', RecExpiresAt = unixTime 1015\<rparr> s of
      (Inl (GoPanic m), s') \<Rightarrow> (Inl (VPanic m), s')
    | (Inl err, s') \<Rightarrow> (Inl (verificationError VerificationReplay (safeReplayCause err)), s')
    | (Inr _, s') \<Rightarrow> (Inr exampleVerified, s'))"
proof -
  let ?m = "acceptedMetadata exampleVerificationProfile (SFInput exampleSignedFields) exampleResolvedKey"
  have a: "authenticate exampleSfv exampleURLs exampleHashes exampleCrypto (exampleVerifyEnv consume)
      exampleVerificationProfile exampleContext (SFInput exampleSignedFields) (SFSignature exampleSignedFields) = Inr ?m"
    using exampleVerify_accepts [of consume] unfolding authenticate_iff by blast
  have n: "fst (stringParameter (SFInput exampleSignedFields) ''nonce'') \<noteq> []"
    using exampleRecord(1) by (simp add: replayRecordOf_def)
  have v: "vmResult ?m = exampleVerified"
    using exampleRecord(2) by (simp add: acceptedMetadata_def metadataOf_def verifiedResult_def)
  have e: "veConsume (exampleVerifyEnv consume) = consume" "veReplayErr (exampleVerifyEnv consume) = None"
    by (simp_all add: exampleVerifyEnv_def)
  show ?thesis
    using n by (cases "consume \<lparr>RecKeyID = ''k'', RecNonce = ''n'', RecExpiresAt = unixTime 1015\<rparr> s")
      (simp add: exampleVerify_def Verifier_Verify_def exampleVerify_select a consumeNonce_eq e v exampleRecord(1)
        split: sum.split goerr.split)
qed

lemma exampleVerify_replayed:
  "exampleVerify (exampleVerifyEnv exampleConsume) [(''k'', ''n'')] =
   (Inl (VerificationError VerificationReplay (Errorf ''%w'' [Sentinel ErrReplayDetected] [])), [(''k'', ''n'')])"
  by (simp add: exampleVerify_any exampleConsume_def safeReplayCause_def)

lemmas exampleProfile_wf = NewVerificationProfile_wf [OF exampleVerificationProfile_new]

lemma exampleProfile_window:
  "VPMaxAge exampleVerificationProfile + VPClockSkew exampleVerificationProfile < MaxInt"
  by (simp add: exampleVerificationProfile_def second_def MaxInt_def)

section \<open>Properties\<close>

text \<open>C2. Verification succeeds exactly when it should: the context is live, the label sets of the two fields
  match, the selected signature's metadata meets the profile's policy and time window, its base is
  constructible, the resolved key is usable, allowed and consistent with a signed algorithm, the
  primitive accepts, and a present nonce is accepted by the replay store within its deadline; the result
  then reports exactly the selected label, key identifier, resolved algorithm and times.\<close>

theorem verify_succeeds_iff:
  "Verifier_Verify h u H P env verifier message label inputs signatures s = (Inr v, s') \<longleftrightarrow>
   (\<exists>p input signature key base.
      selectVerified env verifier message label inputs signatures = Inr (p, input, signature) \<and>
      acceptable h u H P env p message input signature key base \<and>
      replayAccepted env p input s s' \<and> v = verifiedResult input key)"
  by (rule verify_iff)





text \<open>C5. The nonce is consumed last: the replay store is called at most once, and only for a signature that
  has passed every other check, the cryptographic one included, with the record of its signed key
  identifier, nonce and retention. Every other failure leaves the store's state as it was.\<close>

theorem nonce_consumed_last:
  assumes "Verifier_Verify h u H P env (Some p) message label inputs signatures s = (r, s')"
  shows "s' = s \<and> (\<forall>f c. r = Inl (VerificationError f c) \<longrightarrow> f \<noteq> VerificationReplay) \<or>
    (\<exists>input signature key base.
       selectVerified env (Some p) message label inputs signatures = Inr (p, input, signature) \<and>
       acceptable h u H P env p message input signature key base \<and>
       RecNonce (replayRecordOf p input) \<noteq> [] \<and> s' = snd (veConsume env (replayRecordOf p input) s))"
proof (cases "selectVerified env (Some p) message label inputs signatures")
  case (Inl err)
  have "verificationError VerificationSelection e = VerificationError f c \<Longrightarrow> f \<noteq> VerificationReplay"
    "verificationError VerificationPolicy e = VerificationError f c \<Longrightarrow> f \<noteq> VerificationReplay" for e f c
    using verificationError_cases by fastforce+
  then have "err = VerificationError f c \<Longrightarrow> f \<noteq> VerificationReplay" for f c
    using Inl unfolding selectVerified_def by (auto split: option.splits if_splits)
  with Inl assms show ?thesis by (auto simp: Verifier_Verify_def)
next
  case (Inr t)
  then obtain input signature where sel:
    "selectVerified env (Some p) message label inputs signatures = Inr (p, input, signature)"
    by (cases t) (auto simp: selectVerified_ok)
  show ?thesis
  proof (cases "authenticate h u H P env p message input signature")
    case (Inl err)
    have "err = VerificationError f c \<Longrightarrow> f \<noteq> VerificationReplay" for f c
      using Inl authenticate_failure [of h u H P env p message input signature] by simp
    with Inl sel assms show ?thesis by (auto simp: Verifier_Verify_def)
  next
    case (Inr m)
    then obtain key base where a: "acceptable h u H P env p message input signature key base" "m = acceptedMetadata p input key"
      unfolding authenticate_iff by blast
    show ?thesis
    proof (cases "fst (stringParameter input ''nonce'') = []")
      case True
      then show ?thesis using assms sel Inr a by (auto simp: Verifier_Verify_def consumeNonce_eq)
    next
      case False
      then have "s' = snd (veConsume env (replayRecordOf p input) s)"
        using assms sel Inr a by (auto simp: Verifier_Verify_def consumeNonce_eq split: sum.splits prod.splits)
      with sel a False show ?thesis by (auto simp: replayRecordOf_def)
    qed
  qed
qed

theorem nonce_consumed_last_witness:
  "exampleVerify (exampleVerifyEnv exampleConsume) [(''k'', ''n'')] =
     (Inl (VerificationError VerificationReplay (Errorf ''%w'' [Sentinel ErrReplayDetected] [])), [(''k'', ''n'')]) \<and>
   (\<exists>key base. acceptable exampleSfv exampleURLs exampleHashes exampleCrypto (exampleVerifyEnv exampleConsume)
      exampleVerificationProfile exampleContext (SFInput exampleSignedFields) (SFSignature exampleSignedFields) key base)"
  using nonce_consumed_last [OF exampleVerify_replayed [unfolded exampleVerify_def]] exampleVerify_replayed
    exampleVerify_select [of exampleConsume] by auto

text \<open>C8. Collaborators cannot put their diagnostics into a verification error: the cause of a key-resolution
  failure is one of four fixed sentinels and the cause of a replay failure one of six, whatever the resolver
  and the store returned.\<close>

theorem verify_causes_redacted:
  assumes "Verifier_Verify h u H P env verifier message label inputs signatures s = (Inl (VerificationError f c), s')"
  shows "(f = VerificationKeyResolution \<longrightarrow> c \<in> wrapped resolutionCauses) \<and>
    (f = VerificationReplay \<longrightarrow> c \<in> wrapped replayCauses)"
  using redacted_Verify [of h u H P env verifier message label inputs signatures s] assms by (simp add: redacted_def)

theorem verify_causes_redacted_witness:
  "exampleVerify (exampleVerifyEnv (\<lambda>r s. (Inl (NewErr ''connection to 10.0.0.1 refused''), s))) () =
     (Inl (VerificationError VerificationReplay (Errorf ''%w'' [Sentinel ErrReplayBackendFailure] [])), ()) \<and>
   Errorf ''%w'' [Sentinel ErrReplayBackendFailure] [] \<in> wrapped replayCauses"
proof -
  have v: "exampleVerify (exampleVerifyEnv (\<lambda>r s. (Inl (NewErr ''connection to 10.0.0.1 refused''), s))) () =
     (Inl (VerificationError VerificationReplay (Errorf ''%w'' [Sentinel ErrReplayBackendFailure] [])), ())"
    by (simp add: exampleVerify_any safeReplayCause_def)
  from verify_causes_redacted [OF v [unfolded exampleVerify_def]] v show ?thesis by blast
qed

text \<open>A verification profile that is constructed is complete and consistent: supported algorithms, pairwise
  different valid required components, an age limit exactly when creation times are admitted and never
  overflowing together with the skew, a replay store with a deadline exactly when nonces are admitted, tags
  exactly when tags are admitted; and it is the configuration's own data.\<close>

theorem verification_profile_wellformed:
  assumes "NewVerificationProfile h config = Inr p"
  shows "wfVerificationProfile h p \<and> VPAlgorithms p = set (VCAllowedAlgorithms config) \<and>
    VPRequiredComponents p = VCRequiredComponents config \<and> VPAllowedTags p = set (VCAllowedTags config)"
  using NewVerificationProfile_wf [OF assms] NewVerificationProfile_fields(1) [OF assms] by simp

theorem verification_profile_wellformed_witness:
  "NewVerificationProfile exampleSfv exampleVerificationConfig = Inr exampleVerificationProfile \<and>
   wfVerificationProfile exampleSfv exampleVerificationProfile"
  using verification_profile_wellformed [OF exampleVerificationProfile_new] exampleVerificationProfile_new by blast

end
