(* ===== verification/HttpIntegration.thy ===== *)
theory HttpIntegration
  imports Verifier
begin

text \<open>
  \<^verbatim>\<open>http_integration.go\<close>: the adapters that sign outgoing requests and buffered responses and verify
  incoming requests and responses. Callbacks, transports and handlers are parameters: a callback is a
  function of what it is given, the wrapped transport a result, a handler the sequence of operations it
  performs on its writer. A delegating adapter returns what it delegates; whether it closed a body on
  the way is part of the result.
\<close>

section \<open>Errors\<close>

text \<open>\<open>VerificationFailed\<close> is \<^verbatim>\<open>fmt.Errorf("%w: %w", ErrHTTPIntegrationVerification, cause)\<close>.\<close>

datatype ierr =
    GoError goerr
  | Verification verr
  | VerificationFailed ierr

text \<open>An error of a callee replaced by a fixed one; a panic passes through.\<close>

definition classified :: "goerr \<Rightarrow> 'a res \<Rightarrow> 'a res" where
  "classified failure r = (case r of Inl err \<Rightarrow> Inl (propagatePanic err failure) | Inr x \<Rightarrow> Inr x)"

lemma classified_Inr [simp]: "classified f r = Inr x \<longleftrightarrow> r = Inr x"
  by (auto simp: classified_def split: sum.splits)

lemma classified_Inl:
  "classified (Sentinel x) r = Inl e \<Longrightarrow> e = Sentinel x \<or> isPanic (Inl e :: unit res)"
  by (auto simp: classified_def propagatePanic_def split: sum.splits goerr.splits)

section \<open>Header maps\<close>

text \<open>\<^verbatim>\<open>Header.Values\<close>, \<^verbatim>\<open>Header.Set\<close> and \<^verbatim>\<open>delete\<close> on a map kept as an association list.\<close>

definition headerValues :: "header \<Rightarrow> string \<Rightarrow> string list" where
  "headerValues header key = (case map_of header (CanonicalHeaderKey key) of None \<Rightarrow> [] | Some vs \<Rightarrow> vs)"

definition headerPut :: "header \<Rightarrow> string \<Rightarrow> string list \<Rightarrow> header" where
  "headerPut header key vs = filter (\<lambda>(k, _). k \<noteq> key) header @ [(key, vs)]"

definition headerSet :: "header \<Rightarrow> string \<Rightarrow> string \<Rightarrow> header" where
  "headerSet header key v = headerPut header (CanonicalHeaderKey key) [v]"

definition protectedHTTPFieldNames :: "string list" where
  "protectedHTTPFieldNames = [''Signature-Input'', ''Signature'', ''Accept-Signature'', ''Content-Digest'']"

fun protectedFieldValues_loop :: "string \<Rightarrow> string list \<Rightarrow> bool \<Rightarrow> header \<Rightarrow> (string list \<times> bool) res" where
  "protectedFieldValues_loop name vs present [] = Inr (vs, present)"
| "protectedFieldValues_loop name vs present ((key, current) # rest) =
     (if \<not> EqualFold key name then protectedFieldValues_loop name vs present rest
      else if present then Inl (Sentinel ErrAmbiguousProtectedField)
      else protectedFieldValues_loop name ([] @ current) True rest)"

definition protectedFieldValues :: "header \<Rightarrow> string \<Rightarrow> (string list \<times> bool) res" where
  "protectedFieldValues header name = protectedFieldValues_loop name [] False header"

definition deleteHeaderField :: "header \<Rightarrow> string \<Rightarrow> header" where
  "deleteHeaderField header name = filter (\<lambda>(key, _). \<not> EqualFold key name) header"

fun normalizeHeader_loop :: "header \<Rightarrow> header \<Rightarrow> string list \<Rightarrow> header res" where
  "normalizeHeader_loop header normalized [] = Inr normalized"
| "normalizeHeader_loop header normalized (name # names) =
     (case protectedFieldValues header name of
        Inl err \<Rightarrow> Inl err
      | Inr (vs, present) \<Rightarrow>
          let cleared = deleteHeaderField normalized name in
          normalizeHeader_loop header (if present then headerPut cleared (CanonicalHeaderKey name) vs else cleared) names)"

definition normalizeProtectedHeader :: "header \<Rightarrow> header res" where
  "normalizeProtectedHeader header = normalizeHeader_loop header header protectedHTTPFieldNames"

definition normalizeProtectedRequest :: "Request \<Rightarrow> Request res" where
  "normalizeProtectedRequest request =
     (case normalizeProtectedHeader (ReqHeader request) of
        Inl err \<Rightarrow> Inl err
      | Inr header \<Rightarrow>
          (case normalizeProtectedHeader (ReqTrailer request) of
             Inl err \<Rightarrow> Inl err
           | Inr trailer \<Rightarrow> Inr (request\<lparr>ReqHeader := header, ReqTrailer := trailer\<rparr>)))"

definition snapshotResponseRequest :: "Request option \<Rightarrow> Request res" where
  "snapshotResponseRequest request =
     (case request of
        None \<Rightarrow> Inl (Sentinel ErrInvalidHTTPIntegration)
      | Some r \<Rightarrow> if ReqURL r = None then Inl (Sentinel ErrInvalidHTTPIntegration) else normalizeProtectedRequest r)"

definition cloneRequestSnapshot :: "Request \<Rightarrow> Request" where
  "cloneRequestSnapshot request = request\<lparr>ReqBody := NilBody, ReqTLS := False\<rparr>"

definition responseCallbackSnapshot :: "Response \<Rightarrow> Request \<Rightarrow> Response" where
  "responseCallbackSnapshot response request =
     response\<lparr>RespBody := NilBody, RespRequest := Some (cloneRequestSnapshot request)\<rparr>"

section \<open>Coverage of the content digest\<close>

fun componentParameterTrue_loop :: "Parameter list \<Rightarrow> string \<Rightarrow> bool" where
  "componentParameterTrue_loop [] name = False"
| "componentParameterTrue_loop (p # ps) name =
     (if ParName p = name then (case ParValue p of VBool b \<Rightarrow> b | _ \<Rightarrow> False) else componentParameterTrue_loop ps name)"

definition componentParameterTrue :: "ComponentIdentifier \<Rightarrow> string \<Rightarrow> bool" where
  "componentParameterTrue component name = componentParameterTrue_loop (CompParameters component) name"

fun responseDigestCoverage_loop ::
  "bool \<Rightarrow> bool \<Rightarrow> DigestAlgorithm set \<Rightarrow> ComponentIdentifier list \<Rightarrow> bool \<times> bool \<times> DigestAlgorithm set" where
  "responseDigestCoverage_loop covered wholeField keyed [] = (covered, wholeField, keyed)"
| "responseDigestCoverage_loop covered wholeField keyed (c # cs) =
     (if CompName c \<noteq> ''content-digest'' \<or> componentParameterTrue c ''req'' \<or> componentParameterTrue c ''tr''
      then responseDigestCoverage_loop covered wholeField keyed cs
      else case ComponentIdentifier_Parameter c ''key'' of
             None \<Rightarrow> responseDigestCoverage_loop True True keyed cs
           | Some (VString algorithm) \<Rightarrow> responseDigestCoverage_loop True wholeField (insert algorithm keyed) cs
           | Some _ \<Rightarrow> responseDigestCoverage_loop True wholeField keyed cs)"

definition responseContentDigestCoverage :: "SignatureInput \<Rightarrow> bool \<times> bool \<times> DigestAlgorithm set" where
  "responseContentDigestCoverage input = responseDigestCoverage_loop False False {} (InComponents input)"

definition signatureInputCoversResponseContentDigest :: "SignatureInput \<Rightarrow> bool" where
  "signatureInputCoversResponseContentDigest input = fst (responseContentDigestCoverage input)"

definition signatureInputAuthenticatesResponseContentDigest ::
  "SignatureInput \<Rightarrow> DigestAlgorithm list \<Rightarrow> bool \<times> bool" where
  "signatureInputAuthenticatesResponseContentDigest input algorithms =
     (case responseContentDigestCoverage input of
        (covered, wholeField, keyed) \<Rightarrow>
          if \<not> covered then (False, False)
          else if wholeField then (True, True)
          else if list_all (\<lambda>algorithm. algorithm \<in> keyed) algorithms then (True, True)
          else (True, False))"

definition responseDigestBufferingConfigured :: "bool \<Rightarrow> DigestAlgorithm list \<Rightarrow> int \<Rightarrow> bool" where
  "responseDigestBufferingConfigured verifiesContent algorithms maxBufferedBytes =
     (if \<not> verifiesContent then True else algorithms \<noteq> [] \<and> maxBufferedBytes > 0)"

definition signingProfileCoversComponent :: "('p, 'd) httpsfv \<Rightarrow> SigningProfile \<Rightarrow> ComponentIdentifier \<Rightarrow> bool" where
  "signingProfileCoversComponent h profile want =
     (case componentComparisonKey h want of
        Inl _ \<Rightarrow> False
      | Inr wantSerialized \<Rightarrow>
          list_ex (\<lambda>component. case componentComparisonKey h component of
                     Inl _ \<Rightarrow> False | Inr serialized \<Rightarrow> serialized = wantSerialized) (SPComponents profile))"

section \<open>Existing signatures\<close>

abbreviation (input) ExistingSignaturesReject :: nat where "ExistingSignaturesReject \<equiv> 1"
abbreviation (input) ExistingSignaturesAppend :: nat where "ExistingSignaturesAppend \<equiv> 2"

fun pairFields_loop ::
  "(string \<rightharpoonup> SignatureValue) \<Rightarrow> SignedFields list \<Rightarrow> SignatureInput list \<Rightarrow> SignedFields list res" where
  "pairFields_loop byLabel pairs [] = Inr pairs"
| "pairFields_loop byLabel pairs (input # inputs) =
     (case byLabel (InLabel input) of
        None \<Rightarrow> Inl (Sentinel ErrInvalidSignedFields)
      | Some signature \<Rightarrow> pairFields_loop byLabel (pairs @ [\<lparr>SFInput = input, SFSignature = signature\<rparr>]) inputs)"

definition appendSignedFields ::
  "SignatureInput list \<Rightarrow> SignatureValue list \<Rightarrow> SignedFields \<Rightarrow> (SignatureInput list \<times> SignatureValue list) res" where
  "appendSignedFields inputs signatures sf =
     (let byLabel = foldl (\<lambda>m signature. m(SigLabel signature \<mapsto> signature)) Map.empty signatures in
      case pairFields_loop byLabel [] inputs of
        Inl err \<Rightarrow> Inl err
      | Inr pairs \<Rightarrow> CombineSignedFields (pairs @ [sf]))"

text \<open>The parsing of fields already present, shared by the request and the response adapter; \<open>None\<close> when absent.\<close>

definition existingFields ::
  "('p, 'd) httpsfv \<Rightarrow> nat \<Rightarrow> header \<Rightarrow> (SignatureInput list \<times> SignatureValue list) option res" where
  "existingFields h existing header =
     (let inputValues = headerValues header ''Signature-Input''; signatureValues = headerValues header ''Signature'';
          hasExisting = inputValues \<noteq> [] \<or> signatureValues \<noteq> []
      in if hasExisting \<and> existing = ExistingSignaturesReject then Inl (Sentinel ErrExistingSignatures)
         else if \<not> hasExisting then Inr None
         else
           bindRes (classified (Sentinel ErrExistingSignatures) (ParseSignatureInputs h inputValues)) (\<lambda>inputs.
           bindRes (classified (Sentinel ErrExistingSignatures) (ParseSignatures h signatureValues)) (\<lambda>signatures.
             if \<not> matchingLabelSets inputs signatures then Inl (Sentinel ErrExistingSignatures)
             else Inr (Some (inputs, signatures)))))"

text \<open>Writing the new pair into the header, after or instead of what is there.\<close>

definition setSignatureFields ::
  "('p, 'd) httpsfv \<Rightarrow> (SignatureInput list \<times> SignatureValue list) option \<Rightarrow> SignedFields \<Rightarrow> header \<Rightarrow> header res" where
  "setSignatureFields h existing sf header =
     (case existing of
        None \<Rightarrow>
          bindRes (SignatureInputField h sf) (\<lambda>i.
          bindRes (SignatureField h sf) (\<lambda>s.
          Inr (headerSet (headerSet header ''Signature-Input'' i) ''Signature'' s)))
      | Some (inputs, signatures) \<Rightarrow>
          (case appendSignedFields inputs signatures sf of
             Inl err \<Rightarrow> Inl (Sentinel ErrExistingSignatures)
           | Inr (combinedInputs, combinedSignatures) \<Rightarrow>
               bindRes (SignatureInputs_String h combinedInputs) (\<lambda>i.
               bindRes (Signatures_String h combinedSignatures) (\<lambda>s.
               Inr (headerSet (headerSet header ''Signature-Input'' i) ''Signature'' s)))))"

section \<open>Signing outgoing requests\<close>

record SigningRoundTripperConfig =
  SRTransport :: bool
  SRSigner :: "SigningProfile option option"
  SRLabel :: string
  SRExisting :: nat
  SROptions :: "(Request \<Rightarrow> string res) option"
  SRExternalContext :: "(Request \<Rightarrow> ExternalRequestContext option res) option"

record SigningRoundTripper =
  rtSigner :: "SigningProfile option"
  rtLabel :: string
  rtExisting :: nat
  rtOptions :: "Request \<Rightarrow> string res"
  rtExternalContext :: "(Request \<Rightarrow> ExternalRequestContext option res) option"

definition NewSigningRoundTripper :: "SigningRoundTripperConfig \<Rightarrow> SigningRoundTripper res" where
  "NewSigningRoundTripper config =
     (case (SRSigner config, SROptions config) of
        (Some signer, Some options) \<Rightarrow>
          if \<not> SRTransport config \<or> \<not> validSignatureLabel (SRLabel config) \<or>
             SRExisting config < ExistingSignaturesReject \<or> SRExisting config > ExistingSignaturesAppend
          then Inl (Sentinel ErrInvalidHTTPIntegration)
          else Inr \<lparr>rtSigner = signer, rtLabel = SRLabel config, rtExisting = SRExisting config,
                    rtOptions = options, rtExternalContext = SRExternalContext config\<rparr>
      | _ \<Rightarrow> Inl (Sentinel ErrInvalidHTTPIntegration))"

text \<open>The trusted external context of a message, when the adapter has a callback for it.\<close>

definition externalContext ::
  "('r \<Rightarrow> ExternalRequestContext option res) option \<Rightarrow> 'r \<Rightarrow> goerr \<Rightarrow> ExternalRequestContext option res" where
  "externalContext callback request failure =
     (case callback of
        None \<Rightarrow> Inr None
      | Some f \<Rightarrow> classified failure (f request))"

definition requestMessage :: "Request \<Rightarrow> ExternalRequestContext option \<Rightarrow> MessageContext" where
  "requestMessage request external =
     \<lparr>CtxRequest = Some request, CtxResponse = None, CtxRelatedRequest = None, CtxExternalRequest = external,
      CtxStructuredFields = Map.empty, CtxResponseTransport = 0, CtxMaxSignatureBaseBytes = 0\<rparr>"

definition responseMessage :: "Response \<Rightarrow> Request \<Rightarrow> ExternalRequestContext option \<Rightarrow> nat \<Rightarrow> MessageContext" where
  "responseMessage response related external mode =
     \<lparr>CtxRequest = None, CtxResponse = Some response, CtxRelatedRequest = Some related, CtxExternalRequest = external,
      CtxStructuredFields = Map.empty, CtxResponseTransport = mode, CtxMaxSignatureBaseBytes = 0\<rparr>"

text \<open>What is signed and delegated, or the error.\<close>

definition signRequest ::
  "('p, 'd) httpsfv \<Rightarrow> urls \<Rightarrow> hashes \<Rightarrow> crypto \<Rightarrow> signEnv \<Rightarrow> SigningRoundTripper \<Rightarrow> Request \<Rightarrow> Request res" where
  "signRequest h u H P env transport request =
     bindRes (normalizeProtectedRequest request) (\<lambda>clone.
     bindRes (existingFields h (rtExisting transport) (ReqHeader clone)) (\<lambda>existing.
     bindRes (classified (Sentinel ErrHTTPIntegrationSigning)
                (rtOptions transport request)) (\<lambda>given.
     bindRes (externalContext (rtExternalContext transport) request (Sentinel ErrHTTPIntegrationSigning)) (\<lambda>external.
     bindRes (classified (Sentinel ErrHTTPIntegrationSigning)
                (Signer_Sign h u H P env (rtSigner transport) (requestMessage clone external) (rtLabel transport) given)) (\<lambda>sf.
     bindRes (setSignatureFields h existing sf (ReqHeader clone)) (\<lambda>header.
     Inr (clone\<lparr>ReqHeader := header\<rparr>)))))))"

text \<open>\<open>Refused e c\<close>: the error, and whether the request's body was closed. \<open>Delegated r\<close>: the tail call of the
  wrapped transport with \<open>r\<close>.\<close>

datatype delegation = Refused goerr bool | Delegated Request

definition signingRoundTripError :: "Request option \<Rightarrow> goerr \<Rightarrow> delegation" where
  "signingRoundTripError request err =
     Refused err (case request of None \<Rightarrow> False | Some r \<Rightarrow> ReqBody r \<noteq> NilBody)"

definition SigningRoundTripper_RoundTrip ::
  "('p, 'd) httpsfv \<Rightarrow> urls \<Rightarrow> hashes \<Rightarrow> crypto \<Rightarrow> signEnv \<Rightarrow> SigningRoundTripper option \<Rightarrow> Request option \<Rightarrow> delegation" where
  "SigningRoundTripper_RoundTrip h u H P env transport request =
     (case (transport, request) of
        (Some t, Some r) \<Rightarrow>
          (case signRequest h u H P env t r of
             Inl (GoPanic m) \<Rightarrow> Refused (GoPanic m) False
           | Inl err \<Rightarrow> signingRoundTripError request err
           | Inr clone \<Rightarrow> Delegated clone)
      | _ \<Rightarrow> Refused (Sentinel ErrInvalidHTTPIntegration) False)"

section \<open>Verifying incoming requests\<close>

record RequestVerificationMiddlewareConfig =
  RVVerifier :: "VerificationProfile option option"
  RVSelectLabel :: "(Request \<Rightarrow> SignatureInput list \<Rightarrow> SignatureValue list \<Rightarrow> string res) option"
  RVExternalContext :: "(Request \<Rightarrow> ExternalRequestContext option res) option"
  RVMapError :: bool

record requestVerification =
  rvVerifier :: "VerificationProfile option"
  rvSelectLabel :: "Request \<Rightarrow> SignatureInput list \<Rightarrow> SignatureValue list \<Rightarrow> string res"
  rvExternalContext :: "(Request \<Rightarrow> ExternalRequestContext option res) option"

definition NewRequestVerificationMiddleware :: "RequestVerificationMiddlewareConfig \<Rightarrow> requestVerification res" where
  "NewRequestVerificationMiddleware config =
     (case (RVVerifier config, RVSelectLabel config) of
        (Some verifier, Some select) \<Rightarrow>
          if \<not> RVMapError config then Inl (Sentinel ErrInvalidHTTPIntegration)
          else Inr \<lparr>rvVerifier = verifier, rvSelectLabel = select, rvExternalContext = RVExternalContext config\<rparr>
      | _ \<Rightarrow> Inl (Sentinel ErrInvalidHTTPIntegration))"

definition liftErr :: "'a res \<Rightarrow> ierr + 'a" where
  "liftErr r = (case r of Inl err \<Rightarrow> Inl (GoError err) | Inr x \<Rightarrow> Inr x)"

definition selectedLabel :: "string res \<Rightarrow> string res" where
  "selectedLabel r =
     (case r of
        Inl err \<Rightarrow> Inl (propagatePanic err (Sentinel ErrInvalidHTTPIntegration))
      | Inr label \<Rightarrow> if \<not> validSignatureLabel label then Inl (Sentinel ErrInvalidHTTPIntegration) else Inr label)"

text \<open>\<open>Inl\<close> is what \<^verbatim>\<open>MapError\<close> receives; \<open>Inr\<close> the request the next handler serves and the metadata in its context.
  The replay store's state is threaded through.\<close>

definition verifyRequestInputs ::
  "('p, 'd) httpsfv \<Rightarrow> requestVerification \<Rightarrow> Request \<Rightarrow>
   ierr + (Request \<times> MessageContext \<times> string \<times> SignatureInput list \<times> SignatureValue list)" where
  "verifyRequestInputs h m request =
     bindRes (liftErr (normalizeProtectedRequest request)) (\<lambda>verifiedRequest.
     bindRes (liftErr (ParseSignatureInputs h (headerValues (ReqHeader verifiedRequest) ''Signature-Input''))) (\<lambda>inputs.
     bindRes (liftErr (ParseSignatures h (headerValues (ReqHeader verifiedRequest) ''Signature''))) (\<lambda>signatures.
     bindRes (liftErr (selectedLabel (rvSelectLabel m (cloneRequestSnapshot verifiedRequest) inputs signatures))) (\<lambda>label.
     bindRes (liftErr (externalContext (rvExternalContext m) (cloneRequestSnapshot verifiedRequest)
                         (Sentinel ErrInvalidHTTPIntegration))) (\<lambda>external.
     Inr (verifiedRequest, requestMessage verifiedRequest external, label, inputs, signatures))))))"

definition RequestVerification_ServeHTTP ::
  "('p, 'd) httpsfv \<Rightarrow> urls \<Rightarrow> hashes \<Rightarrow> crypto \<Rightarrow> 's verifyEnv \<Rightarrow> requestVerification \<Rightarrow> bool \<Rightarrow> Request option \<Rightarrow> 's \<Rightarrow>
   (ierr + (Request \<times> VerifiedSignature)) \<times> 's" where
  "RequestVerification_ServeHTTP h u H P env m hasNext request s =
     (case request of
        None \<Rightarrow> (Inl (GoError (Sentinel ErrInvalidHTTPIntegration)), s)
      | Some r \<Rightarrow>
          if \<not> hasNext then (Inl (GoError (Sentinel ErrInvalidHTTPIntegration)), s)
          else
            case verifyRequestInputs h m r of
              Inl err \<Rightarrow> (Inl err, s)
            | Inr (verifiedRequest, message, label, inputs, signatures) \<Rightarrow>
                (case Verifier_Verify h u H P env (rvVerifier m) message label inputs signatures s of
                   (Inl err, s') \<Rightarrow> (Inl (Verification err), s')
                 | (Inr verified, s') \<Rightarrow> (Inr (verifiedRequest, verified), s')))"

section \<open>Laws of protected fields\<close>

text \<open>The entries of a header map whose key is the name up to case.\<close>

definition matching :: "string \<Rightarrow> header \<Rightarrow> header" where
  "matching name header = filter (\<lambda>(key, _). EqualFold key name) header"

lemma matching_simps [simp]:
  "matching name [] = []"
  "matching name ((key, vs) # header) = (if EqualFold key name then (key, vs) # matching name header else matching name header)"
  "matching name (a @ b) = matching name a @ matching name b"
  by (simp_all add: matching_def)

lemma protectedFieldValues_loop_eq:
  "protectedFieldValues_loop name vs present header =
   (case matching name header of
      [] \<Rightarrow> Inr (vs, present)
    | (key, current) # rest \<Rightarrow>
        if present \<or> rest \<noteq> [] then Inl (Sentinel ErrAmbiguousProtectedField) else Inr (current, True))"
  by (induction name vs present header rule: protectedFieldValues_loop.induct)
    (auto split: list.splits)

lemma protectedFieldValues_eq:
  "protectedFieldValues header name =
   (case matching name header of
      [] \<Rightarrow> Inr ([], False)
    | [(key, current)] \<Rightarrow> Inr (current, True)
    | _ \<Rightarrow> Inl (Sentinel ErrAmbiguousProtectedField))"
  by (auto simp: protectedFieldValues_def protectedFieldValues_loop_eq split: list.splits)

lemma headerValues_loop_eq:
  "headerValues_loop name found header =
   (case matching name header of
      [] \<Rightarrow> Inr (case found of None \<Rightarrow> [] | Some vs \<Rightarrow> vs)
    | (key, current) # rest \<Rightarrow>
        if found \<noteq> None \<or> rest \<noteq> [] then Inl (NewErr ''covered field has case-colliding map keys'') else Inr current)"
  by (induction name found header rule: headerValues_loop.induct) (auto split: list.splits)

lemma EqualFold_refl [simp]: "EqualFold s s"
  by (simp add: EqualFold_def)

lemma matching_cong: "EqualFold a b \<Longrightarrow> matching a header = matching b header"
  by (simp add: matching_def EqualFold_def)

lemma map_of_matching: "EqualFold key name \<Longrightarrow> map_of (matching name header) key = map_of header key"
  by (induction header) (auto simp: matching_def)

lemma matching_delete:
  "matching name (deleteHeaderField header other) = (if EqualFold name other then [] else matching name header)"
  by (induction header) (auto simp: matching_def deleteHeaderField_def EqualFold_def)

lemma matching_put:
  "matching name (headerPut header key vs) =
   filter (\<lambda>(k, _). k \<noteq> key) (matching name header) @ (if EqualFold key name then [(key, vs)] else [])"
  by (auto simp: matching_def headerPut_def intro: filter_cong)

lemma matching_put_other:
  "\<not> EqualFold key name \<Longrightarrow> matching name (headerPut header key vs) = matching name header"
  by (subst matching_put) (auto simp: matching_def intro!: filter_cong)

definition unambiguous :: "header \<Rightarrow> string \<Rightarrow> bool" where
  "unambiguous header name \<longleftrightarrow> length (matching name header) \<le> 1"

definition canonicalEntries :: "header \<Rightarrow> string \<Rightarrow> header" where
  "canonicalEntries header name = map (\<lambda>(_, vs). (name, vs)) (matching name header)"

lemma protectedFieldValues_ok:
  "(\<exists>r. protectedFieldValues header name = Inr r) \<longleftrightarrow> unambiguous header name"
  by (auto simp: protectedFieldValues_eq unambiguous_def split: list.splits)

lemma normalizeStep:
  fixes norm :: header
  assumes "protectedFieldValues header name = Inr (vs, present)" "CanonicalHeaderKey name = name"
  defines "step \<equiv> (if present then headerPut (deleteHeaderField norm name) (CanonicalHeaderKey name) vs
    else deleteHeaderField norm name)"
  shows "matching name step = canonicalEntries header name"
    "\<not> EqualFold other name \<Longrightarrow> matching other step = matching other norm"
proof -
  show "matching name step = canonicalEntries header name"
    using assms(1,2) unfolding step_def canonicalEntries_def
    by (auto simp: protectedFieldValues_eq matching_put matching_delete split: list.splits)
  show "\<not> EqualFold other name \<Longrightarrow> matching other step = matching other norm"
    using assms(2) unfolding step_def
    by (auto simp: matching_put_other matching_delete EqualFold_def)
qed

lemma normalizeHeader_loop_ok:
  assumes "distinct (map foldKey names)" "\<forall>name \<in> set names. CanonicalHeaderKey name = name"
    and "normalizeHeader_loop header norm names = Inr out"
  shows "(\<forall>name \<in> set names. matching name out = canonicalEntries header name \<and> unambiguous header name) \<and>
    (\<forall>other. foldKey other \<notin> foldKey ` set names \<longrightarrow> matching other out = matching other norm)"
  using assms
proof (induction names arbitrary: norm)
  case (Cons name names)
  obtain vs present where p: "protectedFieldValues header name = Inr (vs, present)"
    using Cons.prems(3) by (auto split: sum.splits)
  have cn: "CanonicalHeaderKey name = name" using Cons.prems(2) by simp
  note step = normalizeStep [OF p cn, where norm = norm]
  let ?next = "if present then headerPut (deleteHeaderField norm name) (CanonicalHeaderKey name) vs
    else deleteHeaderField norm name"
  have "normalizeHeader_loop header ?next names = Inr out" using Cons.prems(3) p by (simp add: Let_def)
  from Cons.IH [OF _ _ this] Cons.prems(1,2) have IH:
    "\<forall>name \<in> set names. matching name out = canonicalEntries header name \<and> unambiguous header name"
    "\<And>other. foldKey other \<notin> foldKey ` set names \<Longrightarrow> matching other out = matching other ?next" by auto
  have "foldKey name \<notin> foldKey ` set names" using Cons.prems(1) by auto
  then have "matching name out = canonicalEntries header name" using IH(2) step(1) by simp
  moreover have "unambiguous header name" using p protectedFieldValues_ok by blast
  moreover have "matching other out = matching other norm" if "foldKey other \<notin> foldKey ` set (name # names)" for other
    using IH(2) [of other] step(2) [of other] that by (simp add: EqualFold_def)
  ultimately show ?case using IH(1) by simp
qed simp

lemma normalizeHeader_loop_total:
  "\<forall>name \<in> set names. unambiguous header name \<Longrightarrow> \<exists>out. normalizeHeader_loop header norm names = Inr out"
proof (induction names arbitrary: norm)
  case (Cons name names)
  then obtain vs present where "protectedFieldValues header name = Inr (vs, present)"
    using protectedFieldValues_ok [of header name] by fastforce
  with Cons show ?case by (simp add: Let_def)
qed simp

lemma protectedNames:
  "distinct (map foldKey protectedHTTPFieldNames)" "\<forall>name \<in> set protectedHTTPFieldNames. CanonicalHeaderKey name = name"
  by code_simp+

lemma normalizeProtectedHeader_ok:
  assumes "normalizeProtectedHeader header = Inr out"
  shows "name \<in> set protectedHTTPFieldNames \<Longrightarrow> matching name out = canonicalEntries header name \<and> unambiguous header name"
    "foldKey other \<notin> foldKey ` set protectedHTTPFieldNames \<Longrightarrow> matching other out = matching other header"
  using normalizeHeader_loop_ok [OF protectedNames assms [unfolded normalizeProtectedHeader_def]] by auto

lemma normalized_headerValues:
  assumes "normalizeProtectedHeader header = Inr out" "name \<in> set protectedHTTPFieldNames"
  shows "headerValues out name = concat (map snd (matching name header))"
proof -
  have c: "CanonicalHeaderKey name = name" using protectedNames(2) assms(2) by blast
  have "map_of out name = map_of (matching name out) name" by (simp add: map_of_matching)
  then have "map_of out name = map_of (canonicalEntries header name) name"
    using normalizeProtectedHeader_ok(1) [OF assms] by simp
  moreover have "length (matching name header) \<le> 1"
    using normalizeProtectedHeader_ok(1) [OF assms] by (simp add: unambiguous_def)
  ultimately show ?thesis
    by (cases "matching name header") (auto simp: headerValues_def c canonicalEntries_def)
qed

section \<open>Laws of combination\<close>

lemma pairFields_loop_ok:
  "pairFields_loop byLabel pairs inputs = Inr out \<longleftrightarrow>
   (\<forall>i \<in> set inputs. byLabel (InLabel i) \<noteq> None) \<and>
   out = pairs @ map (\<lambda>i. \<lparr>SFInput = i, SFSignature = the (byLabel (InLabel i))\<rparr>) inputs"
  by (induction byLabel pairs inputs rule: pairFields_loop.induct) (auto split: option.splits)

lemma appendSignedFields_ok:
  assumes "appendSignedFields inputs signatures sf = Inr (ins, ss)"
  shows "ins = inputs @ [SFInput sf] \<and> InLabel (SFInput sf) \<notin> InLabel ` set inputs \<and>
    length ss = Suc (length inputs) \<and> last ss = bareSignature sf \<and> distinct (map InLabel ins) \<and>
    map SigLabel ss = map InLabel ins"
proof -
  let ?by = "foldl (\<lambda>m signature. m(SigLabel signature \<mapsto> signature)) Map.empty signatures"
  let ?pairs = "map (\<lambda>i. \<lparr>SFInput = i, SFSignature = the (?by (InLabel i))\<rparr>) inputs"
  obtain pairs where p: "pairFields_loop ?by [] inputs = Inr pairs" "CombineSignedFields (pairs @ [sf]) = Inr (ins, ss)"
    using assms by (auto simp: appendSignedFields_def split: sum.splits)
  then have "pairs = ?pairs" unfolding pairFields_loop_ok by simp
  with p(2) have c: "CombineSignedFields (?pairs @ [sf]) = Inr (ins, ss)" by simp
  then have 1: "combineFields_loop {} [] [] (?pairs @ [sf]) = Inr (ins, ss)" by (simp add: CombineSignedFields_def)
  have "ins = map SFInput (?pairs @ [sf])" "ss = map bareSignature (?pairs @ [sf])"
    "distinct (map (\<lambda>x. InLabel (SFInput x)) (?pairs @ [sf]))" "\<forall>x \<in> set (?pairs @ [sf]). combinable x"
    using 1 unfolding combineFields_loop_iff by auto
  moreover have "x \<in> set (?pairs @ [sf]) \<Longrightarrow> SigLabel (bareSignature x) = InLabel (SFInput x)" for x
    using calculation(4) by (auto simp: combinable_def bareSignature_def)
  ultimately show ?thesis
    by (auto simp: comp_def image_image)
qed

section \<open>Laws of the adapters\<close>

lemma bindRes_Inl: "bindRes r f = Inl e \<longleftrightarrow> r = Inl e \<or> (\<exists>x. r = Inr x \<and> f x = Inl e)"
  by (cases r) auto

lemma headerPut_values: "map_of (headerPut header key vs) key = Some vs"
  by (induction header) (auto simp: headerPut_def)

lemma headerPut_other: "k \<noteq> key \<Longrightarrow> map_of (headerPut header key vs) k = map_of header k"
  by (induction header) (auto simp: headerPut_def)

lemma signatureFieldNames [simp]:
  "CanonicalHeaderKey ''Signature'' = ''Signature''" "CanonicalHeaderKey ''Signature-Input'' = ''Signature-Input''"
  "CanonicalHeaderKey ''Content-Digest'' = ''Content-Digest''"
  by code_simp+

lemma setSignatureFields_ok:
  assumes "setSignatureFields h existing sf header = Inr out"
  obtains i v where "out = headerSet (headerSet header ''Signature-Input'' i) ''Signature'' v"
    "existing = None \<Longrightarrow> SignatureInputField h sf = Inr i \<and> SignatureField h sf = Inr v"
  using assms by (cases existing) (auto simp: setSignatureFields_def bindRes_Inr split: sum.splits prod.splits)

lemma headerSet_matching:
  "\<not> EqualFold ''Signature-Input'' name \<Longrightarrow> \<not> EqualFold ''Signature'' name \<Longrightarrow>
   matching name (headerSet (headerSet header ''Signature-Input'' i) ''Signature'' v) = matching name header"
  by (simp add: headerSet_def matching_put_other)

lemma headerSet_values:
  "headerValues (headerSet (headerSet header ''Signature-Input'' i) ''Signature'' v) ''Signature-Input'' = [i]"
  "headerValues (headerSet (headerSet header ''Signature-Input'' i) ''Signature'' v) ''Signature'' = [v]"
  by (simp_all add: headerValues_def headerSet_def headerPut_values headerPut_other)

lemma existingFields_None:
  "existingFields h policy header = Inr None \<longleftrightarrow>
   headerValues header ''Signature-Input'' = [] \<and> headerValues header ''Signature'' = []"
  by (auto simp: existingFields_def Let_def bindRes_Inr split: if_splits)

lemma existingFields_reject: "existingFields h ExistingSignaturesReject header = Inr e \<Longrightarrow> e = None"
  by (auto simp: existingFields_def Let_def split: if_splits)

lemma protectedHeader_error: "normalizeProtectedHeader header = Inl e \<Longrightarrow> e = Sentinel ErrAmbiguousProtectedField"
proof -
  have "normalizeHeader_loop header norm names = Inl e \<Longrightarrow> e = Sentinel ErrAmbiguousProtectedField" for norm names
    by (induction names arbitrary: norm)
      (auto simp: protectedFieldValues_eq Let_def split: sum.splits list.splits)
  then show "normalizeProtectedHeader header = Inl e \<Longrightarrow> e = Sentinel ErrAmbiguousProtectedField"
    by (auto simp: normalizeProtectedHeader_def)
qed

lemma protectedRequest_error: "normalizeProtectedRequest r = Inl e \<Longrightarrow> e = Sentinel ErrAmbiguousProtectedField"
  by (auto simp: normalizeProtectedRequest_def dest: protectedHeader_error split: sum.splits)

section \<open>Example\<close>

definition exampleSigning :: SigningRoundTripper where
  "exampleSigning =
     \<lparr>rtSigner = Some exampleSigningProfile, rtLabel = ''s'', rtExisting = ExistingSignaturesReject,
      rtOptions = (\<lambda>_. Inr ''n''), rtExternalContext = None\<rparr>"

text \<open>
  The example library with short texts for whole dictionaries: \<^verbatim>\<open>s=i\<close> for inner lists, \<^verbatim>\<open>s=v\<close> for items, and
  a parser for the two fields of a signature and for a digest.
\<close>

definition wireInputs :: "SignedFields \<Rightarrow> alistDict" where
  "wireInputs sf =
     [(InLabel (SFInput sf),
       MInnerList \<lparr>Items = map (componentItem exampleSfv) (InComponents (SFInput sf)),
                   InnerParams = Some (addParameters exampleSfv (NewParams exampleSfv) (InParameters (SFInput sf)))\<rparr>)]"

definition wireItem :: "string \<Rightarrow> bytes \<Rightarrow> alistDict" where
  "wireItem key v = [(key, MItem \<lparr>ItemValue = VBytes v, ItemParams = Some (NewParams exampleSfv)\<rparr>)]"

definition wireFor :: "SignedFields \<Rightarrow> bytes \<Rightarrow> (alistParams, alistDict) httpsfv" where
  "wireFor sf digest =
     exampleSfv
       \<lparr>Marshal := (\<lambda>v. case v of
                      SFDictionary d \<Rightarrow>
                        Inr (join '', '' (map (\<lambda>(k, m). case m of MInnerList _ \<Rightarrow> k @ ''=i'' | MItem _ \<Rightarrow> k @ ''=v'') d))
                    | _ \<Rightarrow> Marshal exampleSfv v),
        UnmarshalDictionary :=
          (\<lambda>ls. if ls = [''s=i''] then Parses (wireInputs sf)
                else if ls = [''s=v''] then Parses (wireItem ''s'' (SigValue (SFSignature sf)))
                else if ls = [''sha-256=v''] then Parses (wireItem ''sha-256'' digest)
                else Fails (NewErr ''malformed''))\<rparr>"

definition exampleWire :: "(alistParams, alistDict) httpsfv" where
  "exampleWire = wireFor exampleSignedFields []"

definition exampleSentRequest :: Request where
  "exampleSentRequest =
     (case SigningRoundTripper_RoundTrip exampleWire exampleURLs exampleHashes exampleCrypto exampleSignEnv
             (Some exampleSigning) (Some exampleRequest) of
        Delegated r \<Rightarrow> r | Refused e c \<Rightarrow> exampleRequest)"

lemma exampleSent:
  "SigningRoundTripper_RoundTrip exampleWire exampleURLs exampleHashes exampleCrypto exampleSignEnv
     (Some exampleSigning) (Some exampleRequest) = Delegated exampleSentRequest"
proof -
  have "case SigningRoundTripper_RoundTrip exampleWire exampleURLs exampleHashes exampleCrypto exampleSignEnv
     (Some exampleSigning) (Some exampleRequest) of Delegated r \<Rightarrow> True | Refused e c \<Rightarrow> False" by code_simp
  then show ?thesis by (simp add: exampleSentRequest_def split: delegation.splits)
qed

section \<open>Properties\<close>

text \<open>C27. Protected fields cannot be read in two ways. Normalisation succeeds exactly when no protected name
  occurs under two map keys that differ only in case, and then the values the adapters parse are the
  values the signature base resolves, in the received header as well as in the normalised one.\<close>

theorem protected_fields_consistent:
  "(isOk (normalizeProtectedHeader header) \<longleftrightarrow> list_all (unambiguous header) protectedHTTPFieldNames) \<and>
   (normalizeProtectedHeader header = Inr out \<longrightarrow>
     (\<forall>name \<in> set protectedHTTPFieldNames.
        caseInsensitiveHeaderValues header name = Inr (headerValues out name) \<and>
        caseInsensitiveHeaderValues out name = Inr (headerValues out name)))"
proof (intro conjI impI ballI)
  show "isOk (normalizeProtectedHeader header) \<longleftrightarrow> list_all (unambiguous header) protectedHTTPFieldNames"
    using normalizeHeader_loop_total [of protectedHTTPFieldNames header header] normalizeProtectedHeader_ok(1) [of header]
    by (auto simp: isOk_iff list_all_iff normalizeProtectedHeader_def)
next
  fix name assume o: "normalizeProtectedHeader header = Inr out" and n: "name \<in> set protectedHTTPFieldNames"
  have v: "headerValues out name = concat (map snd (matching name header))" by (rule normalized_headerValues [OF o n])
  have u: "matching name out = canonicalEntries header name" "length (matching name header) \<le> 1"
    using normalizeProtectedHeader_ok(1) [OF o n] by (auto simp: unambiguous_def)
  show "caseInsensitiveHeaderValues header name = Inr (headerValues out name)"
    using u(2) v by (auto simp: caseInsensitiveHeaderValues_def headerValues_loop_eq split: list.splits)
  show "caseInsensitiveHeaderValues out name = Inr (headerValues out name)"
    using u v by (auto simp: caseInsensitiveHeaderValues_def headerValues_loop_eq canonicalEntries_def split: list.splits)
qed

theorem protected_fields_consistent_witness:
  "(\<exists>out. normalizeProtectedHeader [(''signature'', [''a'']), (''X'', [])] = Inr out \<and>
     caseInsensitiveHeaderValues out ''Signature'' = Inr (headerValues out ''Signature'')) \<and>
   \<not> isOk (normalizeProtectedHeader [(''signature'', [''a'']), (''Signature'', [''b''])])"
proof -
  have ok: "isOk (normalizeProtectedHeader [(''signature'', [''a'']), (''X'', [])])" by code_simp
  then obtain out where o: "normalizeProtectedHeader [(''signature'', [''a'']), (''X'', [])] = Inr out"
    by (auto simp: isOk_iff)
  have "\<not> list_all (unambiguous [(''signature'', [''a'']), (''Signature'', [''b''])]) protectedHTTPFieldNames"
    by code_simp
  then have "\<not> isOk (normalizeProtectedHeader [(''signature'', [''a'']), (''Signature'', [''b''])])"
    using protected_fields_consistent by blast
  moreover have "''Signature'' \<in> set protectedHTTPFieldNames" by (simp add: protectedHTTPFieldNames_def)
  then have "caseInsensitiveHeaderValues out ''Signature'' = Inr (headerValues out ''Signature'')"
    using protected_fields_consistent [of "[(''signature'', [''a'']), (''X'', [])]" out] o by blast
  ultimately show ?thesis using o by blast
qed



text \<open>Every refusal of the signing transport happens before delegation, closes the caller's body and reports
  one of three fixed errors, so provider, callback and crypto diagnostics stay inside. (A panic of a callee is
  not a refusal.)\<close>

theorem signing_roundtrip_refusals:
  "case SigningRoundTripper_RoundTrip h u H P env (Some t) (Some r) of
     Delegated _ \<Rightarrow> True
   | Refused err closed \<Rightarrow>
       closed = (ReqBody r \<noteq> NilBody) \<and>
       err \<in> Sentinel ` {ErrAmbiguousProtectedField, ErrExistingSignatures, ErrHTTPIntegrationSigning} \<or>
       isPanic (Inl err :: unit res)"
proof -
  have str: "SignatureInputs_String h es = Inl e \<Longrightarrow> isPanic (Inl e :: unit res)"
    "Signatures_String h ss = Inl e \<Longrightarrow> isPanic (Inl e :: unit res)" for es ss e
    by (auto simp: SignatureInputs_String_def Signatures_String_def Let_def split: sum.splits)
  have ex: "existingFields h pol hdr = Inl e \<Longrightarrow> e = Sentinel ErrExistingSignatures \<or> isPanic (Inl e :: unit res)" for pol hdr e
    by (auto simp: existingFields_def Let_def bindRes_Inl dest: classified_Inl split: if_splits)
  have set: "setSignatureFields h x sf hdr = Inl e \<Longrightarrow> e = Sentinel ErrExistingSignatures \<or> isPanic (Inl e :: unit res)"
    for x sf hdr e
    using str by (auto simp: setSignatureFields_def bindRes_Inl SignatureInputField_def SignatureField_def
        split: option.splits sum.splits prod.splits if_splits)
  have ext: "externalContext cb r (Sentinel ErrHTTPIntegrationSigning) = Inl e \<Longrightarrow>
      e = Sentinel ErrHTTPIntegrationSigning \<or> isPanic (Inl e :: unit res)" for cb e
    by (auto simp: externalContext_def dest: classified_Inl split: option.splits)
  have "err \<in> Sentinel ` {ErrAmbiguousProtectedField, ErrExistingSignatures, ErrHTTPIntegrationSigning} \<or>
      isPanic (Inl err :: unit res)" if "signRequest h u H P env t r = Inl err" for err
    using that unfolding signRequest_def bindRes_Inl
    by (elim disjE exE conjE) (auto dest: protectedRequest_error ex set ext classified_Inl)
  then show ?thesis
    by (auto simp: SigningRoundTripper_RoundTrip_def signingRoundTripError_def split: sum.split goerr.split)
qed

text \<open>Appending to existing signatures keeps them: the combined input field is the existing one, in its
  order, followed by the new pair, whose label was not in use, and both fields list the same labels in the
  same order.\<close>

theorem append_preserves_existing:
  assumes "appendSignedFields inputs signatures sf = Inr (ins, ss)"
  shows "ins = inputs @ [SFInput sf] \<and> InLabel (SFInput sf) \<notin> InLabel ` set inputs \<and>
    last ss = bareSignature sf \<and> distinct (map InLabel ins) \<and> map SigLabel ss = map InLabel ins"
  using appendSignedFields_ok [OF assms] by blast

theorem append_preserves_existing_witness:
  "\<exists>ins ss. appendSignedFields [(SFInput exampleSignedFields)\<lparr>InLabel := ''t''\<rparr>]
      [(SFSignature exampleSignedFields)\<lparr>SigLabel := ''t''\<rparr>] exampleSignedFields = Inr (ins, ss) \<and>
     ins = [(SFInput exampleSignedFields)\<lparr>InLabel := ''t''\<rparr>, SFInput exampleSignedFields]"
proof -
  have "isOk (appendSignedFields [(SFInput exampleSignedFields)\<lparr>InLabel := ''t''\<rparr>]
      [(SFSignature exampleSignedFields)\<lparr>SigLabel := ''t''\<rparr>] exampleSignedFields)" by code_simp
  then obtain ins ss where a: "appendSignedFields [(SFInput exampleSignedFields)\<lparr>InLabel := ''t''\<rparr>]
      [(SFSignature exampleSignedFields)\<lparr>SigLabel := ''t''\<rparr>] exampleSignedFields = Inr (ins, ss)"
    by (auto simp: isOk_iff)
  from append_preserves_existing [OF a] a show ?thesis by auto
qed

end
