(* ===== verification/BodyReader.thy ===== *)
theory BodyReader
  imports Algorithm
begin

text \<open>
  \<^verbatim>\<open>readBoundedAndClose\<close> of \<^verbatim>\<open>body_integration.go\<close>: the bounded read of a whole body. A body is the sequence
  of the results of its \<^verbatim>\<open>Read\<close> calls (the count, the bytes of the buffer, the error) and the error of its
  \<^verbatim>\<open>Close\<close>. The loop ends for every such sequence, because each round that goes on retains at least
  one byte of the allowance.
\<close>

record readResult =
  rrCount :: int
  rrBuffer :: "nat \<Rightarrow> char"
  rrErr :: "goerr option"

record bodyReader =
  brRead :: "nat \<Rightarrow> readResult"
  brClose :: "goerr option"

definition chunk :: "readResult \<Rightarrow> bytes" where
  "chunk r = map (rrBuffer r) [0..<nat (rrCount r)]"

definition readBufferSize :: int where
  "readBufferSize = 32 * 1024"

lemma length_chunk [simp]: "length (chunk r) = nat (rrCount r)"
  by (simp add: chunk_def)

function readLoop :: "(nat \<Rightarrow> goerr option) \<Rightarrow> (nat \<Rightarrow> readResult) \<Rightarrow> int \<Rightarrow> nat \<Rightarrow> bytes \<Rightarrow> bytes res" where
  "readLoop observe rd maxBytes k content =
     (case observe k of
        Some err \<Rightarrow> Inl err
      | None \<Rightarrow>
          let remaining = maxBytes - go_len content; r = rd k in
          if rrCount r < 0 \<or> rrCount r > readBufferSize then Inl (Sentinel ErrBodyRead)
          else if rrCount r > remaining then Inl (Sentinel ErrBodyTooLarge)
          else
            case rrErr r of
              Some err \<Rightarrow>
                if errorsIs err IoEOF then Inr (content @ chunk r) else Inl (Errorf ''%w'' [Sentinel ErrBodyRead] [])
            | None \<Rightarrow>
                if rrCount r = 0 then Inl (Sentinel ErrBodyRead)
                else readLoop observe rd maxBytes (Suc k) (content @ chunk r))"
  by pat_completeness auto
termination
  by (relation "measure (\<lambda>(observe, rd, maxBytes, k, content). nat (maxBytes - go_len content))") auto

declare readLoop.simps [simp del]

definition readBoundedAndClose :: "gocontext \<Rightarrow> bodyReader option \<Rightarrow> int \<Rightarrow> bytes res" where
  "readBoundedAndClose ctx body maxBytes =
     (case body of
        None \<Rightarrow> Inr []
      | Some b \<Rightarrow>
          let result =
            (case ctx of
               None \<Rightarrow> Inl (Sentinel ErrInvalidBodyIntegration)
             | Some observe \<Rightarrow>
                 if maxBytes \<le> 0 then Inl (Sentinel ErrInvalidBodyIntegration)
                 else readLoop observe (brRead b) maxBytes 0 [])
          in case (result, brClose b) of
               (Inr _, Some _) \<Rightarrow> Inl (Sentinel ErrBodyRead)
             | _ \<Rightarrow> result)"

section \<open>Correctness\<close>

text \<open>The reads \<open>k..n\<close> are a complete body: data on every read but possibly the last, which reports the end.\<close>

definition completeBody :: "(nat \<Rightarrow> goerr option) \<Rightarrow> (nat \<Rightarrow> readResult) \<Rightarrow> nat \<Rightarrow> nat \<Rightarrow> bool" where
  "completeBody observe rd k n \<longleftrightarrow>
     k \<le> n \<and> (\<forall>i \<in> {k..n}. observe i = None \<and> 0 \<le> rrCount (rd i) \<and> rrCount (rd i) \<le> readBufferSize) \<and>
     (\<forall>i \<in> {k..<n}. rrErr (rd i) = None \<and> rrCount (rd i) \<noteq> 0) \<and>
     (\<exists>err. rrErr (rd n) = Some err \<and> errorsIs err IoEOF)"

definition deliveredBytes :: "(nat \<Rightarrow> readResult) \<Rightarrow> nat \<Rightarrow> nat \<Rightarrow> bytes" where
  "deliveredBytes rd k n = concat (map (\<lambda>i. chunk (rd i)) [k..<Suc n])"

lemma deliveredBytes_step: "k < n \<Longrightarrow> deliveredBytes rd k n = chunk (rd k) @ deliveredBytes rd (Suc k) n"
  by (simp add: deliveredBytes_def upt_conv_Cons)

lemma deliveredBytes_last: "deliveredBytes rd n n = chunk (rd n)"
  by (simp add: deliveredBytes_def)

lemma completeBody_step:
  assumes "k < n"
  shows "completeBody observe rd k n \<longleftrightarrow>
   observe k = None \<and> 0 \<le> rrCount (rd k) \<and> rrCount (rd k) \<le> readBufferSize \<and> rrErr (rd k) = None \<and>
   rrCount (rd k) \<noteq> 0 \<and> completeBody observe rd (Suc k) n"
proof -
  have "{k..n} = insert k {Suc k..n}" "{k..<n} = insert k {Suc k..<n}" using assms by auto
  then show ?thesis using assms by (auto simp: completeBody_def)
qed

lemma completeBody_last:
  "completeBody observe rd n n \<longleftrightarrow>
   observe n = None \<and> 0 \<le> rrCount (rd n) \<and> rrCount (rd n) \<le> readBufferSize \<and>
   (\<exists>err. rrErr (rd n) = Some err \<and> errorsIs err IoEOF)"
  by (auto simp: completeBody_def)

lemma readLoop_sound:
  "readLoop observe rd maxBytes k content = Inr out \<Longrightarrow>
   \<exists>n. completeBody observe rd k n \<and> out = content @ deliveredBytes rd k n \<and> go_len out \<le> maxBytes"
proof (induction observe rd maxBytes k content rule: readLoop.induct)
  case (1 observe rd maxBytes k content)
  let ?r = "rd k"
  have c: "observe k = None" "0 \<le> rrCount ?r" "rrCount ?r \<le> readBufferSize" "rrCount ?r \<le> maxBytes - go_len content"
    using "1.prems" by (auto simp: readLoop.simps [of observe rd maxBytes k content] Let_def split: option.splits if_splits)
  show ?case
  proof (cases "rrErr ?r")
    case None
    then have "rrCount ?r \<noteq> 0" "readLoop observe rd maxBytes (Suc k) (content @ chunk ?r) = Inr out"
      using "1.prems" c by (auto simp: readLoop.simps [of observe rd maxBytes k content] Let_def split: if_splits)
    moreover from this obtain n where n: "completeBody observe rd (Suc k) n"
      "out = (content @ chunk ?r) @ deliveredBytes rd (Suc k) n" "go_len out \<le> maxBytes"
      using "1.IH" [OF c(1) refl refl] None c by (auto simp: not_less)
    moreover have "k < n" using n(1) by (simp add: completeBody_def)
    ultimately show ?thesis
      using c None by (intro exI [of _ n]) (simp add: completeBody_step deliveredBytes_step)
  next
    case (Some err)
    then have "errorsIs err IoEOF" "out = content @ chunk ?r"
      using "1.prems" c by (auto simp: readLoop.simps [of observe rd maxBytes k content] Let_def split: if_splits)
    then show ?thesis
      using c Some by (intro exI [of _ k]) (simp add: completeBody_last deliveredBytes_last)
  qed
qed

lemma readLoop_complete:
  "completeBody observe rd k n \<Longrightarrow> go_len (content @ deliveredBytes rd k n) \<le> maxBytes \<Longrightarrow>
   readLoop observe rd maxBytes k content = Inr (content @ deliveredBytes rd k n)"
proof (induction "n - k" arbitrary: k content)
  case 0
  then have "k = n" by (simp add: completeBody_def)
  then show ?case
    using 0 by (auto simp: readLoop.simps [of observe rd maxBytes n content] Let_def completeBody_last deliveredBytes_last)
next
  case (Suc d)
  then have k: "k < n" by simp
  note b = Suc.prems(1) [unfolded completeBody_step [OF k]]
  have "go_len ((content @ chunk (rd k)) @ deliveredBytes rd (Suc k) n) \<le> maxBytes"
    using Suc.prems(2) deliveredBytes_step [OF k] by simp
  then have "readLoop observe rd maxBytes (Suc k) (content @ chunk (rd k)) = Inr (content @ deliveredBytes rd k n)"
    using Suc.hyps(1) [of "Suc k" "content @ chunk (rd k)"] Suc.hyps(2) b deliveredBytes_step [OF k] by simp
  moreover have "rrCount (rd k) \<le> maxBytes - go_len content"
    using Suc.prems(2) deliveredBytes_step [OF k] b by simp
  ultimately show ?case
    using b by (simp add: readLoop.simps [of observe rd maxBytes k content] Let_def)
qed

lemma readLoop_iff:
  "readLoop observe rd maxBytes k content = Inr out \<longleftrightarrow>
   (\<exists>n. completeBody observe rd k n \<and> out = content @ deliveredBytes rd k n \<and> go_len out \<le> maxBytes)"
  using readLoop_sound readLoop_complete by blast

lemma readLoop_errors:
  "readLoop observe rd maxBytes k content = Inl err \<Longrightarrow>
   err \<in> {Sentinel ErrBodyRead, Sentinel ErrBodyTooLarge, Errorf ''%w'' [Sentinel ErrBodyRead] []} \<or>
   (\<exists>i. observe i = Some err)"
proof (induction observe rd maxBytes k content rule: readLoop.induct)
  case (1 observe rd maxBytes k content)
  from "1.prems" show ?case
    by (subst (asm) readLoop.simps)
      (auto simp: Let_def dest: "1.IH" [rotated -1] split: option.splits if_splits)
qed

lemma readBoundedAndClose_iff:
  "readBoundedAndClose ctx body maxBytes = Inr content \<longleftrightarrow>
   (case body of
      None \<Rightarrow> content = []
    | Some b \<Rightarrow> (\<exists>observe n. ctx = Some observe \<and> 0 < maxBytes \<and> brClose b = None \<and>
        completeBody observe (brRead b) 0 n \<and> content = deliveredBytes (brRead b) 0 n \<and> go_len content \<le> maxBytes))"
proof (cases body)
  case (Some b)
  show ?thesis
  proof (cases ctx)
    case (Some observe)
    show ?thesis
      using readLoop_iff [of observe "brRead b" maxBytes 0 "[]" content] \<open>body = Some b\<close> Some
      by (auto simp: readBoundedAndClose_def Let_def split: sum.splits option.splits)
  qed (simp add: readBoundedAndClose_def Let_def Some split: option.splits)
qed (auto simp: readBoundedAndClose_def)

lemma readBoundedAndClose_length:
  "readBoundedAndClose ctx body maxBytes = Inr content \<Longrightarrow> go_len content \<le> max 0 maxBytes"
  by (auto simp: readBoundedAndClose_iff split: option.splits)

section \<open>Properties\<close>

text \<open>C33. The bounded read ends for every body and context, and returns content exactly when the body delivers
  it: the reads up to the first end of file, each with a valid count and data, within the limit, while
  the context stays live, with a body that closes without error. A body without data or an end, a
  truncated one and an oversized one are refused.\<close>

theorem read_bounded_exact:
  "readBoundedAndClose ctx body maxBytes = Inr content \<longleftrightarrow>
   (case body of
      None \<Rightarrow> content = []
    | Some b \<Rightarrow> (\<exists>observe n. ctx = Some observe \<and> 0 < maxBytes \<and> brClose b = None \<and>
        completeBody observe (brRead b) 0 n \<and> content = deliveredBytes (brRead b) 0 n \<and> go_len content \<le> maxBytes))"
  by (rule readBoundedAndClose_iff)

end
