(* ===== verification/ResponseIntegration.thy ===== *)
theory ResponseIntegration
  imports HttpIntegration BodyReader "HOL-Library.Sublist"
begin

text \<open>
  The response side of \<^verbatim>\<open>http_integration.go\<close>: buffered response signing and response verification. A
  handler is the sequence of its operations on the buffering writer; the underlying writer's reaction to
  the single final write is a parameter.
\<close>

section \<open>The buffering writer\<close>

record bufferedResponseWriter =
  bwHeader :: header
  bwCommittedHeader :: "header option"
  bwBody :: bytes
  bwStatus :: int
  bwMaxBytes :: int
  bwTooLarge :: bool

definition newBufferedResponseWriter :: "int \<Rightarrow> bufferedResponseWriter" where
  "newBufferedResponseWriter maxBytes =
     \<lparr>bwHeader = [], bwCommittedHeader = None, bwBody = [], bwStatus = 0, bwMaxBytes = maxBytes, bwTooLarge = False\<rparr>"

definition responseBodyAllowed :: "int \<Rightarrow> bool" where
  "responseBodyAllowed status \<longleftrightarrow> status \<ge> 200 \<and> status \<noteq> 204 \<and> status \<noteq> 205 \<and> status \<noteq> 304"

definition bw_WriteHeader :: "int \<Rightarrow> bufferedResponseWriter \<Rightarrow> bufferedResponseWriter res" where
  "bw_WriteHeader status w =
     (if status < 100 \<or> status > 999 then Inl (GoPanic ''invalid WriteHeader code'')
      else if status \<ge> 100 \<and> status \<le> 199 \<and> status \<noteq> 101 then Inr w
      else if bwStatus w \<noteq> 0 then Inr w
      else Inr (w\<lparr>bwStatus := status, bwCommittedHeader := Some (bwHeader w)\<rparr>))"

definition bw_Write :: "bytes \<Rightarrow> bufferedResponseWriter \<Rightarrow> ((int \<times> goerr option) \<times> bufferedResponseWriter) res" where
  "bw_Write content w =
     bindRes (if bwStatus w = 0 then bw_WriteHeader 200 w else Inr w) (\<lambda>w1.
       if \<not> responseBodyAllowed (bwStatus w1) then Inr ((0, Some (Sentinel HttpErrBodyNotAllowed)), w1)
       else if bwTooLarge w1 \<or> go_len content > bwMaxBytes w1 - go_len (bwBody w1)
       then Inr ((0, Some (Sentinel ErrResponseBodyTooLarge)), w1\<lparr>bwTooLarge := True\<rparr>)
       else Inr ((go_len content, None), w1\<lparr>bwBody := bwBody w1 @ content\<rparr>))"

text \<open>What a handler does with its writer; \<open>SetHeader\<close> is any change of the header map.\<close>

datatype writerOp = SetHeader header | CallWriteHeader int | CallWrite bytes

fun runHandler :: "writerOp list \<Rightarrow> bufferedResponseWriter \<Rightarrow> bufferedResponseWriter res" where
  "runHandler [] w = Inr w"
| "runHandler (SetHeader header # ops) w = runHandler ops (w\<lparr>bwHeader := header\<rparr>)"
| "runHandler (CallWriteHeader status # ops) w = bindRes (bw_WriteHeader status w) (runHandler ops)"
| "runHandler (CallWrite content # ops) w = bindRes (bw_Write content w) (\<lambda>(_, w'). runHandler ops w')"

definition bw_response :: "bufferedResponseWriter \<Rightarrow> Request \<Rightarrow> Response" where
  "bw_response w request =
     (let status = (if bwStatus w = 0 then 200 else bwStatus w);
          header = (case bwCommittedHeader w of None \<Rightarrow> bwHeader w | Some committed \<Rightarrow> committed)
      in \<lparr>RespStatusCode = status, RespProtoMajor = 0, RespProtoMinor = 0, RespHeader = header, RespBody = SomeBody,
          RespContentLength = go_len (bwBody w), RespTransferEncoding = [], RespClose = False,
          RespUncompressed = False, RespTrailer = [], RespRequest = Some request\<rparr>)"

definition responseTransitionsProtocol :: "Request \<Rightarrow> Response \<Rightarrow> bool" where
  "responseTransitionsProtocol request response =
     (if RespStatusCode response = 101 then True
      else ReqMethod request = ''CONNECT'' \<and> RespStatusCode response \<ge> 200 \<and> RespStatusCode response \<le> 299)"

section \<open>Framing of the buffered response\<close>

definition TrailerPrefix :: string where "TrailerPrefix = ''Trailer:''"

fun rejectPresent_loop :: "header \<Rightarrow> string list \<Rightarrow> unit res" where
  "rejectPresent_loop header [] = Inr ()"
| "rejectPresent_loop header (name # names) =
     (case protectedFieldValues header name of
        Inl err \<Rightarrow> Inl err
      | Inr (_, present) \<Rightarrow>
          if present then Inl (Sentinel ErrInvalidHTTPIntegration) else rejectPresent_loop header names)"

definition rejectBufferedResponseManagedFraming :: "header \<Rightarrow> unit res" where
  "rejectBufferedResponseManagedFraming header =
     bindRes (rejectPresent_loop header [''Transfer-Encoding'', ''Trailer'']) (\<lambda>_.
       if list_ex (\<lambda>(name, _). hasPrefix name TrailerPrefix) header
       then Inl (Sentinel ErrInvalidHTTPIntegration) else Inr ())"

definition normalizeBufferedContentLength :: "header \<Rightarrow> int \<Rightarrow> bool \<Rightarrow> header res" where
  "normalizeBufferedContentLength header contentLength required =
     (case protectedFieldValues header ''Content-Length'' of
        Inl err \<Rightarrow> Inl err
      | Inr (vs, present) \<Rightarrow>
          let expected = formatInt contentLength in
          if present \<and> (length vs \<noteq> 1 \<or> vs ! 0 \<noteq> expected) then Inl (Sentinel ErrInvalidHTTPIntegration)
          else if present \<or> required
          then Inr (headerSet (deleteHeaderField header ''Content-Length'') ''Content-Length'' expected)
          else Inr header)"

definition normalizeBufferedRepresentationContentLength :: "header \<Rightarrow> int \<Rightarrow> (header \<times> int) res" where
  "normalizeBufferedRepresentationContentLength header fallback =
     (case protectedFieldValues header ''Content-Length'' of
        Inl err \<Rightarrow> Inl err
      | Inr (vs, present) \<Rightarrow>
          if \<not> present
          then Inr (if fallback > 0 then headerSet header ''Content-Length'' (formatInt fallback) else header, fallback)
          else if length vs \<noteq> 1 \<or> vs ! 0 = [] then Inl (Sentinel ErrInvalidHTTPIntegration)
          else if trim ''0123456789'' (vs ! 0) \<noteq> [] then Inl (Sentinel ErrInvalidHTTPIntegration)
          else
            case parseUint 63 (vs ! 0) of
              None \<Rightarrow> Inl (Sentinel ErrInvalidHTTPIntegration)
            | Some n \<Rightarrow>
                Inr (headerSet (deleteHeaderField header ''Content-Length'') ''Content-Length'' (formatInt (int n)), int n))"

definition rejectBufferedContentLength :: "header \<Rightarrow> unit res" where
  "rejectBufferedContentLength header =
     (case protectedFieldValues header ''Content-Length'' of
        Inl err \<Rightarrow> Inl err
      | Inr (_, present) \<Rightarrow> if present then Inl (Sentinel ErrInvalidHTTPIntegration) else Inr ())"

text \<open>The \<^verbatim>\<open>switch\<close> on method and status: the content that will be sent and the framed response.\<close>

definition frameBufferedResponse :: "Request \<Rightarrow> Response \<Rightarrow> bytes \<Rightarrow> (Response \<times> bytes) res" where
  "frameBufferedResponse request response content =
     (if ReqMethod request = ''HEAD'' then
        bindRes (normalizeBufferedRepresentationContentLength (RespHeader response) (RespContentLength response))
          (\<lambda>(header, n). Inr (response\<lparr>RespHeader := header, RespContentLength := n\<rparr>, []))
      else if RespStatusCode response = 304 then
        bindRes (normalizeBufferedRepresentationContentLength (RespHeader response) 0)
          (\<lambda>(header, n). Inr (response\<lparr>RespHeader := header, RespContentLength := n\<rparr>, []))
      else if \<not> responseBodyAllowed (RespStatusCode response) then
        bindRes (rejectBufferedContentLength (RespHeader response)) (\<lambda>_. Inr (response\<lparr>RespContentLength := 0\<rparr>, []))
      else
        bindRes (normalizeBufferedContentLength (RespHeader response) (RespContentLength response) True)
          (\<lambda>header. Inr (response\<lparr>RespHeader := header\<rparr>, content)))"

section \<open>Signing buffered responses\<close>

record ResponseSigningMiddlewareConfig =
  RSSigner :: "SigningProfile option option"
  RSLabel :: string
  RSExisting :: nat
  RSMaxBufferedBytes :: int
  RSContentDigestAlgorithms :: "DigestAlgorithm list"
  RSOptions :: "(Request \<Rightarrow> Response \<Rightarrow> string res) option"
  RSExternalContext :: "(Request \<times> Response \<Rightarrow> ExternalRequestContext option res) option"
  RSMapError :: bool
  RSReportError :: bool

record responseSigning =
  rsSigner :: "SigningProfile option"
  rsLabel :: string
  rsExisting :: nat
  rsMaxBufferedBytes :: int
  rsDigestAlgorithms :: "DigestAlgorithm list"
  rsOptions :: "Request \<Rightarrow> Response \<Rightarrow> string res"
  rsExternalContext :: "(Request \<times> Response \<Rightarrow> ExternalRequestContext option res) option"

definition contentDigestComponent :: ComponentIdentifier where
  "contentDigestComponent = \<lparr>CompName = ''content-digest'', CompParameters = []\<rparr>"

definition NewResponseSigningMiddleware ::
  "('p, 'd) httpsfv \<Rightarrow> hashes \<Rightarrow> ResponseSigningMiddlewareConfig \<Rightarrow> responseSigning res" where
  "NewResponseSigningMiddleware h H config =
     (case (RSSigner config, RSOptions config) of
        (Some signer, Some options) \<Rightarrow>
          if \<not> validSignatureLabel (RSLabel config) \<or> RSMaxBufferedBytes config \<le> 0 \<or> \<not> RSMapError config \<or>
             \<not> RSReportError config \<or> RSExisting config < ExistingSignaturesReject \<or>
             RSExisting config > ExistingSignaturesAppend
          then Inl (Sentinel ErrInvalidHTTPIntegration)
          else if RSContentDigestAlgorithms config \<noteq> [] \<and>
                  (case signer of None \<Rightarrow> True | Some p \<Rightarrow> \<not> signingProfileCoversComponent h p contentDigestComponent)
          then Inl (Sentinel ErrInvalidHTTPIntegration)
          else if RSContentDigestAlgorithms config \<noteq> [] \<and> \<not> isOk (ComputeDigests H (RSContentDigestAlgorithms config) [])
          then Inl (Sentinel ErrInvalidHTTPIntegration)
          else Inr \<lparr>rsSigner = signer, rsLabel = RSLabel config, rsExisting = RSExisting config,
                    rsMaxBufferedBytes = RSMaxBufferedBytes config,
                    rsDigestAlgorithms = [] @ RSContentDigestAlgorithms config, rsOptions = options,
                    rsExternalContext = RSExternalContext config\<rparr>
      | _ \<Rightarrow> Inl (Sentinel ErrInvalidHTTPIntegration))"

text \<open>The checks before the handler runs: the normalised outer header and the related request.\<close>

definition prepareResponse :: "header \<Rightarrow> Request \<Rightarrow> (header \<times> Request) res" where
  "prepareResponse outer request =
     bindRes (normalizeProtectedHeader outer) (\<lambda>outerHeader.
       if headerValues outerHeader ''Content-Digest'' \<noteq> [] then Inl (Sentinel ErrExistingDigest)
       else if headerValues outerHeader ''Signature-Input'' \<noteq> [] \<or> headerValues outerHeader ''Signature'' \<noteq> []
       then Inl (Sentinel ErrExistingSignatures)
       else
         bindRes (rejectPresent_loop outer [''Content-Length'', ''Transfer-Encoding'', ''Trailer'']) (\<lambda>_.
         bindRes (normalizeProtectedRequest request) (\<lambda>relatedRequest.
         Inr (outerHeader, relatedRequest))))"

text \<open>The content digest of the response, when the policy has algorithms for it.\<close>

definition addContentDigest ::
  "('p, 'd) httpsfv \<Rightarrow> hashes \<Rightarrow> DigestAlgorithm list \<Rightarrow> bytes \<Rightarrow> header \<Rightarrow> header res" where
  "addContentDigest h H algorithms content header =
     (if algorithms = [] then Inr header
      else if headerValues header ''Content-Digest'' \<noteq> [] then Inl (Sentinel ErrExistingDigest)
      else
        let digests = (case ComputeDigests H algorithms content of Inl _ \<Rightarrow> [] | Inr d \<Rightarrow> d) in
        bindRes (DigestField_String h digests) (\<lambda>v. Inr (headerSet header ''Content-Digest'' v)))"

definition signBufferedResponse ::
  "('p, 'd) httpsfv \<Rightarrow> urls \<Rightarrow> hashes \<Rightarrow> crypto \<Rightarrow> signEnv \<Rightarrow> responseSigning \<Rightarrow> Request \<Rightarrow> Request \<Rightarrow> bufferedResponseWriter \<Rightarrow>
   (Response \<times> bytes) res" where
  "signBufferedResponse h u H P env m request relatedRequest buffer =
     (if bwTooLarge buffer then Inl (Sentinel ErrResponseBodyTooLarge)
      else
        let response0 = bw_response buffer relatedRequest in
        if responseTransitionsProtocol relatedRequest response0 then Inl (Sentinel ErrInvalidHTTPIntegration)
        else
          bindRes (normalizeProtectedHeader (RespHeader response0)) (\<lambda>normalizedHeader.
          bindRes (rejectBufferedResponseManagedFraming normalizedHeader) (\<lambda>_.
          bindRes (frameBufferedResponse request (response0\<lparr>RespHeader := normalizedHeader\<rparr>) (bwBody buffer))
            (\<lambda>(framed, content).
          bindRes (addContentDigest h H (rsDigestAlgorithms m) content (RespHeader framed)) (\<lambda>digested.
          bindRes (existingFields h (rsExisting m) digested) (\<lambda>existing.
          let response = framed\<lparr>RespHeader := digested\<rparr>;
              views = (cloneRequestSnapshot relatedRequest, responseCallbackSnapshot response relatedRequest)
          in
          bindRes (classified (Sentinel ErrHTTPIntegrationSigning)
                (rsOptions m (fst views) (snd views))) (\<lambda>given.
          bindRes (externalContext (rsExternalContext m) views (Sentinel ErrHTTPIntegrationSigning)) (\<lambda>external.
          bindRes (classified (Sentinel ErrHTTPIntegrationSigning)
                (Signer_Sign h u H P env (rsSigner m)
                          (responseMessage response relatedRequest external ResponseTransportWrite) (rsLabel m) given)) (\<lambda>sf.
          bindRes (setSignatureFields h existing sf digested) (\<lambda>header.
          Inr (response\<lparr>RespHeader := header\<rparr>, content)))))))))))"

text \<open>
  \<^verbatim>\<open>copyResponse\<close>: what reaches the underlying writer, and the error reported afterwards when the writer did
  not take all of the content.
\<close>

record emitted =
  emStatus :: int
  emHeader :: header
  emContent :: bytes
  emReport :: "goerr option"

definition copyResponse :: "(bytes \<Rightarrow> int \<times> goerr option) \<Rightarrow> Response \<Rightarrow> bytes \<Rightarrow> emitted" where
  "copyResponse write response content =
     (case write content of
        (n, err) \<Rightarrow>
          \<lparr>emStatus = RespStatusCode response, emHeader = RespHeader response, emContent = content,
           emReport = (if err \<noteq> None \<or> n \<noteq> go_len content then Some (Sentinel ErrBodyRead) else None)\<rparr>)"

text \<open>\<open>Inl\<close> is what \<^verbatim>\<open>MapError\<close> receives, and then the adapter has emitted nothing.\<close>

definition ResponseSigning_ServeHTTP ::
  "('p, 'd) httpsfv \<Rightarrow> urls \<Rightarrow> hashes \<Rightarrow> crypto \<Rightarrow> signEnv \<Rightarrow> (bytes \<Rightarrow> int \<times> goerr option) \<Rightarrow> responseSigning \<Rightarrow>
   header \<Rightarrow> writerOp list option \<Rightarrow> Request option \<Rightarrow> emitted res" where
  "ResponseSigning_ServeHTTP h u H P env write m outer handler request =
     (case (handler, request) of
        (Some ops, Some r) \<Rightarrow>
          bindRes (prepareResponse outer r) (\<lambda>(outerHeader, relatedRequest).
          bindRes (runHandler ops ((newBufferedResponseWriter (rsMaxBufferedBytes m))\<lparr>bwHeader := outerHeader\<rparr>)) (\<lambda>buffer.
          bindRes (signBufferedResponse h u H P env m r relatedRequest buffer) (\<lambda>(response, content).
          Inr (copyResponse write response content))))
      | _ \<Rightarrow> Inl (Sentinel ErrInvalidHTTPIntegration))"

section \<open>Verifying responses\<close>

record VerifyingRoundTripperConfig =
  VTTransport :: bool
  VTVerifier :: "VerificationProfile option option"
  VTSelectLabel :: "(Request \<Rightarrow> Response \<Rightarrow> SignatureInput list \<Rightarrow> SignatureValue list \<Rightarrow> string res) option"
  VTContentDigestAlgorithms :: "DigestAlgorithm list"
  VTMaxBufferedBytes :: int
  VTExternalContext :: "(Request \<times> Response \<Rightarrow> ExternalRequestContext option res) option"

record VerifyingRoundTripper =
  vtVerifier :: "VerificationProfile option"
  vtSelectLabel :: "Request \<Rightarrow> Response \<Rightarrow> SignatureInput list \<Rightarrow> SignatureValue list \<Rightarrow> string res"
  vtContentDigestAlgorithms :: "DigestAlgorithm list"
  vtMaxBufferedBytes :: int
  vtExternalContext :: "(Request \<times> Response \<Rightarrow> ExternalRequestContext option res) option"

definition NewVerifyingRoundTripper :: "hashes \<Rightarrow> VerifyingRoundTripperConfig \<Rightarrow> VerifyingRoundTripper res" where
  "NewVerifyingRoundTripper H config =
     (case (VTVerifier config, VTSelectLabel config) of
        (Some verifier, Some select) \<Rightarrow>
          if \<not> VTTransport config then Inl (Sentinel ErrInvalidHTTPIntegration)
          else
            let configured = VTContentDigestAlgorithms config \<noteq> [] \<or> VTMaxBufferedBytes config \<noteq> 0 in
            if configured \<and> VTMaxBufferedBytes config \<le> 0 then Inl (Sentinel ErrInvalidHTTPIntegration)
            else if configured \<and> \<not> isOk (ComputeDigests H (VTContentDigestAlgorithms config) [])
            then Inl (Sentinel ErrInvalidHTTPIntegration)
            else Inr \<lparr>vtVerifier = verifier, vtSelectLabel = select,
                      vtContentDigestAlgorithms = [] @ VTContentDigestAlgorithms config,
                      vtMaxBufferedBytes = VTMaxBufferedBytes config, vtExternalContext = VTExternalContext config\<rparr>
      | _ \<Rightarrow> Inl (Sentinel ErrInvalidHTTPIntegration))"

text \<open>
  What the call observes besides the verifier's own environment: the context while the body is read, the
  body of the received response, and its trailers once the body has been read.
\<close>

record receiveEnv =
  rcContext :: gocontext
  rcBody :: bodyReader
  rcTrailerAfterRead :: header

text \<open>A returned response with the content its replaced body delivers, when it was replaced.\<close>

record verifiedResponse =
  vrResponse :: Response
  vrContent :: "bytes option"
  vrVerified :: VerifiedSignature

definition failVerification :: "'a res \<Rightarrow> (goerr \<Rightarrow> ierr) \<Rightarrow> ierr + 'a" where
  "failVerification r f = (case r of Inl (GoPanic m) \<Rightarrow> Inl (GoError (GoPanic m)) | Inl err \<Rightarrow> Inl (f err) | Inr x \<Rightarrow> Inr x)"

abbreviation wrapVerification :: "VerificationFailure \<Rightarrow> goerr \<Rightarrow> ierr" where
  "wrapVerification failure cause \<equiv> VerificationFailed (Verification (verificationError failure cause))"

definition bodyOf :: "body \<Rightarrow> bodyReader \<Rightarrow> bodyReader option" where
  "bodyOf b reader = (case b of NilBody \<Rightarrow> None | _ \<Rightarrow> Some reader)"

text \<open>Whether the selected signature covers the content digest, and the policy for that.\<close>

definition contentPolicy ::
  "VerifyingRoundTripper \<Rightarrow> Request \<Rightarrow> Response \<Rightarrow> string \<Rightarrow> SignatureInput list \<Rightarrow> SignatureValue list \<Rightarrow> ierr + bool" where
  "contentPolicy t relatedRequest response label inputs signatures =
     (case selectSignature label inputs signatures of
       None \<Rightarrow> Inl (wrapVerification VerificationSelection (Sentinel ErrInvalidSignedFields))
     | Some (selectedInput, _) \<Rightarrow>
         (case signatureInputAuthenticatesResponseContentDigest selectedInput (vtContentDigestAlgorithms t) of
            (verifiesContent, authenticatesDigestPolicy) \<Rightarrow>
              if \<not> responseDigestBufferingConfigured verifiesContent (vtContentDigestAlgorithms t) (vtMaxBufferedBytes t)
              then Inl (wrapVerification VerificationPolicy (Sentinel ErrInvalidHTTPIntegration))
              else if verifiesContent \<and> \<not> authenticatesDigestPolicy
              then Inl (wrapVerification VerificationPolicy (Sentinel ErrInvalidHTTPIntegration))
              else if verifiesContent \<and> responseTransitionsProtocol relatedRequest response
              then Inl (wrapVerification VerificationPolicy (Sentinel ErrInvalidHTTPIntegration))
              else if verifiesContent \<and> RespUncompressed response
              then Inl (wrapVerification VerificationBase (Sentinel ErrInvalidBodyIntegration))
              else Inr verifiesContent))"

text \<open>The fields of the response and the policy on its content digest, before any byte of the body is read.\<close>

definition inspectResponse ::
  "('p, 'd) httpsfv \<Rightarrow> VerifyingRoundTripper \<Rightarrow> Response \<Rightarrow>
   ierr + (Request \<times> Response \<times> string \<times> SignatureInput list \<times> SignatureValue list \<times> bool)" where
  "inspectResponse h t received =
     bindRes (failVerification (snapshotResponseRequest (RespRequest received))
                (\<lambda>_. wrapVerification VerificationBase (Sentinel ErrInvalidHTTPIntegration))) (\<lambda>relatedRequest.
     bindRes (failVerification (normalizeProtectedHeader (RespHeader received)) (wrapVerification VerificationBase)) (\<lambda>header.
     bindRes (failVerification (normalizeProtectedHeader (RespTrailer received)) (wrapVerification VerificationBase)) (\<lambda>_.
     let response = received\<lparr>RespHeader := header\<rparr> in
     bindRes (failVerification (ParseSignatureInputs h (headerValues header ''Signature-Input''))
                (\<lambda>_. wrapVerification VerificationSelection (Sentinel ErrInvalidSignatureInput))) (\<lambda>inputs.
     bindRes (failVerification (ParseSignatures h (headerValues header ''Signature''))
                (\<lambda>_. wrapVerification VerificationSelection (Sentinel ErrInvalidSignature))) (\<lambda>signatures.
     bindRes (failVerification (selectedLabel (vtSelectLabel t (cloneRequestSnapshot relatedRequest)
                                  (responseCallbackSnapshot response relatedRequest) inputs signatures))
                (wrapVerification VerificationSelection)) (\<lambda>label.
     bindRes (contentPolicy t relatedRequest response label inputs signatures) (\<lambda>verifiesContent.
     Inr (relatedRequest, response, label, inputs, signatures, verifiesContent))))))))"

text \<open>The bounded read and digest check of the content, which replace the body.\<close>

definition verifyContent ::
  "('p, 'd) httpsfv \<Rightarrow> hashes \<Rightarrow> receiveEnv \<Rightarrow> VerifyingRoundTripper \<Rightarrow> Response \<Rightarrow> ierr + (Response \<times> bytes)" where
  "verifyContent h H renv t response =
     bindRes (failVerification (ParseDigestFields h (headerValues (RespHeader response) ''Content-Digest''))
                (\<lambda>_. wrapVerification VerificationBase (Sentinel ErrInvalidDigestField))) (\<lambda>digestField.
     bindRes (failVerification (readBoundedAndClose (rcContext renv) (bodyOf (RespBody response) (rcBody renv))
                                  (vtMaxBufferedBytes t)) (\<lambda>err. VerificationFailed (GoError err))) (\<lambda>content.
     bindRes (failVerification (DigestField_Verify H digestField content (vtContentDigestAlgorithms t))
                (\<lambda>err. VerificationFailed (GoError err))) (\<lambda>_.
     bindRes (failVerification (normalizeProtectedHeader (rcTrailerAfterRead renv))
                (\<lambda>err. VerificationFailed (GoError err))) (\<lambda>trailer.
     Inr (response\<lparr>RespTrailer := trailer, RespBody := SomeBody, RespContentLength := go_len content\<rparr>, content)))))"

definition verificationFailed :: "verr \<Rightarrow> ierr" where
  "verificationFailed err = (case err of VPanic m \<Rightarrow> GoError (GoPanic m) | _ \<Rightarrow> VerificationFailed (Verification err))"

text \<open>
  A failure comes with whether the received body was closed: by \<^verbatim>\<open>fail\<close>, or by the bounded read when the
  content was being verified.
\<close>

definition closeFailed :: "Response \<Rightarrow> ierr \<Rightarrow> ierr \<times> bool" where
  "closeFailed received err =
     (err, (case err of GoError (GoPanic m) \<Rightarrow> False | _ \<Rightarrow> RespBody received \<noteq> NilBody))"

definition VerifyingRoundTripper_RoundTrip ::
  "('p, 'd) httpsfv \<Rightarrow> urls \<Rightarrow> hashes \<Rightarrow> crypto \<Rightarrow> 's verifyEnv \<Rightarrow> receiveEnv \<Rightarrow> VerifyingRoundTripper option \<Rightarrow>
   Response option res \<Rightarrow> Request option \<Rightarrow> 's \<Rightarrow> (ierr \<times> bool + verifiedResponse) \<times> 's" where
  "VerifyingRoundTripper_RoundTrip h u H P env renv transport reply request s =
     (case (transport, request) of
        (Some t, Some r) \<Rightarrow>
          (case reply of
             Inl err \<Rightarrow> (Inl (GoError err, False), s)
           | Inr None \<Rightarrow> (Inl (GoError (Sentinel ErrHTTPIntegrationVerification), False), s)
           | Inr (Some received) \<Rightarrow>
               (case inspectResponse h t received of
                  Inl err \<Rightarrow> (Inl (closeFailed received err), s)
                | Inr (relatedRequest, response, label, inputs, signatures, verifiesContent) \<Rightarrow>
                    (case (if verifiesContent
                           then map_sum id (\<lambda>(r, c). (r, Some c)) (verifyContent h H renv t response)
                           else Inr (response, None)) of
                       Inl err \<Rightarrow> (Inl (closeFailed received err), s)
                     | Inr (response', content) \<Rightarrow>
                         let messageResponse =
                               (if verifiesContent
                                then (responseCallbackSnapshot response' relatedRequest)
                                       \<lparr>RespContentLength := RespContentLength response\<rparr>
                                else response')
                         in (case failVerification
                                    (externalContext (vtExternalContext t)
                                       (cloneRequestSnapshot relatedRequest, responseCallbackSnapshot response' relatedRequest)
                                       (Sentinel ErrInvalidHTTPIntegration))
                                    (wrapVerification VerificationBase) of
                               Inl err \<Rightarrow> (Inl (closeFailed received err), s)
                             | Inr external \<Rightarrow>
                                 (case Verifier_Verify h u H P env (vtVerifier t)
                                         (responseMessage messageResponse relatedRequest external ResponseTransportReceived)
                                         label inputs signatures s of
                                    (Inl err, s') \<Rightarrow> (Inl (closeFailed received (verificationFailed err)), s')
                                  | (Inr verified, s') \<Rightarrow>
                                      (Inr \<lparr>vrResponse = response'\<lparr>RespRequest := Some relatedRequest\<rparr>,
                                            vrContent = content, vrVerified = verified\<rparr>, s'))))))
      | _ \<Rightarrow> (Inl (GoError (Sentinel ErrInvalidHTTPIntegration), False), s))"

section \<open>Laws of the buffering writer\<close>

definition wfBuffer :: "bufferedResponseWriter \<Rightarrow> bool" where
  "wfBuffer w \<longleftrightarrow>
     go_len (bwBody w) \<le> bwMaxBytes w \<and> (bwStatus w = 0 \<longleftrightarrow> bwCommittedHeader w = None) \<and>
     (bwBody w = [] \<or> responseBodyAllowed (bwStatus w)) \<and>
     (bwStatus w = 0 \<or> bwStatus w = 101 \<or> 200 \<le> bwStatus w \<and> bwStatus w \<le> 999)"

lemma bw_WriteHeader_ok:
  "bw_WriteHeader status w = Inr w' \<Longrightarrow> wfBuffer w \<Longrightarrow>
   wfBuffer w' \<and> bwMaxBytes w' = bwMaxBytes w \<and> bwBody w' = bwBody w \<and> bwTooLarge w' = bwTooLarge w \<and>
   (bwStatus w = 0 \<or> bwStatus w' = bwStatus w \<and> bwCommittedHeader w' = bwCommittedHeader w)"
  by (auto simp: bw_WriteHeader_def wfBuffer_def responseBodyAllowed_def split: if_splits)

lemma bw_Write_ok:
  assumes "bw_Write content w = Inr (r, w')" "wfBuffer w"
  shows "wfBuffer w' \<and> bwMaxBytes w' = bwMaxBytes w \<and> prefix (bwBody w) (bwBody w') \<and> (bwTooLarge w \<longrightarrow> bwTooLarge w') \<and>
    (bwStatus w = 0 \<or> bwStatus w' = bwStatus w \<and> bwCommittedHeader w' = bwCommittedHeader w)"
proof -
  obtain w1 where 1: "(if bwStatus w = 0 then bw_WriteHeader 200 w else Inr w) = Inr w1"
    using assms(1) unfolding bw_Write_def bindRes_Inr by blast
  then have w1: "wfBuffer w1 \<and> bwMaxBytes w1 = bwMaxBytes w \<and> bwBody w1 = bwBody w \<and> bwTooLarge w1 = bwTooLarge w \<and>
      (bwStatus w = 0 \<or> bwStatus w1 = bwStatus w \<and> bwCommittedHeader w1 = bwCommittedHeader w)"
    using bw_WriteHeader_ok assms(2) by (auto split: if_splits)
  moreover have "w' = w1 \<or> w' = w1\<lparr>bwTooLarge := True\<rparr> \<or>
      responseBodyAllowed (bwStatus w1) \<and> go_len content \<le> bwMaxBytes w1 - go_len (bwBody w1) \<and>
      w' = w1\<lparr>bwBody := bwBody w1 @ content\<rparr>"
    using assms(1) unfolding bw_Write_def 1 bindRes_simps by (auto split: if_split_asm)
  ultimately show ?thesis unfolding wfBuffer_def by (elim disjE) (auto simp: prefix_def)
qed

lemma runHandler_ok:
  "runHandler ops w = Inr w' \<Longrightarrow> wfBuffer w \<Longrightarrow>
   wfBuffer w' \<and> bwMaxBytes w' = bwMaxBytes w \<and> prefix (bwBody w) (bwBody w') \<and> (bwTooLarge w \<longrightarrow> bwTooLarge w') \<and>
   (bwStatus w = 0 \<or> bwStatus w' = bwStatus w \<and> bwCommittedHeader w' = bwCommittedHeader w)"
proof (induction ops w rule: runHandler.induct)
  case (2 header ops w)
  then show ?case by (fastforce simp: wfBuffer_def)
next
  case (3 status ops w)
  then obtain w1 where "bw_WriteHeader status w = Inr w1" "runHandler ops w1 = Inr w'" by (auto simp: bindRes_Inr)
  with 3 bw_WriteHeader_ok [of status w w1] show ?case by (metis)
next
  case (4 content ops w)
  then obtain r w1 where w1: "bw_Write content w = Inr (r, w1)" "runHandler ops w1 = Inr w'" by (auto simp: bindRes_Inr)
  note s = bw_Write_ok [OF w1(1) "4.prems"(2)]
  with "4.IH" w1 have i: "wfBuffer w' \<and> bwMaxBytes w' = bwMaxBytes w1 \<and> prefix (bwBody w1) (bwBody w') \<and>
    (bwTooLarge w1 \<longrightarrow> bwTooLarge w') \<and>
    (bwStatus w1 = 0 \<or> bwStatus w' = bwStatus w1 \<and> bwCommittedHeader w' = bwCommittedHeader w1)" by simp
  with s show ?case by (metis prefix_order.order_trans)
qed auto

lemma newBuffer_wf: "0 \<le> n \<Longrightarrow> wfBuffer ((newBufferedResponseWriter n)\<lparr>bwHeader := header\<rparr>)"
  by (simp add: wfBuffer_def newBufferedResponseWriter_def)

text \<open>When the body is dropped the content is empty, so the bound holds in every case.\<close>

lemma frameBufferedResponse_ok:
  "frameBufferedResponse request response content = Inr (framed, out) \<Longrightarrow>
   (out = [] \<or> out = content) \<and> RespStatusCode framed = RespStatusCode response"
  by (auto simp: frameBufferedResponse_def bindRes_Inr split: if_splits)

lemma addContentDigest_ok:
  assumes "addContentDigest h H algorithms content header = Inr out" "algorithms \<noteq> []"
  obtains v where "out = headerSet header ''Content-Digest'' v"
    "DigestField_String h (case ComputeDigests H algorithms content of Inl _ \<Rightarrow> [] | Inr d \<Rightarrow> d) = Inr v"
  using assms that by (auto simp: addContentDigest_def Let_def bindRes_Inr split: if_splits)

lemma digest_survives:
  "headerValues (headerSet (headerSet (headerSet header ''Content-Digest'' d) ''Signature-Input'' i) ''Signature'' v)
     ''Content-Digest'' = [d]"
  by (simp add: headerValues_def headerSet_def headerPut_values headerPut_other)

section \<open>Laws of response verification\<close>

lemma failVerification_Inr [simp]: "failVerification r f = Inr x \<longleftrightarrow> r = Inr x"
  by (auto simp: failVerification_def split: sum.splits goerr.splits)

text \<open>The failures after a response was received: wrapped verification failures, or a callee's panic.\<close>

definition failedOrPanic :: "ierr + 'a \<Rightarrow> bool" where
  "failedOrPanic r \<longleftrightarrow>
     (case r of Inr _ \<Rightarrow> True | Inl (VerificationFailed c) \<Rightarrow> True | Inl (GoError (GoPanic m)) \<Rightarrow> True | Inl _ \<Rightarrow> False)"

lemma failedOrPanic_simps [simp]: "failedOrPanic (Inr x)" "failedOrPanic (Inl (VerificationFailed c))"
  "failedOrPanic (Inl (GoError (GoPanic m)))"
  by (simp_all add: failedOrPanic_def)

lemma failedOrPanic_bind [intro]: "failedOrPanic r \<Longrightarrow> (\<And>x. failedOrPanic (f x)) \<Longrightarrow> failedOrPanic (bindRes r f)"
  by (cases r) (auto simp: failedOrPanic_def)

lemma failedOrPanic_fail [intro]: "(\<And>e. \<exists>c. f e = VerificationFailed c) \<Longrightarrow> failedOrPanic (failVerification r f)"
  unfolding failVerification_def
  by (simp split: sum.split goerr.split) (metis failedOrPanic_simps(2))

lemma failedOrPanic_inspect: "failedOrPanic (inspectResponse h t received)"
  unfolding inspectResponse_def contentPolicy_def Let_def
  by (intro failedOrPanic_bind failedOrPanic_fail) (auto split: option.split prod.split)

lemma failedOrPanic_content: "failedOrPanic (verifyContent h H renv t response)"
  unfolding verifyContent_def by (intro failedOrPanic_bind failedOrPanic_fail) auto

lemma failedOrPanic_verr: "failedOrPanic (Inl (verificationFailed err) :: ierr + unit)"
  by (cases err) (simp_all add: verificationFailed_def)

definition properResult :: "Response \<Rightarrow> (ierr \<times> bool + 'a) \<times> 's \<Rightarrow> bool" where
  "properResult received q \<longleftrightarrow>
     (case fst q of Inr _ \<Rightarrow> True | Inl x \<Rightarrow> \<exists>e. failedOrPanic (Inl e :: ierr + unit) \<and> x = closeFailed received e)"

lemma properResult_simps [simp]:
  "properResult received (Inr x, s)"
  "failedOrPanic (Inl e :: ierr + unit) \<Longrightarrow> properResult received (Inl (closeFailed received e), s)"
  by (auto simp: properResult_def)

lemma properResult_cases:
  assumes "properResult received q"
  obtains x s where "q = (Inr x, s)"
  | e s where "failedOrPanic (Inl e :: ierr + unit)" "q = (Inl (closeFailed received e), s)"
  using assms by (cases q; cases "fst q") (auto simp: properResult_def)

lemma closeFailed_cases:
  "failedOrPanic (Inl e :: ierr + unit) \<Longrightarrow>
   (case closeFailed received e of (err, closed) \<Rightarrow>
      (\<exists>c. err = VerificationFailed c) \<and> closed = (RespBody received \<noteq> NilBody) \<or> (\<exists>m. err = GoError (GoPanic m)))"
  by (auto simp: failedOrPanic_def closeFailed_def split: ierr.splits goerr.splits)

lemma inspectResponse_ok:
  assumes "inspectResponse h t received = Inr (related, response, label, inputs, signatures, verifies)"
  obtains input signature auth where
    "normalizeProtectedHeader (RespHeader received) = Inr (RespHeader response)"
    "response = received\<lparr>RespHeader := RespHeader response\<rparr>"
    "ParseSignatureInputs h (headerValues (RespHeader response) ''Signature-Input'') = Inr inputs"
    "ParseSignatures h (headerValues (RespHeader response) ''Signature'') = Inr signatures"
    "selectSignature label inputs signatures = Some (input, signature)"
    "signatureInputAuthenticatesResponseContentDigest input (vtContentDigestAlgorithms t) = (verifies, auth)"
    "verifies \<Longrightarrow> auth \<and> \<not> RespUncompressed response \<and> \<not> responseTransitionsProtocol related response"
proof -
  obtain header where i: "normalizeProtectedHeader (RespHeader received) = Inr header"
    "response = received\<lparr>RespHeader := header\<rparr>"
    "ParseSignatureInputs h (headerValues header ''Signature-Input'') = Inr inputs"
    "ParseSignatures h (headerValues header ''Signature'') = Inr signatures"
    "contentPolicy t related response label inputs signatures = Inr verifies"
    using assms unfolding inspectResponse_def Let_def bindRes_Inr failVerification_Inr by auto
  then show ?thesis
    using that by (auto simp: contentPolicy_def split: option.splits prod.splits if_splits)
qed

lemma verifyContent_ok:
  assumes "verifyContent h H renv t response = Inr (response', content)"
  obtains field trailer where
    "ParseDigestFields h (headerValues (RespHeader response) ''Content-Digest'') = Inr field"
    "readBoundedAndClose (rcContext renv) (bodyOf (RespBody response) (rcBody renv)) (vtMaxBufferedBytes t) = Inr content"
    "DigestField_Verify H field content (vtContentDigestAlgorithms t) = Inr ()"
    "response' = response\<lparr>RespTrailer := trailer, RespBody := SomeBody, RespContentLength := go_len content\<rparr>"
  using assms that by (auto simp: verifyContent_def bindRes_Inr)

text \<open>What a signature over the field, or over its members, says about the algorithms of the policy.\<close>

definition coversDigestFor :: "SignatureInput \<Rightarrow> DigestAlgorithm \<Rightarrow> bool" where
  "coversDigestFor input a \<longleftrightarrow>
     (\<exists>c \<in> set (InComponents input). CompName c = ''content-digest'' \<and>
        \<not> componentParameterTrue c ''req'' \<and> \<not> componentParameterTrue c ''tr'' \<and>
        (ComponentIdentifier_Parameter c ''key'' = None \<or> ComponentIdentifier_Parameter c ''key'' = Some (VString a)))"

lemma responseDigestCoverage_loop_ok:
  "responseDigestCoverage_loop covered whole keyed cs = (covered', whole', keyed') \<Longrightarrow>
   (whole' \<longleftrightarrow> whole \<or> (\<exists>c \<in> set cs. CompName c = ''content-digest'' \<and> \<not> componentParameterTrue c ''req'' \<and>
      \<not> componentParameterTrue c ''tr'' \<and> ComponentIdentifier_Parameter c ''key'' = None)) \<and>
   (a \<in> keyed' \<longleftrightarrow> a \<in> keyed \<or> (\<exists>c \<in> set cs. CompName c = ''content-digest'' \<and> \<not> componentParameterTrue c ''req'' \<and>
      \<not> componentParameterTrue c ''tr'' \<and> ComponentIdentifier_Parameter c ''key'' = Some (VString a)))"
proof (induction covered whole keyed cs rule: responseDigestCoverage_loop.induct)
  case (2 covered whole keyed c cs)
  show ?case
  proof (cases "CompName c \<noteq> ''content-digest'' \<or> componentParameterTrue c ''req'' \<or> componentParameterTrue c ''tr''")
    case True
    then show ?thesis using 2 by auto
  next
    case False
    show ?thesis
    proof (cases "ComponentIdentifier_Parameter c ''key''")
      case None
      then show ?thesis using 2 False by auto
    next
      case (Some v)
      then show ?thesis using 2 False by (cases v) auto
    qed
  qed
qed auto

lemma authenticates_covers:
  assumes "signatureInputAuthenticatesResponseContentDigest input as = (True, True)" "a \<in> set as"
  shows "coversDigestFor input a"
proof -
  obtain covered whole keyed where c: "responseContentDigestCoverage input = (covered, whole, keyed)"
    by (cases "responseContentDigestCoverage input") auto
  then have "whole \<or> a \<in> keyed"
    using assms by (auto simp: signatureInputAuthenticatesResponseContentDigest_def list_all_iff split: if_splits)
  then show ?thesis
    using responseDigestCoverage_loop_ok [OF c [unfolded responseContentDigestCoverage_def], of a]
    by (auto simp: coversDigestFor_def)
qed

lemma VerifyingRoundTripper_ok:
  assumes "VerifyingRoundTripper_RoundTrip h u H P env renv (Some t) (Inr (Some received)) (Some r) s = (Inr out, s')"
  obtains related response label inputs signatures verifies response' content mr external where
    "inspectResponse h t received = Inr (related, response, label, inputs, signatures, verifies)"
    "if verifies then \<exists>c. content = Some c \<and> verifyContent h H renv t response = Inr (response', c)
     else content = None \<and> response' = response"
    "Verifier_Verify h u H P env (vtVerifier t) (responseMessage mr related external ResponseTransportReceived)
       label inputs signatures s = (Inr (vrVerified out), s')"
    "RespHeader mr = RespHeader response'" "RespStatusCode mr = RespStatusCode response'"
    "vrResponse out = response'\<lparr>RespRequest := Some related\<rparr>" "vrContent out = content"
proof -
  obtain related response label inputs signatures verifies where i:
    "inspectResponse h t received = Inr (related, response, label, inputs, signatures, verifies)"
    using assms by (auto simp: VerifyingRoundTripper_RoundTrip_def split: sum.splits)
  let ?c = "if verifies then map_sum id (\<lambda>(r, c). (r, Some c)) (verifyContent h H renv t response) else Inr (response, None)"
  obtain response' content where c: "?c = Inr (response', content)"
    using assms i by (auto simp: VerifyingRoundTripper_RoundTrip_def split: sum.splits if_splits)
  define mr where "mr = (if verifies then (responseCallbackSnapshot response' related)\<lparr>RespContentLength := RespContentLength response\<rparr>
    else response')"
  obtain external where v: "Verifier_Verify h u H P env (vtVerifier t) (responseMessage mr related external ResponseTransportReceived)
       label inputs signatures s = (Inr (vrVerified out), s')"
    "out = \<lparr>vrResponse = response'\<lparr>RespRequest := Some related\<rparr>, vrContent = content, vrVerified = vrVerified out\<rparr>"
    using assms i c mr_def [symmetric]
    by (simp add: VerifyingRoundTripper_RoundTrip_def Let_def split: sum.splits prod.splits) auto
  have "if verifies then \<exists>c. content = Some c \<and> verifyContent h H renv t response = Inr (response', c)
     else content = None \<and> response' = response"
    using c by (cases "verifyContent h H renv t response") (auto split: if_splits prod.splits)
  moreover have "RespHeader mr = RespHeader response'" "RespStatusCode mr = RespStatusCode response'"
    by (simp_all add: mr_def responseCallbackSnapshot_def)
  moreover have "vrResponse out = response'\<lparr>RespRequest := Some related\<rparr>" "vrContent out = content"
    using v(2) by (metis verifiedResponse.simps(1), metis verifiedResponse.simps(2))
  ultimately show ?thesis using that i v(1) by blast
qed

section \<open>Example\<close>

definition exampleResponseProfile :: SigningProfile where
  "exampleResponseProfile =
     exampleSigningProfile\<lparr>SPComponents := [contentDigestComponent]\<rparr>"

definition exampleResponseSigning :: responseSigning where
  "exampleResponseSigning =
     \<lparr>rsSigner = Some exampleResponseProfile, rsLabel = ''s'', rsExisting = ExistingSignaturesReject, rsMaxBufferedBytes = 4,
      rsDigestAlgorithms = [SHA256], rsOptions = (\<lambda>_ _. Inr ''n''), rsExternalContext = None\<rparr>"

definition exampleSignedResponse :: "emitted res" where
  "exampleSignedResponse =
     ResponseSigning_ServeHTTP exampleWire exampleURLs exampleHashes exampleCrypto exampleSignEnv (\<lambda>c. (go_len c, None))
       exampleResponseSigning [] (Some [CallWriteHeader 201, CallWrite ''hi'']) (Some exampleRequest)"

lemma exampleSignedResponse_ok: "isOk exampleSignedResponse"
  by code_simp

definition exampleBody :: bodyReader where
  "exampleBody =
     \<lparr>brRead = (\<lambda>_. \<lparr>rrCount = 2, rrBuffer = (\<lambda>i. if i = 0 then CHR ''h'' else CHR ''i''), rrErr = Some (Sentinel IoEOF)\<rparr>),
      brClose = None\<rparr>"

definition exampleResponseFields :: SignedFields where
  "exampleResponseFields =
     \<lparr>SFInput = (SFInput exampleSignedFields)\<lparr>InComponents := SPComponents exampleResponseProfile\<rparr>,
      SFSignature =
        \<lparr>SigLabel = ''s'',
         SigValue = ''kkkk'' @ quote ''content-digest'' @ '': sha-256=v'' @
           [CHR 0x0A] @ quote ''@signature-params'' @ '': ('' @ quote ''content-digest'' @
           '');created=1000;expires=1010;nonce='' @ quote ''n'' @ '';keyid='' @ quote ''k'',
         SigParameters = []\<rparr>\<rparr>"

definition exampleReceived :: Response where
  "exampleReceived =
     \<lparr>RespStatusCode = 200, RespProtoMajor = 1, RespProtoMinor = 1,
      RespHeader = [(''Content-Digest'', [''sha-256=v'']), (''Signature-Input'', [''s=i'']), (''Signature'', [''s=v''])],
      RespBody = SomeBody, RespContentLength = 2, RespTransferEncoding = [], RespClose = False,
      RespUncompressed = False, RespTrailer = [], RespRequest = Some exampleRequest\<rparr>"

definition exampleVerifying :: VerifyingRoundTripper where
  "exampleVerifying =
     \<lparr>vtVerifier = Some (exampleVerificationProfile\<lparr>VPRequiredComponents := [contentDigestComponent]\<rparr>),
      vtSelectLabel = (\<lambda>_ _ _ _. Inr ''s''), vtContentDigestAlgorithms = [SHA256], vtMaxBufferedBytes = 4,
      vtExternalContext = None\<rparr>"

definition exampleReceiving :: "bytes \<Rightarrow> (ierr \<times> bool + verifiedResponse) \<times> (string \<times> string) list" where
  "exampleReceiving digest =
     VerifyingRoundTripper_RoundTrip (wireFor exampleResponseFields digest) exampleURLs exampleHashes exampleCrypto
       (exampleVerifyEnv exampleConsume) \<lparr>rcContext = background, rcBody = exampleBody, rcTrailerAfterRead = []\<rparr>
       (Some exampleVerifying) (Inr (Some exampleReceived)) (Some exampleRequest) []"

lemma exampleReceiving_ok:
  "case exampleReceiving ''Ahi'' of (Inr out, s) \<Rightarrow> vrContent out = Some ''hi'' | _ \<Rightarrow> False"
  by code_simp

section \<open>Properties\<close>

text \<open>The buffering writer keeps its invariant under every sequence of handler operations: it never holds more
  than its limit, it holds content only under a status that admits content, and the first final status, with
  the header of that moment, is the one that is sent.\<close>

theorem buffered_writer_invariant:
  assumes "0 \<le> n" "runHandler ops ((newBufferedResponseWriter n)\<lparr>bwHeader := header\<rparr>) = Inr w"
  shows "wfBuffer w \<and> bwMaxBytes w = n \<and>
    (\<forall>more w'. runHandler more w = Inr w' \<longrightarrow>
       wfBuffer w' \<and> prefix (bwBody w) (bwBody w') \<and>
       (bwStatus w = 0 \<or> bwStatus w' = bwStatus w \<and> bwCommittedHeader w' = bwCommittedHeader w))"
proof -
  have w: "wfBuffer w \<and> bwMaxBytes w = n"
    using runHandler_ok [OF assms(2) newBuffer_wf [OF assms(1)]] by (simp add: newBufferedResponseWriter_def)
  then show ?thesis using runHandler_ok [of _ w] by blast
qed

theorem buffered_writer_invariant_witness:
  "\<exists>w. runHandler [CallWriteHeader 201, CallWrite ''hi'', CallWriteHeader 500] ((newBufferedResponseWriter 4)\<lparr>bwHeader := []\<rparr>) =
     Inr w \<and> wfBuffer w \<and> bwStatus w = 201"
proof -
  have "case runHandler [CallWriteHeader 201, CallWrite ''hi'', CallWriteHeader 500]
      ((newBufferedResponseWriter 4)\<lparr>bwHeader := []\<rparr>) of Inr w \<Rightarrow> bwStatus w = 201 | Inl _ \<Rightarrow> False" by code_simp
  then obtain w where w: "runHandler [CallWriteHeader 201, CallWrite ''hi'', CallWriteHeader 500]
      ((newBufferedResponseWriter 4)\<lparr>bwHeader := []\<rparr>) = Inr w" "bwStatus w = 201" by (auto split: sum.splits)
  from buffered_writer_invariant [OF _ w(1)] w show ?thesis by auto
qed



text \<open>C28. A response whose content the signature claims is returned with that content checked: when the selected
  signature covers the response's \<^verbatim>\<open>Content-Digest\<close>, the returned body is the whole received content, within
  the limit, every algorithm of the policy has its exact checksum in the parsed field, and the verified
  signature covers the field entirely or the member of every such algorithm. Otherwise no content is
  claimed. In both cases the verified message has the header that is returned.\<close>

theorem verified_response_content:
  assumes "VerifyingRoundTripper_RoundTrip h u H P env renv (Some t) (Inr (Some received)) (Some r) s = (Inr out, s')"
  shows "\<exists>label inputs signatures input signature mr related external.
    selectSignature label inputs signatures = Some (input, signature) \<and>
    Verifier_Verify h u H P env (vtVerifier t) (responseMessage mr related external ResponseTransportReceived)
      label inputs signatures s = (Inr (vrVerified out), s') \<and>
    RespHeader mr = RespHeader (vrResponse out) \<and>
    (case vrContent out of
       None \<Rightarrow> \<not> signatureInputCoversResponseContentDigest input
     | Some content \<Rightarrow>
         readBoundedAndClose (rcContext renv) (bodyOf (RespBody received) (rcBody renv)) (vtMaxBufferedBytes t) = Inr content \<and>
         RespContentLength (vrResponse out) = go_len content \<and>
         (\<exists>field. ParseDigestFields h (headerValues (RespHeader (vrResponse out)) ''Content-Digest'') = Inr field \<and>
            (\<forall>a \<in> set (vtContentDigestAlgorithms t).
               (\<exists>v. fieldValue field a = Some v \<and> checksum H a content = Inr v) \<and> coversDigestFor input a)))"
proof -
  obtain related response label inputs signatures verifies response' content mr external where
    o: "inspectResponse h t received = Inr (related, response, label, inputs, signatures, verifies)"
    "if verifies then \<exists>c. content = Some c \<and> verifyContent h H renv t response = Inr (response', c)
     else content = None \<and> response' = response"
    "Verifier_Verify h u H P env (vtVerifier t) (responseMessage mr related external ResponseTransportReceived)
       label inputs signatures s = (Inr (vrVerified out), s')"
    "RespHeader mr = RespHeader response'" "RespStatusCode mr = RespStatusCode response'"
    "vrResponse out = response'\<lparr>RespRequest := Some related\<rparr>" "vrContent out = content"
    by (rule VerifyingRoundTripper_ok [OF assms])
  obtain input signature auth where i: "response = received\<lparr>RespHeader := RespHeader response\<rparr>"
    "selectSignature label inputs signatures = Some (input, signature)"
    "signatureInputAuthenticatesResponseContentDigest input (vtContentDigestAlgorithms t) = (verifies, auth)"
    "verifies \<Longrightarrow> auth \<and> \<not> RespUncompressed response \<and> \<not> responseTransitionsProtocol related response"
    by (rule inspectResponse_ok [OF o(1)]) blast
  have body: "RespBody response = RespBody received" by (subst i(1)) simp
  have "case content of
       None \<Rightarrow> \<not> signatureInputCoversResponseContentDigest input
     | Some content \<Rightarrow>
         readBoundedAndClose (rcContext renv) (bodyOf (RespBody received) (rcBody renv)) (vtMaxBufferedBytes t) = Inr content \<and>
         RespContentLength (vrResponse out) = go_len content \<and>
         (\<exists>field. ParseDigestFields h (headerValues (RespHeader (vrResponse out)) ''Content-Digest'') = Inr field \<and>
            (\<forall>a \<in> set (vtContentDigestAlgorithms t).
               (\<exists>v. fieldValue field a = Some v \<and> checksum H a content = Inr v) \<and> coversDigestFor input a))"
  proof (cases verifies)
    case True
    then obtain c where c: "content = Some c" "verifyContent h H renv t response = Inr (response', c)" using o(2) by auto
    obtain field trailer where f: "ParseDigestFields h (headerValues (RespHeader response) ''Content-Digest'') = Inr field"
      "readBoundedAndClose (rcContext renv) (bodyOf (RespBody response) (rcBody renv)) (vtMaxBufferedBytes t) = Inr c"
      "DigestField_Verify H field c (vtContentDigestAlgorithms t) = Inr ()"
      "response' = response\<lparr>RespTrailer := trailer, RespBody := SomeBody, RespContentLength := go_len c\<rparr>"
      by (rule verifyContent_ok [OF c(2)])
    have "signatureInputAuthenticatesResponseContentDigest input (vtContentDigestAlgorithms t) = (True, True)"
      using i(3,4) True by simp
    from authenticates_covers [OF this] f(3) DigestField_Verify_iff [of H field c]
    have "\<forall>a \<in> set (vtContentDigestAlgorithms t).
        (\<exists>v. fieldValue field a = Some v \<and> checksum H a c = Inr v) \<and> coversDigestFor input a" by blast
    then show ?thesis using c(1) f(1,2,4) body o(6) by simp
  next
    case False
    then have "\<not> signatureInputCoversResponseContentDigest input"
      using i(3) by (auto simp: signatureInputAuthenticatesResponseContentDigest_def
          signatureInputCoversResponseContentDigest_def split: prod.splits if_splits)
    then show ?thesis using False o(2) by simp
  qed
  moreover have "RespHeader mr = RespHeader (vrResponse out)" using o(4,6) by simp
  ultimately show ?thesis using i(2) o(3,7) by blast
qed

theorem verified_response_content_witness:
  "\<exists>out s. exampleReceiving ''Ahi'' = (Inr out, s) \<and> vrContent out = Some ''hi'' \<and>
     RespContentLength (vrResponse out) = 2"
proof -
  obtain out s where o: "exampleReceiving ''Ahi'' = (Inr out, s)" "vrContent out = Some ''hi''"
    using exampleReceiving_ok by (auto split: prod.splits sum.splits)
  from verified_response_content [OF o(1) [unfolded exampleReceiving_def]] o show ?thesis by auto
qed


end
