(* ===== verification/BodyIntegration.thy ===== *)
theory BodyIntegration
  imports ResponseIntegration
begin

text \<open>
  The buffering adapters of \<^verbatim>\<open>body_integration.go\<close>: content digests of outgoing requests, digest
  verification of incoming requests, and the verification of digests and signatures that arrive in
  trailers, for requests and for responses. The body, its context and the trailers known once it has been
  read are what one call observed (\<open>receiveEnv\<close>).
\<close>

section \<open>Coverage of the trailer digest\<close>

definition trailerDigestComponent :: ComponentIdentifier where
  "trailerDigestComponent =
     \<lparr>CompName = ''content-digest'', CompParameters = [\<lparr>ParName = ''tr'', ParValue = VBool True\<rparr>]\<rparr>"

definition coversTrailerDigest :: "('p, 'd) httpsfv \<Rightarrow> ComponentIdentifier list \<Rightarrow> bool" where
  "coversTrailerDigest h components =
     list_ex (\<lambda>component. comparisonKeyOrEmpty h component = comparisonKeyOrEmpty h trailerDigestComponent) components"

definition signingProfileCoversTrailerDigest :: "('p, 'd) httpsfv \<Rightarrow> SigningProfile \<Rightarrow> bool" where
  "signingProfileCoversTrailerDigest h profile = coversTrailerDigest h (SPComponents profile)"

definition verificationProfileCoversTrailerDigest :: "('p, 'd) httpsfv \<Rightarrow> VerificationProfile \<Rightarrow> bool" where
  "verificationProfileCoversTrailerDigest h profile = coversTrailerDigest h (VPRequiredComponents profile)"

section \<open>Digests of outgoing requests\<close>

record BufferedContentDigestRoundTripperConfig =
  BDTransport :: bool
  BDAlgorithms :: "DigestAlgorithm list"
  BDMaxBytes :: int

record BufferedContentDigestRoundTripper =
  bdAlgorithms :: "DigestAlgorithm list"
  bdMaxBytes :: int

definition NewBufferedContentDigestRoundTripper ::
  "hashes \<Rightarrow> BufferedContentDigestRoundTripperConfig \<Rightarrow> BufferedContentDigestRoundTripper res" where
  "NewBufferedContentDigestRoundTripper H config =
     (if \<not> BDTransport config \<or> BDMaxBytes config \<le> 0 then Inl (Sentinel ErrInvalidBodyIntegration)
      else if \<not> isOk (ComputeDigests H (BDAlgorithms config) []) then Inl (Sentinel ErrInvalidBodyIntegration)
      else Inr \<lparr>bdAlgorithms = [] @ BDAlgorithms config, bdMaxBytes = BDMaxBytes config\<rparr>)"

definition closeRequestBody :: "Request option \<Rightarrow> bool" where
  "closeRequestBody request = (case request of None \<Rightarrow> False | Some r \<Rightarrow> ReqBody r \<noteq> NilBody)"

text \<open>The delegated request, with the content its body and \<^verbatim>\<open>GetBody\<close> deliver, framed for its trailers.\<close>

definition frameDigestRequest :: "Request \<Rightarrow> string \<Rightarrow> bytes \<Rightarrow> Request" where
  "frameDigestRequest clone digest content =
     (let header = deleteHeaderField (deleteHeaderField (deleteHeaderField
                     (headerSet (ReqHeader clone) ''Content-Digest'' digest)
                     ''Content-Length'') ''Transfer-Encoding'') ''Trailer'';
          framed = clone\<lparr>ReqHeader := header, ReqBody := SomeBody\<rparr>
      in if ReqTrailer clone = [] then framed\<lparr>ReqContentLength := go_len content, ReqTransferEncoding := []\<rparr>
         else framed\<lparr>ReqContentLength := -1, ReqTransferEncoding := [''chunked'']\<rparr>)"

definition digestRequest ::
  "('p, 'd) httpsfv \<Rightarrow> hashes \<Rightarrow> receiveEnv \<Rightarrow> BufferedContentDigestRoundTripper \<Rightarrow> Request \<Rightarrow> (Request \<times> bytes) res" where
  "digestRequest h H renv t request =
     bindRes (normalizeProtectedRequest request) (\<lambda>clone0.
       if headerValues (ReqHeader clone0) ''Content-Digest'' \<noteq> [] then Inl (Sentinel ErrExistingDigest)
       else
         bindRes (readBoundedAndClose (rcContext renv) (bodyOf (ReqBody request) (rcBody renv)) (bdMaxBytes t)) (\<lambda>content.
         bindRes (normalizeProtectedHeader (rcTrailerAfterRead renv)) (\<lambda>trailer.
         bindRes (case ComputeDigests H (bdAlgorithms t) content of
                    Inl _ \<Rightarrow> Inl (Sentinel ErrInvalidBodyIntegration) | Inr digests \<Rightarrow> Inr digests) (\<lambda>digests.
         bindRes (DigestField_String h digests) (\<lambda>field.
         Inr (frameDigestRequest (clone0\<lparr>ReqTrailer := trailer\<rparr>) field content, content))))))"

datatype bodyDelegation = BodyRefused goerr bool | BodyDelegated Request bytes

definition BufferedContentDigestRoundTripper_RoundTrip ::
  "('p, 'd) httpsfv \<Rightarrow> hashes \<Rightarrow> receiveEnv \<Rightarrow> BufferedContentDigestRoundTripper option \<Rightarrow> Request option \<Rightarrow>
   bodyDelegation" where
  "BufferedContentDigestRoundTripper_RoundTrip h H renv transport request =
     (case (transport, request) of
        (Some t, Some r) \<Rightarrow>
          (case digestRequest h H renv t r of
             Inl err \<Rightarrow> BodyRefused err (closeRequestBody request)
           | Inr (clone, content) \<Rightarrow> BodyDelegated clone content)
      | _ \<Rightarrow> BodyRefused (Sentinel ErrInvalidBodyIntegration) False)"

section \<open>Digests of incoming requests\<close>

record BufferedContentDigestVerificationMiddlewareConfig =
  DVRequiredAlgorithms :: "DigestAlgorithm list"
  DVMaxBytes :: int
  DVMapError :: bool

record digestVerification =
  dvAlgorithms :: "DigestAlgorithm list"
  dvMaxBytes :: int

definition NewBufferedContentDigestVerificationMiddleware ::
  "hashes \<Rightarrow> BufferedContentDigestVerificationMiddlewareConfig \<Rightarrow> digestVerification res" where
  "NewBufferedContentDigestVerificationMiddleware H config =
     (if DVMaxBytes config \<le> 0 \<or> \<not> DVMapError config then Inl (Sentinel ErrInvalidBodyIntegration)
      else if \<not> isOk (ComputeDigests H (DVRequiredAlgorithms config) []) then Inl (Sentinel ErrInvalidBodyIntegration)
      else Inr \<lparr>dvAlgorithms = [] @ DVRequiredAlgorithms config, dvMaxBytes = DVMaxBytes config\<rparr>)"

text \<open>\<open>Inr\<close>: the request the next handler serves and the content of its body. \<open>Inl\<close>: what \<^verbatim>\<open>MapError\<close> receives.\<close>

definition verifyRequestDigest ::
  "('p, 'd) httpsfv \<Rightarrow> hashes \<Rightarrow> receiveEnv \<Rightarrow> digestVerification \<Rightarrow> Request \<Rightarrow> (Request \<times> bytes) res" where
  "verifyRequestDigest h H renv m request =
     bindRes (normalizeProtectedRequest request) (\<lambda>verifiedRequest.
     bindRes (classified (Sentinel ErrInvalidDigestField)
                (ParseDigestFields h (headerValues (ReqHeader verifiedRequest) ''Content-Digest''))) (\<lambda>field.
     bindRes (readBoundedAndClose (rcContext renv) (bodyOf (ReqBody verifiedRequest) (rcBody renv)) (dvMaxBytes m)) (\<lambda>content.
     bindRes (normalizeProtectedHeader (rcTrailerAfterRead renv)) (\<lambda>trailer.
     bindRes (DigestField_Verify H field content (dvAlgorithms m)) (\<lambda>_.
     Inr (verifiedRequest\<lparr>ReqTrailer := trailer, ReqBody := SomeBody\<rparr>, content))))))"

definition DigestVerification_ServeHTTP ::
  "('p, 'd) httpsfv \<Rightarrow> hashes \<Rightarrow> receiveEnv \<Rightarrow> digestVerification \<Rightarrow> bool \<Rightarrow> Request option \<Rightarrow>
   goerr \<times> bool + Request \<times> bytes" where
  "DigestVerification_ServeHTTP h H renv m hasNext request =
     (case request of
        None \<Rightarrow> Inl (Sentinel ErrInvalidBodyIntegration, False)
      | Some r \<Rightarrow>
          if \<not> hasNext then Inl (Sentinel ErrInvalidBodyIntegration, False)
          else case verifyRequestDigest h H renv m r of
                 Inl err \<Rightarrow> Inl (err, closeRequestBody request)
               | Inr served \<Rightarrow> Inr served)"

section \<open>Trailers of incoming requests\<close>

record BufferedTrailerVerificationMiddlewareConfig =
  TVVerifier :: "VerificationProfile option option"
  TVSelectLabel :: "(Request \<Rightarrow> SignatureInput list \<Rightarrow> SignatureValue list \<Rightarrow> string res) option"
  TVRequiredAlgorithms :: "DigestAlgorithm list"
  TVMaxBytes :: int
  TVExternalContext :: "(Request \<Rightarrow> ExternalRequestContext option res) option"
  TVMapError :: bool

record trailerVerification =
  tvVerifier :: VerificationProfile
  tvSelectLabel :: "Request \<Rightarrow> SignatureInput list \<Rightarrow> SignatureValue list \<Rightarrow> string res"
  tvAlgorithms :: "DigestAlgorithm list"
  tvMaxBytes :: int
  tvExternalContext :: "(Request \<Rightarrow> ExternalRequestContext option res) option"

definition NewBufferedTrailerVerificationMiddleware ::
  "('p, 'd) httpsfv \<Rightarrow> hashes \<Rightarrow> BufferedTrailerVerificationMiddlewareConfig \<Rightarrow> trailerVerification res" where
  "NewBufferedTrailerVerificationMiddleware h H config =
     (case (TVVerifier config, TVSelectLabel config) of
        (Some (Some profile), Some select) \<Rightarrow>
          if TVMaxBytes config \<le> 0 \<or> \<not> TVMapError config \<or> \<not> verificationProfileCoversTrailerDigest h profile
          then Inl (Sentinel ErrInvalidBodyIntegration)
          else if \<not> isOk (ComputeDigests H (TVRequiredAlgorithms config) []) then Inl (Sentinel ErrInvalidBodyIntegration)
          else Inr \<lparr>tvVerifier = profile, tvSelectLabel = select, tvAlgorithms = [] @ TVRequiredAlgorithms config,
                    tvMaxBytes = TVMaxBytes config, tvExternalContext = TVExternalContext config\<rparr>
      | _ \<Rightarrow> Inl (Sentinel ErrInvalidBodyIntegration))"

text \<open>Everything before the signature is verified.\<close>

definition trailerInputs ::
  "('p, 'd) httpsfv \<Rightarrow> hashes \<Rightarrow> receiveEnv \<Rightarrow> trailerVerification \<Rightarrow> Request \<Rightarrow>
   ierr + (Request \<times> bytes \<times> MessageContext \<times> string \<times> SignatureInput list \<times> SignatureValue list)" where
  "trailerInputs h H renv m request =
     bindRes (liftErr (normalizeProtectedRequest request)) (\<lambda>clone.
     bindRes (liftErr (readBoundedAndClose (rcContext renv) (bodyOf (ReqBody clone) (rcBody renv)) (tvMaxBytes m))) (\<lambda>content.
     bindRes (liftErr (normalizeProtectedHeader (rcTrailerAfterRead renv))) (\<lambda>trailer.
     let verifiedRequest = clone\<lparr>ReqTrailer := trailer\<rparr> in
     bindRes (failVerification (ParseDigestFields h (headerValues trailer ''Content-Digest''))
                (\<lambda>_. GoError (Sentinel ErrInvalidDigestField))) (\<lambda>digestField.
     bindRes (liftErr (DigestField_Verify H digestField content (tvAlgorithms m))) (\<lambda>_.
     bindRes (failVerification (ParseSignatureInputs h (headerValues trailer ''Signature-Input''))
                (\<lambda>_. GoError (Sentinel ErrInvalidSignatureInput))) (\<lambda>inputs.
     bindRes (failVerification (ParseSignatures h (headerValues trailer ''Signature''))
                (\<lambda>_. GoError (Sentinel ErrInvalidSignature))) (\<lambda>signatures.
     bindRes (liftErr (selectedLabel (tvSelectLabel m (cloneRequestSnapshot verifiedRequest) inputs signatures))) (\<lambda>label.
     bindRes (liftErr (externalContext (tvExternalContext m) (cloneRequestSnapshot verifiedRequest)
                         (Sentinel ErrInvalidHTTPIntegration))) (\<lambda>external.
     Inr (verifiedRequest, content, requestMessage verifiedRequest external, label, inputs, signatures))))))))))"

definition TrailerVerification_ServeHTTP ::
  "('p, 'd) httpsfv \<Rightarrow> urls \<Rightarrow> hashes \<Rightarrow> crypto \<Rightarrow> 's verifyEnv \<Rightarrow> receiveEnv \<Rightarrow> trailerVerification \<Rightarrow> bool \<Rightarrow>
   Request option \<Rightarrow> 's \<Rightarrow> (ierr + (Request \<times> bytes \<times> VerifiedSignature)) \<times> 's" where
  "TrailerVerification_ServeHTTP h u H P env renv m hasNext request s =
     (case request of
        None \<Rightarrow> (Inl (GoError (Sentinel ErrInvalidBodyIntegration)), s)
      | Some r \<Rightarrow>
          if \<not> hasNext then (Inl (GoError (Sentinel ErrInvalidBodyIntegration)), s)
          else
            case trailerInputs h H renv m r of
              Inl err \<Rightarrow> (Inl err, s)
            | Inr (verifiedRequest, content, message, label, inputs, signatures) \<Rightarrow>
                (case Verifier_Verify h u H P env (Some (tvVerifier m)) message label inputs signatures s of
                   (Inl err, s') \<Rightarrow> (Inl (Verification err), s')
                 | (Inr verified, s') \<Rightarrow> (Inr (verifiedRequest\<lparr>ReqBody := SomeBody\<rparr>, content, verified), s')))"

section \<open>Trailers of received responses\<close>

record BufferedTrailerVerifyingRoundTripperConfig =
  TRTransport :: bool
  TRVerifier :: "VerificationProfile option option"
  TRSelectLabel :: "(Request \<Rightarrow> Response \<Rightarrow> SignatureInput list \<Rightarrow> SignatureValue list \<Rightarrow> string res) option"
  TRRequiredAlgorithms :: "DigestAlgorithm list"
  TRMaxBytes :: int
  TRExternalContext :: "(Request \<times> Response \<Rightarrow> ExternalRequestContext option res) option"

record BufferedTrailerVerifyingRoundTripper =
  trVerifier :: VerificationProfile
  trSelectLabel :: "Request \<Rightarrow> Response \<Rightarrow> SignatureInput list \<Rightarrow> SignatureValue list \<Rightarrow> string res"
  trAlgorithms :: "DigestAlgorithm list"
  trMaxBytes :: int
  trExternalContext :: "(Request \<times> Response \<Rightarrow> ExternalRequestContext option res) option"

definition NewBufferedTrailerVerifyingRoundTripper ::
  "('p, 'd) httpsfv \<Rightarrow> hashes \<Rightarrow> BufferedTrailerVerifyingRoundTripperConfig \<Rightarrow>
   BufferedTrailerVerifyingRoundTripper res" where
  "NewBufferedTrailerVerifyingRoundTripper h H config =
     (case (TRVerifier config, TRSelectLabel config) of
        (Some (Some profile), Some select) \<Rightarrow>
          if \<not> TRTransport config \<or> TRMaxBytes config \<le> 0 \<or> \<not> verificationProfileCoversTrailerDigest h profile
          then Inl (Sentinel ErrInvalidBodyIntegration)
          else if \<not> isOk (ComputeDigests H (TRRequiredAlgorithms config) []) then Inl (Sentinel ErrInvalidBodyIntegration)
          else Inr \<lparr>trVerifier = profile, trSelectLabel = select, trAlgorithms = [] @ TRRequiredAlgorithms config,
                    trMaxBytes = TRMaxBytes config, trExternalContext = TRExternalContext config\<rparr>
      | _ \<Rightarrow> Inl (Sentinel ErrInvalidBodyIntegration))"

definition trailerResponseInputs ::
  "('p, 'd) httpsfv \<Rightarrow> hashes \<Rightarrow> receiveEnv \<Rightarrow> BufferedTrailerVerifyingRoundTripper \<Rightarrow> Response \<Rightarrow>
   ierr + (Request \<times> Response \<times> bytes \<times> MessageContext \<times> string \<times> SignatureInput list \<times> SignatureValue list)" where
  "trailerResponseInputs h H renv t received =
     bindRes (failVerification (snapshotResponseRequest (RespRequest received))
                (\<lambda>_. VerificationFailed (GoError (Sentinel ErrInvalidHTTPIntegration)))) (\<lambda>relatedRequest.
     bindRes (failVerification (normalizeProtectedHeader (RespHeader received)) (\<lambda>err. VerificationFailed (GoError err))) (\<lambda>header.
     if responseTransitionsProtocol relatedRequest received
     then Inl (VerificationFailed (GoError (Sentinel ErrInvalidHTTPIntegration)))
     else if RespUncompressed received then Inl (VerificationFailed (GoError (Sentinel ErrInvalidBodyIntegration)))
     else
     bindRes (failVerification (readBoundedAndClose (rcContext renv) (bodyOf (RespBody received) (rcBody renv)) (trMaxBytes t))
                (\<lambda>err. VerificationFailed (GoError err))) (\<lambda>content.
     bindRes (failVerification (normalizeProtectedHeader (rcTrailerAfterRead renv))
                (\<lambda>err. VerificationFailed (GoError err))) (\<lambda>trailer.
     let response = received\<lparr>RespHeader := header, RespTrailer := trailer\<rparr> in
     bindRes (failVerification (ParseDigestFields h (headerValues trailer ''Content-Digest''))
                (\<lambda>_. VerificationFailed (GoError (Sentinel ErrInvalidDigestField)))) (\<lambda>digestField.
     bindRes (failVerification (DigestField_Verify H digestField content (trAlgorithms t))
                (\<lambda>err. VerificationFailed (GoError err))) (\<lambda>_.
     bindRes (failVerification (ParseSignatureInputs h (headerValues trailer ''Signature-Input''))
                (\<lambda>_. wrapVerification VerificationSelection (Sentinel ErrInvalidSignatureInput))) (\<lambda>inputs.
     bindRes (failVerification (ParseSignatures h (headerValues trailer ''Signature''))
                (\<lambda>_. wrapVerification VerificationSelection (Sentinel ErrInvalidSignature))) (\<lambda>signatures.
     bindRes (failVerification (selectedLabel (trSelectLabel t (cloneRequestSnapshot relatedRequest)
                                  (responseCallbackSnapshot response relatedRequest) inputs signatures))
                (wrapVerification VerificationSelection)) (\<lambda>label.
     bindRes (failVerification (externalContext (trExternalContext t)
                  (cloneRequestSnapshot relatedRequest, responseCallbackSnapshot response relatedRequest)
                  (Sentinel ErrInvalidHTTPIntegration)) (wrapVerification VerificationBase)) (\<lambda>external.
     Inr (relatedRequest, response, content,
          responseMessage response relatedRequest external ResponseTransportReceived, label, inputs, signatures)))))))))))"

definition TrailerVerifying_RoundTrip ::
  "('p, 'd) httpsfv \<Rightarrow> urls \<Rightarrow> hashes \<Rightarrow> crypto \<Rightarrow> 's verifyEnv \<Rightarrow> receiveEnv \<Rightarrow>
   BufferedTrailerVerifyingRoundTripper option \<Rightarrow> Response option res \<Rightarrow> Request option \<Rightarrow> 's \<Rightarrow>
   (ierr \<times> bool + verifiedResponse) \<times> 's" where
  "TrailerVerifying_RoundTrip h u H P env renv transport reply request s =
     (case (transport, request) of
        (Some t, Some r) \<Rightarrow>
          (case reply of
             Inl err \<Rightarrow> (Inl (GoError err, False), s)
           | Inr None \<Rightarrow> (Inl (GoError (Sentinel ErrHTTPIntegrationVerification), False), s)
           | Inr (Some received) \<Rightarrow>
               (case trailerResponseInputs h H renv t received of
                  Inl err \<Rightarrow> (Inl (closeFailed received err), s)
                | Inr (relatedRequest, response, content, message, label, inputs, signatures) \<Rightarrow>
                    (case Verifier_Verify h u H P env (Some (trVerifier t)) message label inputs signatures s of
                       (Inl err, s') \<Rightarrow> (Inl (closeFailed received (verificationFailed err)), s')
                     | (Inr verified, s') \<Rightarrow>
                         (Inr \<lparr>vrResponse = response\<lparr>RespBody := SomeBody, RespContentLength := go_len content,
                                                   RespRequest := Some relatedRequest\<rparr>,
                               vrContent = Some content, vrVerified = verified\<rparr>, s'))))
      | _ \<Rightarrow> (Inl (GoError (Sentinel ErrInvalidBodyIntegration), False), s))"

section \<open>Laws\<close>

lemma liftErr_Inr [simp]: "liftErr r = Inr x \<longleftrightarrow> r = Inr x"
  by (auto simp: liftErr_def split: sum.splits)

lemma coversTrailerDigest_iff:
  "coversTrailerDigest h cs \<longleftrightarrow> comparisonKeyOrEmpty h trailerDigestComponent \<in> comparisonKeyOrEmpty h ` set cs"
  by (auto simp: coversTrailerDigest_def list_ex_iff image_iff) metis+

text \<open>A profile that requires the trailer digest accepts only signatures that cover it.\<close>

lemma verified_covers_trailer:
  assumes "Verifier_Verify h u H P env (Some p) message label inputs signatures s = (Inr v, s')"
    and "verificationProfileCoversTrailerDigest h p"
  obtains input signature where "selectSignature label inputs signatures = Some (input, signature)"
    "coversTrailerDigest h (InComponents input)"
proof -
  obtain q input signature key base where a:
    "selectVerified env (Some p) message label inputs signatures = Inr (q, input, signature)"
    "acceptable h u H P env q message input signature key base"
    using assms(1) unfolding verify_iff by blast
  then have "q = p" "selectSignature label inputs signatures = Some (input, signature)"
    unfolding selectVerified_ok selectSignature_ok by auto
  moreover from a(2) calculation(1) have
    "comparisonKeyOrEmpty h ` set (VPRequiredComponents p) \<subseteq> comparisonKeyOrEmpty h ` set (InComponents input)"
    by (simp add: acceptable_def metadataAllowed_def)
  then have "coversTrailerDigest h (InComponents input)"
    using assms(2) unfolding verificationProfileCoversTrailerDigest_def coversTrailerDigest_iff by blast
  ultimately show ?thesis using that by blast
qed

lemma recast_Inr [simp]: "(case r of Inl _ \<Rightarrow> Inl e | Inr x \<Rightarrow> Inr x) = Inr y \<longleftrightarrow> r = Inr y"
  by (cases r) auto

lemma digestRequest_ok:
  assumes "digestRequest h H renv t r = Inr (clone, content)"
  obtains clone0 trailer field v where "normalizeProtectedRequest r = Inr clone0"
    "readBoundedAndClose (rcContext renv) (bodyOf (ReqBody r) (rcBody renv)) (bdMaxBytes t) = Inr content"
    "ComputeDigests H (bdAlgorithms t) content = Inr field" "DigestField_String h field = Inr v"
    "clone = frameDigestRequest (clone0\<lparr>ReqTrailer := trailer\<rparr>) v content"
  using assms that unfolding digestRequest_def bindRes_Inr recast_Inr by (auto simp: bindRes_Inr split: if_splits)

lemma trailerInputs_ok:
  assumes "trailerInputs h H renv m request = Inr (verifiedRequest, content, message, label, inputs, signatures)"
  obtains clone trailer field external where "normalizeProtectedRequest request = Inr clone"
    "verifiedRequest = clone\<lparr>ReqTrailer := trailer\<rparr>"
    "readBoundedAndClose (rcContext renv) (bodyOf (ReqBody clone) (rcBody renv)) (tvMaxBytes m) = Inr content"
    "normalizeProtectedHeader (rcTrailerAfterRead renv) = Inr trailer"
    "ParseDigestFields h (headerValues trailer ''Content-Digest'') = Inr field"
    "DigestField_Verify H field content (tvAlgorithms m) = Inr ()"
    "message = requestMessage verifiedRequest external"
  using assms that unfolding trailerInputs_def Let_def bindRes_Inr failVerification_Inr liftErr_Inr by auto

lemma trailerResponseInputs_ok:
  assumes "trailerResponseInputs h H renv t received =
    Inr (related, response, content, message, label, inputs, signatures)"
  obtains trailer field where
    "\<not> responseTransitionsProtocol related received" "\<not> RespUncompressed received"
    "readBoundedAndClose (rcContext renv) (bodyOf (RespBody received) (rcBody renv)) (trMaxBytes t) = Inr content"
    "ParseDigestFields h (headerValues trailer ''Content-Digest'') = Inr field"
    "DigestField_Verify H field content (trAlgorithms t) = Inr ()"
    "RespTrailer response = trailer" "CtxRelatedRequest message = Some related"
  using assms that unfolding trailerResponseInputs_def Let_def bindRes_Inr failVerification_Inr
  by (auto simp: bindRes_Inr failVerification_Inr responseMessage_def split: if_splits)

lemma TrailerVerifying_ok:
  assumes "TrailerVerifying_RoundTrip h u H P env renv (Some t) (Inr (Some received)) (Some r) s = (Inr out, s')"
  obtains related response content message label inputs signatures where
    "trailerResponseInputs h H renv t received = Inr (related, response, content, message, label, inputs, signatures)"
    "Verifier_Verify h u H P env (Some (trVerifier t)) message label inputs signatures s = (Inr (vrVerified out), s')"
    "vrResponse out = response\<lparr>RespBody := SomeBody, RespContentLength := go_len content, RespRequest := Some related\<rparr>"
    "vrContent out = Some content"
proof (cases "trailerResponseInputs h H renv t received")
  case (Inr a)
  obtain related response content message label inputs signatures where
    a: "a = (related, response, content, message, label, inputs, signatures)" by (metis prod_cases7)
  show ?thesis
    using assms Inr that unfolding a TrailerVerifying_RoundTrip_def
    by (simp add: closeFailed_def Let_def split: prod.splits sum.splits) auto
qed (use assms in \<open>simp add: TrailerVerifying_RoundTrip_def\<close>)

lemma normalizedRequest_body: "normalizeProtectedRequest r = Inr clone \<Longrightarrow> ReqBody clone = ReqBody r"
  by (auto simp: normalizeProtectedRequest_def split: sum.splits)

lemma deleteHeaderField_values:
  "\<not> EqualFold key name \<Longrightarrow> map_of (deleteHeaderField header name) key = map_of header key"
  by (induction header) (auto simp: deleteHeaderField_def)

lemma framing_names [simp]:
  "\<not> EqualFold ''Content-Digest'' ''Content-Length''" "\<not> EqualFold ''Content-Digest'' ''Transfer-Encoding''"
  "\<not> EqualFold ''Content-Digest'' ''Trailer''"
  by code_simp+

lemma frameDigestRequest_values:
  "headerValues (ReqHeader (frameDigestRequest clone digest content)) ''Content-Digest'' = [digest]"
  by (simp add: frameDigestRequest_def Let_def headerValues_def deleteHeaderField_values headerSet_def headerPut_values)

lemma frameDigestRequest_framing:
  "matching ''Content-Length'' (ReqHeader (frameDigestRequest clone digest content)) = []"
  "matching ''Transfer-Encoding'' (ReqHeader (frameDigestRequest clone digest content)) = []"
  "matching ''Trailer'' (ReqHeader (frameDigestRequest clone digest content)) = []"
  by (simp_all add: frameDigestRequest_def Let_def matching_delete)

section \<open>Example\<close>

definition exampleReceive :: "header \<Rightarrow> receiveEnv" where
  "exampleReceive trailer = \<lparr>rcContext = background, rcBody = exampleBody, rcTrailerAfterRead = trailer\<rparr>"

definition exampleUpload :: Request where
  "exampleUpload = exampleRequest\<lparr>ReqMethod := ''POST'', ReqBody := SomeBody, ReqContentLength := -1\<rparr>"

definition exampleDigesting :: bodyDelegation where
  "exampleDigesting =
     BufferedContentDigestRoundTripper_RoundTrip exampleWire exampleHashes (exampleReceive [])
       (Some \<lparr>bdAlgorithms = [SHA256], bdMaxBytes = 4\<rparr>) (Some exampleUpload)"

lemma exampleDigesting_ok:
  "case exampleDigesting of BodyDelegated r c \<Rightarrow> c = ''hi'' \<and> ReqTrailer r = [] | BodyRefused e b \<Rightarrow> False"
  by code_simp

definition exampleTrailer :: header where
  "exampleTrailer =
     [(''Content-Digest'', [''sha-256=v'']), (''Signature-Input'', [''s=i'']), (''Signature'', [''s=v''])]"

definition exampleTrailerFields :: SignedFields where
  "exampleTrailerFields =
     \<lparr>SFInput = (SFInput exampleSignedFields)\<lparr>InComponents := [trailerDigestComponent]\<rparr>,
      SFSignature =
        \<lparr>SigLabel = ''s'',
         SigValue = ''kkkk'' @ quote ''content-digest'' @ '';tr: sha-256=v'' @ [CHR 0x0A] @ quote ''@signature-params'' @
           '': ('' @ quote ''content-digest'' @ '';tr);created=1000;expires=1010;nonce='' @ quote ''n'' @ '';keyid='' @
           quote ''k'',
         SigParameters = []\<rparr>\<rparr>"

definition exampleTrailerConfig :: BufferedTrailerVerificationMiddlewareConfig where
  "exampleTrailerConfig =
     \<lparr>TVVerifier = Some (Some (exampleVerificationProfile\<lparr>VPRequiredComponents := [trailerDigestComponent]\<rparr>)),
      TVSelectLabel = Some (\<lambda>_ _ _. Inr ''s''), TVRequiredAlgorithms = [SHA256], TVMaxBytes = 4,
      TVExternalContext = None, TVMapError = True\<rparr>"

definition exampleTrailerVerification :: trailerVerification where
  "exampleTrailerVerification =
     \<lparr>tvVerifier = exampleVerificationProfile\<lparr>VPRequiredComponents := [trailerDigestComponent]\<rparr>,
      tvSelectLabel = (\<lambda>_ _ _. Inr ''s''), tvAlgorithms = [SHA256], tvMaxBytes = 4, tvExternalContext = None\<rparr>"

abbreviation exampleTrailerWire :: "(alistParams, alistDict) httpsfv" where
  "exampleTrailerWire \<equiv> wireFor exampleTrailerFields ''Ahi''"

lemma exampleTrailer_new:
  "NewBufferedTrailerVerificationMiddleware exampleTrailerWire exampleHashes exampleTrailerConfig =
     Inr exampleTrailerVerification"
proof -
  have "verificationProfileCoversTrailerDigest exampleTrailerWire
      (exampleVerificationProfile\<lparr>VPRequiredComponents := [trailerDigestComponent]\<rparr>)"
    by (simp add: verificationProfileCoversTrailerDigest_def coversTrailerDigest_def)
  moreover have "isOk (ComputeDigests exampleHashes [SHA256] [])" by code_simp
  ultimately show ?thesis
    by (simp add: NewBufferedTrailerVerificationMiddleware_def exampleTrailerConfig_def exampleTrailerVerification_def)
qed

definition exampleTrailerServed ::
  "(ierr + (Request \<times> bytes \<times> VerifiedSignature)) \<times> (string \<times> string) list" where
  "exampleTrailerServed =
     TrailerVerification_ServeHTTP exampleTrailerWire exampleURLs exampleHashes exampleCrypto
       (exampleVerifyEnv exampleConsume) (exampleReceive exampleTrailer) exampleTrailerVerification True
       (Some exampleUpload) []"

lemma exampleTrailerServed_ok:
  "case exampleTrailerServed of (Inr (r, c, v), s) \<Rightarrow> c = ''hi'' | _ \<Rightarrow> False"
  by code_simp

section \<open>Properties\<close>

text \<open>C32. The digest transport delegates the request with exactly the content it hashed: the delegated body is
  the whole original body, within the limit, the request's only \<^verbatim>\<open>Content-Digest\<close> is the serialised digest
  of that content, and it verifies against the content for the same algorithms; the length framing is that of
  the content, or chunked when there are trailers, and no caller-supplied framing field remains.\<close>

theorem digest_roundtrip_sound:
  assumes "BufferedContentDigestRoundTripper_RoundTrip h H renv (Some t) (Some r) = BodyDelegated clone content"
  shows "readBoundedAndClose (rcContext renv) (bodyOf (ReqBody r) (rcBody renv)) (bdMaxBytes t) = Inr content \<and>
    (\<exists>field v. ComputeDigests H (bdAlgorithms t) content = Inr field \<and> DigestField_String h field = Inr v \<and>
       headerValues (ReqHeader clone) ''Content-Digest'' = [v] \<and>
       DigestField_Verify H field content (bdAlgorithms t) = Inr ()) \<and>
    (if ReqTrailer clone = [] then ReqContentLength clone = go_len content \<and> ReqTransferEncoding clone = []
     else ReqContentLength clone = -1 \<and> ReqTransferEncoding clone = [''chunked'']) \<and>
    matching ''Content-Length'' (ReqHeader clone) = [] \<and> matching ''Transfer-Encoding'' (ReqHeader clone) = [] \<and>
    matching ''Trailer'' (ReqHeader clone) = []"
proof -
  have "digestRequest h H renv t r = Inr (clone, content)"
    using assms by (auto simp: BufferedContentDigestRoundTripper_RoundTrip_def split: sum.splits prod.splits)
  then obtain clone0 trailer field v where d:
    "readBoundedAndClose (rcContext renv) (bodyOf (ReqBody r) (rcBody renv)) (bdMaxBytes t) = Inr content"
    "ComputeDigests H (bdAlgorithms t) content = Inr field" "DigestField_String h field = Inr v"
    "clone = frameDigestRequest (clone0\<lparr>ReqTrailer := trailer\<rparr>) v content"
    by (rule digestRequest_ok) blast
  obtain entries where e: "bdAlgorithms t \<noteq> []" "distinct (bdAlgorithms t)"
    "list_all2 (digestEntry H content) (bdAlgorithms t) entries" "field = sort_key DigAlgorithm entries"
    by (rule ComputeDigests_ok [OF d(2)])
  have names: "map DigAlgorithm entries = bdAlgorithms t" by (rule digestEntries_names [OF e(3)])
  have "\<exists>v. fieldValue field a = Some v \<and> checksum H a content = Inr v" if "a \<in> set (bdAlgorithms t)" for a
  proof -
    have "a \<in> set (map DigAlgorithm entries)" using that names by simp
    then obtain x where x: "x \<in> set entries" "DigAlgorithm x = a" by auto
    then have "checksum H a content = Inr (DigValue x)"
      using e(3) by (auto simp: list_all2_conv_all_nth in_set_conv_nth digestEntry_def)
    moreover have "distinct (map DigAlgorithm field)" using e(2,4) names distinct_algorithms_sort [of entries] by simp
    then have "fieldValue field a = Some (DigValue x)"
      using fieldValue_distinct [of field x] x e(4) by simp
    ultimately show ?thesis by blast
  qed
  then have "DigestField_Verify H field content (bdAlgorithms t) = Inr ()"
    using e(1,2) by (simp add: DigestField_Verify_iff)
  moreover have "if ReqTrailer clone = [] then ReqContentLength clone = go_len content \<and> ReqTransferEncoding clone = []
     else ReqContentLength clone = -1 \<and> ReqTransferEncoding clone = [''chunked'']"
    by (simp add: d(4) frameDigestRequest_def Let_def)
  ultimately show ?thesis
    using d(1-3) frameDigestRequest_values frameDigestRequest_framing unfolding d(4) by blast
qed

theorem digest_roundtrip_sound_witness:
  "\<exists>clone. exampleDigesting = BodyDelegated clone ''hi'' \<and> ReqContentLength clone = 2"
proof -
  obtain clone where c: "exampleDigesting = BodyDelegated clone ''hi''" "ReqTrailer clone = []"
    using exampleDigesting_ok by (auto split: bodyDelegation.splits)
  from digest_roundtrip_sound [OF c(1) [unfolded exampleDigesting_def]] c show ?thesis by auto
qed

text \<open>C31. A request served after trailer verification carries authenticated content: the content is the whole body
  within the limit, every required algorithm has its exact checksum in the trailer's digest field, and the
  verified signature, made over a message with these trailers, covers that field as a trailer.\<close>

theorem trailer_verification_sound:
  assumes "NewBufferedTrailerVerificationMiddleware h H config = Inr m"
    and "TrailerVerification_ServeHTTP h u H P env renv m hasNext (Some r) s = (Inr (served, content, v), s')"
  shows "\<exists>field inputs signatures label input signature message verifiedRequest.
    readBoundedAndClose (rcContext renv) (bodyOf (ReqBody r) (rcBody renv)) (tvMaxBytes m) = Inr content \<and>
    ParseDigestFields h (headerValues (ReqTrailer served) ''Content-Digest'') = Inr field \<and>
    (\<forall>a \<in> set (tvAlgorithms m). \<exists>x. fieldValue field a = Some x \<and> checksum H a content = Inr x) \<and>
    CtxRequest message = Some verifiedRequest \<and> ReqTrailer verifiedRequest = ReqTrailer served \<and>
    Verifier_Verify h u H P env (Some (tvVerifier m)) message label inputs signatures s = (Inr v, s') \<and>
    selectSignature label inputs signatures = Some (input, signature) \<and> coversTrailerDigest h (InComponents input)"
proof -
  have cov: "verificationProfileCoversTrailerDigest h (tvVerifier m)"
    using assms(1) by (auto simp: NewBufferedTrailerVerificationMiddleware_def split: option.splits if_splits)
  obtain verifiedRequest message label inputs signatures where t:
    "trailerInputs h H renv m r = Inr (verifiedRequest, content, message, label, inputs, signatures)"
    "Verifier_Verify h u H P env (Some (tvVerifier m)) message label inputs signatures s = (Inr v, s')"
    "served = verifiedRequest\<lparr>ReqBody := SomeBody\<rparr>"
    using assms(2) by (auto simp: TrailerVerification_ServeHTTP_def split: if_splits sum.splits prod.splits)
  obtain clone trailer field external where i: "normalizeProtectedRequest r = Inr clone"
    "verifiedRequest = clone\<lparr>ReqTrailer := trailer\<rparr>"
    "readBoundedAndClose (rcContext renv) (bodyOf (ReqBody clone) (rcBody renv)) (tvMaxBytes m) = Inr content"
    "normalizeProtectedHeader (rcTrailerAfterRead renv) = Inr trailer"
    "ParseDigestFields h (headerValues trailer ''Content-Digest'') = Inr field"
    "DigestField_Verify H field content (tvAlgorithms m) = Inr ()"
    "message = requestMessage verifiedRequest external"
    by (rule trailerInputs_ok [OF t(1)])
  obtain input signature where c: "selectSignature label inputs signatures = Some (input, signature)"
    "coversTrailerDigest h (InComponents input)"
    by (rule verified_covers_trailer [OF t(2) cov])
  have "\<forall>a \<in> set (tvAlgorithms m). \<exists>x. fieldValue field a = Some x \<and> checksum H a content = Inr x"
    using i(6) DigestField_Verify_iff by blast
  moreover have "CtxRequest message = Some verifiedRequest" "ReqTrailer verifiedRequest = trailer" "ReqTrailer served = trailer"
    using i t(3) by (simp_all add: requestMessage_def)
  ultimately show ?thesis
    using i(3,5) normalizedRequest_body [OF i(1)] t(2) c by metis
qed

theorem trailer_verification_sound_witness:
  "\<exists>served v s'. exampleTrailerServed = (Inr (served, ''hi'', v), s') \<and>
     (\<exists>field. ParseDigestFields exampleTrailerWire (headerValues (ReqTrailer served) ''Content-Digest'') = Inr field \<and>
        fieldValue field SHA256 \<noteq> None)"
proof -
  obtain served v s' where o: "exampleTrailerServed = (Inr (served, ''hi'', v), s')"
    using exampleTrailerServed_ok by (auto split: prod.splits sum.splits)
  have "SHA256 \<in> set (tvAlgorithms exampleTrailerVerification)" by (simp add: exampleTrailerVerification_def)
  with trailer_verification_sound [OF exampleTrailer_new o [unfolded exampleTrailerServed_def]] o show ?thesis by fastforce
qed

text \<open>A response returned after trailer verification carries authenticated content: the returned content is the
  whole received body within the limit and its declared length, the response was neither a protocol switch
  nor transparently decompressed, every required algorithm has its exact checksum in the trailer's digest
  field, and the verified signature covers that field as a trailer.\<close>

theorem trailer_response_sound:
  assumes "NewBufferedTrailerVerifyingRoundTripper h H config = Inr t"
    and "TrailerVerifying_RoundTrip h u H P env renv (Some t) (Inr (Some received)) (Some r) s = (Inr out, s')"
  shows "\<exists>content field inputs signatures label input signature message related.
    readBoundedAndClose (rcContext renv) (bodyOf (RespBody received) (rcBody renv)) (trMaxBytes t) = Inr content \<and>
    vrContent out = Some content \<and> RespContentLength (vrResponse out) = go_len content \<and>
    \<not> RespUncompressed received \<and> \<not> responseTransitionsProtocol related received \<and>
    ParseDigestFields h (headerValues (RespTrailer (vrResponse out)) ''Content-Digest'') = Inr field \<and>
    (\<forall>a \<in> set (trAlgorithms t). \<exists>x. fieldValue field a = Some x \<and> checksum H a content = Inr x) \<and>
    Verifier_Verify h u H P env (Some (trVerifier t)) message label inputs signatures s = (Inr (vrVerified out), s') \<and>
    CtxRelatedRequest message = Some related \<and>
    selectSignature label inputs signatures = Some (input, signature) \<and> coversTrailerDigest h (InComponents input)"
proof -
  have cov: "verificationProfileCoversTrailerDigest h (trVerifier t)"
    using assms(1) by (auto simp: NewBufferedTrailerVerifyingRoundTripper_def split: option.splits if_splits)
  obtain related response content message label inputs signatures where t:
    "trailerResponseInputs h H renv t received = Inr (related, response, content, message, label, inputs, signatures)"
    "Verifier_Verify h u H P env (Some (trVerifier t)) message label inputs signatures s = (Inr (vrVerified out), s')"
    "vrResponse out = response\<lparr>RespBody := SomeBody, RespContentLength := go_len content, RespRequest := Some related\<rparr>"
    "vrContent out = Some content"
    by (rule TrailerVerifying_ok [OF assms(2)])
  obtain trailer field where i:
    "\<not> responseTransitionsProtocol related received" "\<not> RespUncompressed received"
    "readBoundedAndClose (rcContext renv) (bodyOf (RespBody received) (rcBody renv)) (trMaxBytes t) = Inr content"
    "ParseDigestFields h (headerValues trailer ''Content-Digest'') = Inr field"
    "DigestField_Verify H field content (trAlgorithms t) = Inr ()"
    "RespTrailer response = trailer" "CtxRelatedRequest message = Some related"
    by (rule trailerResponseInputs_ok [OF t(1)])
  obtain input signature where c: "selectSignature label inputs signatures = Some (input, signature)"
    "coversTrailerDigest h (InComponents input)"
    by (rule verified_covers_trailer [OF t(2) cov])
  have "\<forall>a \<in> set (trAlgorithms t). \<exists>x. fieldValue field a = Some x \<and> checksum H a content = Inr x"
    using i(5) DigestField_Verify_iff by blast
  moreover have "RespTrailer (vrResponse out) = trailer" "RespContentLength (vrResponse out) = go_len content"
    using i(6) t(3) by simp_all
  ultimately show ?thesis using i(1-4,7) t(2,4) c by metis
qed

end
