(* ===== verification/TrailerSigning.thy ===== *)
theory TrailerSigning
  imports BodyIntegration
begin

text \<open>
  The streaming half of \<^verbatim>\<open>body_integration.go\<close> for requests: \<^verbatim>\<open>trailerSigningBody\<close>, the body that hashes
  what the transport reads and signs the trailers at the end of file, and \<^verbatim>\<open>TrailerSigningRoundTripper\<close>,
  which releases a response only after that. The transport reads with one goroutine while \<^verbatim>\<open>Close\<close> may be
  called from any; a run is the sequence of the critical sections and calls they pass, in the order in
  which they happen (\<open>streamEvent\<close>).
\<close>

section \<open>Digest writers\<close>

text \<open>A hash is what has been written to it.\<close>

record digestWriter =
  dwAlgorithm :: DigestAlgorithm
  dwWritten :: bytes

definition newDigestWriter :: "DigestAlgorithm \<Rightarrow> digestWriter res" where
  "newDigestWriter algorithm =
     (if algorithm = SHA256 \<or> algorithm = SHA512 then Inr \<lparr>dwAlgorithm = algorithm, dwWritten = []\<rparr>
      else Inl (Sentinel ErrUnsupportedDigestAlgorithm))"

definition hashWrite :: "bytes \<Rightarrow> digestWriter \<Rightarrow> digestWriter" where
  "hashWrite content w = w\<lparr>dwWritten := dwWritten w @ content\<rparr>"

definition hashSum :: "hashes \<Rightarrow> digestWriter \<Rightarrow> Digest" where
  "hashSum H w =
     \<lparr>DigAlgorithm = dwAlgorithm w,
      DigValue = (if dwAlgorithm w = SHA256 then Sum256 H (dwWritten w) else Sum512 H (dwWritten w)),
      DigParameters = []\<rparr>"

definition sumDigests :: "hashes \<Rightarrow> digestWriter list \<Rightarrow> Digest list" where
  "sumDigests H writers = sort_key DigAlgorithm (map (hashSum H) writers)"

section \<open>Trailer fields\<close>

definition signingProfileCoversProtocolDependentTrailerField :: "SigningProfile \<Rightarrow> bool" where
  "signingProfileCoversProtocolDependentTrailerField profile =
     list_ex (\<lambda>component. CompName component \<in>
       {''connection'', ''content-length'', ''keep-alive'', ''proxy-connection'', ''te'', ''trailer'',
        ''transfer-encoding'', ''upgrade''}) (SPComponents profile)"

definition hasSignatureOrDigestFields :: "header \<Rightarrow> bool" where
  "hasSignatureOrDigestFields header =
     list_ex (\<lambda>name. case protectedFieldValues header name of
                Inl err \<Rightarrow> True | Inr (vs, present) \<Rightarrow> present \<and> vs \<noteq> [])
       [''Content-Digest'', ''Signature-Input'', ''Signature'']"

definition validResponseTrailerName :: "string \<Rightarrow> bool" where
  "validResponseTrailerName name =
     (if hasPrefix name ''If-'' then False
      else name \<notin> {''Authorization'', ''Cache-Control'', ''Connection'', ''Content-Encoding'', ''Content-Length'',
        ''Content-Range'', ''Content-Type'', ''Expect'', ''Host'', ''Keep-Alive'', ''Max-Forwards'', ''Pragma'',
        ''Proxy-Authenticate'', ''Proxy-Authorization'', ''Proxy-Connection'', ''Range'', ''Realm'', ''Te'', ''Trailer'',
        ''Transfer-Encoding'', ''Www-Authenticate''})"

fun normalizeTrailer_loop :: "header \<Rightarrow> header \<Rightarrow> header res" where
  "normalizeTrailer_loop normalized [] = Inr normalized"
| "normalizeTrailer_loop normalized ((name, vs) # rest) =
     (let canonical = CanonicalHeaderKey name in
      if name = [] \<or> \<not> validHTTPToken name \<or> \<not> validResponseTrailerName canonical
      then Inl (Sentinel ErrInvalidBodyIntegration)
      else if canonical \<in> fst ` set normalized then Inl (Sentinel ErrAmbiguousProtectedField)
      else normalizeTrailer_loop (normalized @ [(canonical, [] @ vs)]) rest)"

definition normalizeTrailerFields :: "header \<Rightarrow> header res" where
  "normalizeTrailerFields header = normalizeTrailer_loop [] header"

definition applicationTrailerNames :: "header \<Rightarrow> string set" where
  "applicationTrailerNames header =
     set (filter (\<lambda>canonical. canonical \<noteq> ''Content-Digest'' \<and> canonical \<noteq> ''Signature-Input'' \<and> canonical \<noteq> ''Signature'')
            (map (\<lambda>(name, _). CanonicalHeaderKey name) header))"

definition sameTrailerNames :: "string set \<Rightarrow> string set \<Rightarrow> bool" where
  "sameTrailerNames left right = (if card left \<noteq> card right then False else (\<forall>name \<in> left. name \<in> right))"

section \<open>The signing body\<close>

text \<open>
  \<^verbatim>\<open>done\<close> is \<open>None\<close> before the channel is made, then whether it is closed; \<^verbatim>\<open>closeOnce\<close> has run when
  \<open>sbCloseErr\<close> is \<open>Some\<close>. \<open>sbTrailer\<close> is the trailer map of the cloned request, which \<^verbatim>\<open>finalize\<close> shares
  with the transport.
\<close>

record signingBody =
  sbMaxBytes :: int
  sbWritten :: int
  sbWriters :: "digestWriter list"
  sbTerminal :: bool
  sbEofObserved :: bool
  sbResult :: "goerr option"
  sbDone :: "bool option"
  sbCloseErr :: "goerr option option"
  sbTrailer :: header

definition completeLocked :: "goerr option \<Rightarrow> signingBody \<Rightarrow> signingBody" where
  "completeLocked result b =
     (if sbTerminal b then b
      else b\<lparr>sbTerminal := True, sbResult := result, sbDone := map_option (\<lambda>_. True) (sbDone b)\<rparr>)"

definition completion :: "signingBody \<Rightarrow> signingBody" where
  "completion b = (case sbDone b of None \<Rightarrow> b\<lparr>sbDone := Some False\<rparr> | Some _ \<Rightarrow> b)"

text \<open>What \<^verbatim>\<open>Read\<close> returns on a terminal body, from its first critical section.\<close>

definition readEnter :: "signingBody \<Rightarrow> (int \<times> goerr option) option" where
  "readEnter b =
     (if sbTerminal b
      then Some (0, Some (case sbResult b of None \<Rightarrow> Sentinel IoEOF | Some result \<Rightarrow> result)) else None)"

text \<open>
  From the return of the underlying \<^verbatim>\<open>Read\<close> into a buffer of \<open>len\<close> bytes to the end of the second critical
  section: \<^verbatim>\<open>Read\<close> returns, or goes on to finalise with the digests at the end of file.
\<close>

datatype readStep = ReadReturns int "goerr option" | ReadFinalizes int "Digest list"

definition readCommit :: "hashes \<Rightarrow> int \<Rightarrow> readResult \<Rightarrow> signingBody \<Rightarrow> readStep \<times> signingBody" where
  "readCommit H len r b =
     (if rrCount r < 0 \<or> rrCount r > len
      then (ReadReturns 0 (Some (Sentinel ErrBodyRead)), completeLocked (Some (Sentinel ErrBodyRead)) b)
      else if sbTerminal b
      then (ReadReturns 0 (Some (case sbResult b of None \<Rightarrow> Sentinel IoEOF | Some result \<Rightarrow> result)), b)
      else if rrCount r > sbMaxBytes b - sbWritten b
      then (ReadReturns 0 (Some (Sentinel ErrBodyTooLarge)), completeLocked (Some (Sentinel ErrBodyTooLarge)) b)
      else if rrCount r = 0 \<and> rrErr r = None
      then (ReadReturns 0 (Some (Sentinel ErrBodyRead)), completeLocked (Some (Sentinel ErrBodyRead)) b)
      else
        let b1 = b\<lparr>sbWritten := sbWritten b + rrCount r, sbWriters := map (hashWrite (chunk r)) (sbWriters b)\<rparr> in
        case rrErr r of
          None \<Rightarrow> (ReadReturns (rrCount r) None, b1)
        | Some err \<Rightarrow>
            if \<not> errorsIs err IoEOF
            then (ReadReturns (rrCount r) (Some (Sentinel ErrBodyRead)), completeLocked (Some (Sentinel ErrBodyRead)) b1)
            else (ReadFinalizes (rrCount r) (sumDigests H (sbWriters b1)), b1\<lparr>sbEofObserved := True\<rparr>))"

definition readComplete :: "int \<Rightarrow> goerr option \<Rightarrow> signingBody \<Rightarrow> (int \<times> goerr option) \<times> signingBody" where
  "readComplete n err b =
     ((n, Some (case err of None \<Rightarrow> Sentinel IoEOF | Some finalizeErr \<Rightarrow> finalizeErr)), completeLocked err b)"

text \<open>
  One uninterrupted call. \<open>fin\<close> is the closure \<^verbatim>\<open>finalize\<close>: the new trailers and its error; a panic in it
  leaves \<^verbatim>\<open>Read\<close> before the body is completed.
\<close>

definition signingBody_Read ::
  "hashes \<Rightarrow> (Digest list \<Rightarrow> header \<Rightarrow> header \<times> goerr option) \<Rightarrow> goerr option \<Rightarrow> int \<Rightarrow> readResult \<Rightarrow> signingBody \<Rightarrow>
   (int \<times> goerr option) \<times> signingBody" where
  "signingBody_Read H fin ctxErr len r b =
     (case readEnter b of
        Some out \<Rightarrow> (out, b)
      | None \<Rightarrow>
          (case ctxErr of
             Some err \<Rightarrow> ((0, Some err), completeLocked (Some err) b)
           | None \<Rightarrow>
               (case readCommit H len r b of
                  (ReadReturns n e, b1) \<Rightarrow> ((n, e), b1)
                | (ReadFinalizes n digests, b1) \<Rightarrow>
                    (case fin digests (sbTrailer b1) of
                       (trailer, err) \<Rightarrow>
                         (case err of
                            Some (GoPanic m) \<Rightarrow> ((0, err), b1\<lparr>sbTrailer := trailer\<rparr>)
                          | _ \<Rightarrow> readComplete n err (b1\<lparr>sbTrailer := trailer\<rparr>))))))"

definition closeOnce :: "goerr option \<Rightarrow> signingBody \<Rightarrow> signingBody" where
  "closeOnce err b = (case sbCloseErr b of None \<Rightarrow> b\<lparr>sbCloseErr := Some err\<rparr> | Some _ \<Rightarrow> b)"

definition closeCommit :: "signingBody \<Rightarrow> goerr option \<times> signingBody" where
  "closeCommit b =
     (let closeErr = (case sbCloseErr b of None \<Rightarrow> None | Some e \<Rightarrow> e);
          b1 = (if closeErr \<noteq> None \<or> \<not> sbEofObserved b then completeLocked (Some (Sentinel ErrBodyRead)) b else b)
      in (if closeErr \<noteq> None then Some (Sentinel ErrBodyRead) else None, b1))"

definition signingBody_Close :: "goerr option \<Rightarrow> signingBody \<Rightarrow> goerr option \<times> signingBody" where
  "signingBody_Close err b = closeCommit (closeOnce err b)"

section \<open>Runs of the body\<close>

text \<open>
  Where the reading goroutine is, and what the transport has received. A failed \<^verbatim>\<open>finalize\<close> that panics
  leaves \<^verbatim>\<open>Read\<close> without completing the body.
\<close>

datatype reader =
    ReaderIdle
  | ReaderEntered
  | ReaderGot int readResult
  | ReaderFinalizing int "Digest list" bytes
  | ReaderFinalized int "goerr option" bytes
  | ReaderPanicked

record stream =
  stBody :: signingBody
  stReader :: reader
  stDelivered :: bytes

datatype streamEvent =
    EvEnter
  | EvCancelled goerr
  | EvUnderlyingRead int readResult
  | EvCommit
  | EvFinalize
  | EvComplete
  | EvCloseUnderlying "goerr option"
  | EvCloseCommit

text \<open>A \<^verbatim>\<open>Read\<close> that returns \<open>n\<close> bytes hands the transport the first \<open>n\<close> bytes of its buffer.\<close>

fun streamStep ::
  "hashes \<Rightarrow> (Digest list \<Rightarrow> header \<Rightarrow> header \<times> goerr option) \<Rightarrow> streamEvent \<Rightarrow> stream \<Rightarrow> stream option" where
  "streamStep H fin EvEnter y =
     (case stReader y of
        ReaderIdle \<Rightarrow>
          (case readEnter (stBody y) of
             Some out \<Rightarrow> Some y
           | None \<Rightarrow> Some (y\<lparr>stReader := ReaderEntered\<rparr>))
      | _ \<Rightarrow> None)"
| "streamStep H fin (EvCancelled err) y =
     (case stReader y of
        ReaderEntered \<Rightarrow> Some (y\<lparr>stReader := ReaderIdle, stBody := completeLocked (Some err) (stBody y)\<rparr>)
      | _ \<Rightarrow> None)"
| "streamStep H fin (EvUnderlyingRead len r) y =
     (case stReader y of ReaderEntered \<Rightarrow> Some (y\<lparr>stReader := ReaderGot len r\<rparr>) | _ \<Rightarrow> None)"
| "streamStep H fin EvCommit y =
     (case stReader y of
        ReaderGot len r \<Rightarrow>
          (case readCommit H len r (stBody y) of
             (ReadReturns n e, b) \<Rightarrow>
               Some (y\<lparr>stReader := ReaderIdle, stBody := b, stDelivered := stDelivered y @ take (nat n) (chunk r)\<rparr>)
           | (ReadFinalizes n digests, b) \<Rightarrow>
               Some (y\<lparr>stReader := ReaderFinalizing n digests (take (nat n) (chunk r)), stBody := b\<rparr>))
      | _ \<Rightarrow> None)"
| "streamStep H fin EvFinalize y =
     (case stReader y of
        ReaderFinalizing n digests content \<Rightarrow>
          (case fin digests (sbTrailer (stBody y)) of
             (trailer, err) \<Rightarrow>
               Some (y\<lparr>stReader := (case err of Some (GoPanic m) \<Rightarrow> ReaderPanicked | _ \<Rightarrow> ReaderFinalized n err content),
                       stBody := (stBody y)\<lparr>sbTrailer := trailer\<rparr>\<rparr>))
      | _ \<Rightarrow> None)"
| "streamStep H fin EvComplete y =
     (case stReader y of
        ReaderFinalized n err content \<Rightarrow>
          Some (y\<lparr>stReader := ReaderIdle, stBody := snd (readComplete n err (stBody y)),
                  stDelivered := stDelivered y @ content\<rparr>)
      | _ \<Rightarrow> None)"
| "streamStep H fin (EvCloseUnderlying err) y =
     (if sbCloseErr (stBody y) \<noteq> None then None else Some (y\<lparr>stBody := closeOnce err (stBody y)\<rparr>))"
| "streamStep H fin EvCloseCommit y =
     (if sbCloseErr (stBody y) = None then None else Some (y\<lparr>stBody := snd (closeCommit (stBody y))\<rparr>))"

fun runStream ::
  "hashes \<Rightarrow> (Digest list \<Rightarrow> header \<Rightarrow> header \<times> goerr option) \<Rightarrow> streamEvent list \<Rightarrow> stream \<Rightarrow> stream option" where
  "runStream H fin [] y = Some y"
| "runStream H fin (ev # evs) y =
     (case streamStep H fin ev y of None \<Rightarrow> None | Some z \<Rightarrow> runStream H fin evs z)"

definition startStream :: "signingBody \<Rightarrow> stream" where
  "startStream b = \<lparr>stBody = b, stReader = ReaderIdle, stDelivered = []\<rparr>"

section \<open>The round tripper\<close>

record TrailerSigningRoundTripperConfig =
  TSTransport :: bool
  TSSigner :: "SigningProfile option option"
  TSLabel :: string
  TSAlgorithms :: "DigestAlgorithm list"
  TSMaxBytes :: int
  TSOptions :: "(Request \<Rightarrow> string res) option"
  TSExternalContext :: "(Request \<Rightarrow> ExternalRequestContext option res) option"

record TrailerSigningRoundTripper =
  tsSigner :: SigningProfile
  tsLabel :: string
  tsAlgorithms :: "DigestAlgorithm list"
  tsMaxBytes :: int
  tsOptions :: "Request \<Rightarrow> string res"
  tsExternalContext :: "(Request \<Rightarrow> ExternalRequestContext option res) option"

definition NewTrailerSigningRoundTripper ::
  "('p, 'd) httpsfv \<Rightarrow> hashes \<Rightarrow> TrailerSigningRoundTripperConfig \<Rightarrow> TrailerSigningRoundTripper res" where
  "NewTrailerSigningRoundTripper h H config =
     (case (TSSigner config, TSOptions config) of
        (Some (Some profile), Some options) \<Rightarrow>
          if \<not> TSTransport config \<or> \<not> validSignatureLabel (TSLabel config) \<or> TSMaxBytes config \<le> 0 \<or>
             \<not> signingProfileCoversTrailerDigest h profile \<or> signingProfileCoversProtocolDependentTrailerField profile
          then Inl (Sentinel ErrInvalidBodyIntegration)
          else if \<not> isOk (ComputeDigests H (TSAlgorithms config) []) then Inl (Sentinel ErrInvalidBodyIntegration)
          else Inr \<lparr>tsSigner = profile, tsLabel = TSLabel config, tsAlgorithms = [] @ TSAlgorithms config,
                    tsMaxBytes = TSMaxBytes config, tsOptions = options, tsExternalContext = TSExternalContext config\<rparr>
      | _ \<Rightarrow> Inl (Sentinel ErrInvalidBodyIntegration))"

text \<open>The framed clone without its body, the declared application trailers, and the body that replaces it.\<close>

definition startTrailerSigning ::
  "TrailerSigningRoundTripper \<Rightarrow> Request \<Rightarrow> (Request \<times> string set \<times> signingBody) res" where
  "startTrailerSigning t request =
     (if ReqBody request = NilBody then Inl (Sentinel ErrInvalidBodyIntegration)
      else if ReqMethod request = ''CONNECT'' then Inl (Sentinel ErrInvalidBodyIntegration)
      else
        bindRes (normalizeProtectedRequest request) (\<lambda>clone0.
        bindRes (normalizeTrailerFields (ReqTrailer clone0)) (\<lambda>trailer.
        if hasSignatureOrDigestFields (ReqHeader clone0) \<or> hasSignatureOrDigestFields trailer
        then Inl (Sentinel ErrExistingSignatures)
        else
          let declared = applicationTrailerNames trailer;
              trailer1 = headerPut (headerPut (headerPut trailer ''Content-Digest'' []) ''Signature-Input'' []) ''Signature'' [];
              header = deleteHeaderField (deleteHeaderField (deleteHeaderField (ReqHeader clone0)
                         ''Content-Length'') ''Transfer-Encoding'') ''Trailer'';
              clone = clone0\<lparr>ReqTrailer := trailer1, ReqContentLength := -1, ReqTransferEncoding := [''chunked''],
                             ReqHeader := header\<rparr>
          in bindRes (classified (Sentinel ErrInvalidBodyIntegration) (mapRes newDigestWriter (tsAlgorithms t))) (\<lambda>writers.
               Inr (clone, declared,
                    \<lparr>sbMaxBytes = tsMaxBytes t, sbWritten = 0, sbWriters = writers, sbTerminal = False,
                     sbEofObserved = False, sbResult = None, sbDone = None, sbCloseErr = None, sbTrailer = trailer1\<rparr>)))))"

definition signTrailers ::
  "('p, 'd) httpsfv \<Rightarrow> urls \<Rightarrow> hashes \<Rightarrow> crypto \<Rightarrow> signEnv \<Rightarrow> TrailerSigningRoundTripper \<Rightarrow> Request \<Rightarrow> Request \<Rightarrow>
   (string \<times> string) res" where
  "signTrailers h u H P env t request clone =
     bindRes (classified (Sentinel ErrHTTPIntegrationSigning) (tsOptions t request)) (\<lambda>given.
     bindRes (externalContext (tsExternalContext t) request (Sentinel ErrHTTPIntegrationSigning)) (\<lambda>external.
     bindRes (classified (Sentinel ErrHTTPIntegrationSigning)
                (Signer_Sign h u H P env (Some (tsSigner t)) (requestMessage clone external) (tsLabel t) given)) (\<lambda>sf.
     bindRes (SignatureInputField h sf) (\<lambda>i.
     bindRes (SignatureField h sf) (\<lambda>v.
     Inr (i, v))))))"

text \<open>
  The closure \<^verbatim>\<open>finalize\<close>: \<open>request\<close> is the original request as it is at the end of file, with the trailers
  its caller has set by then.
\<close>

definition finalizeTrailers ::
  "('p, 'd) httpsfv \<Rightarrow> urls \<Rightarrow> hashes \<Rightarrow> crypto \<Rightarrow> signEnv \<Rightarrow> TrailerSigningRoundTripper \<Rightarrow> Request \<Rightarrow> Request \<Rightarrow>
   string set \<Rightarrow> Digest list \<Rightarrow> header \<Rightarrow> header \<times> goerr option" where
  "finalizeTrailers h u H P env t request clone declared digests current =
     (case normalizeTrailerFields (ReqTrailer request) of
        Inl err \<Rightarrow> (current, Some err)
      | Inr trailers \<Rightarrow>
          if hasSignatureOrDigestFields trailers then (current, Some (Sentinel ErrExistingSignatures))
          else if \<not> sameTrailerNames declared (applicationTrailerNames trailers)
          then (current, Some (Sentinel ErrInvalidBodyIntegration))
          else
            case DigestField_String h digests of
              Inl err \<Rightarrow> (trailers, Some err)
            | Inr field \<Rightarrow>
                let trailer1 = headerSet trailers ''Content-Digest'' field in
                case signTrailers h u H P env t request (clone\<lparr>ReqTrailer := trailer1\<rparr>) of
                  Inl err \<Rightarrow> (trailer1, Some err)
                | Inr (i, v) \<Rightarrow> (headerSet (headerSet trailer1 ''Signature-Input'' i) ''Signature'' v, None))"

text \<open>The end of \<^verbatim>\<open>RoundTrip\<close>, once the transport has returned; \<open>closed\<close>: the response's body was closed.\<close>

datatype released = Released Response | Withheld goerr bool | TransportFailed goerr

definition releaseResponse ::
  "goerr option \<Rightarrow> Response option res \<Rightarrow> signingBody \<Rightarrow> released \<times> signingBody" where
  "releaseResponse closeErr reply b =
     (case reply of
        Inl err \<Rightarrow> (TransportFailed err, b)
      | Inr None \<Rightarrow> (Withheld (Sentinel ErrInvalidBodyIntegration) False, snd (signingBody_Close closeErr b))
      | Inr (Some response) \<Rightarrow>
          if sbDone b = Some True
          then (case sbResult b of
                  Some completionErr \<Rightarrow> (Withheld completionErr (RespBody response \<noteq> NilBody), b)
                | None \<Rightarrow> (Released response, b))
          else (Withheld (Sentinel ErrBodyRead) (RespBody response \<noteq> NilBody), snd (signingBody_Close closeErr b)))"

text \<open>
  \<^verbatim>\<open>RoundTrip\<close>: \<open>events\<close> is what happens to the body while the transport runs, \<open>atEof\<close> the original request
  at the end of file. A refusal closes the original body. \<open>None\<close> is a sequence of events that cannot happen.
\<close>

definition TrailerSigning_RoundTrip ::
  "('p, 'd) httpsfv \<Rightarrow> urls \<Rightarrow> hashes \<Rightarrow> crypto \<Rightarrow> signEnv \<Rightarrow> TrailerSigningRoundTripper option \<Rightarrow> Request option \<Rightarrow>
   Request \<Rightarrow> streamEvent list \<Rightarrow> Response option res \<Rightarrow> goerr option \<Rightarrow> (released \<times> stream option) option" where
  "TrailerSigning_RoundTrip h u H P env transport request atEof events reply closeErr =
     (case (transport, request) of
        (Some t, Some r) \<Rightarrow>
          (case startTrailerSigning t r of
             Inl err \<Rightarrow> Some (Withheld err False, None)
           | Inr (clone, declared, b) \<Rightarrow>
               map_option (\<lambda>y. case releaseResponse closeErr reply (stBody y) of (out, b') \<Rightarrow> (out, Some (y\<lparr>stBody := b'\<rparr>)))
                 (runStream H (finalizeTrailers h u H P env t atEof clone declared) events (startStream (completion b))))
      | _ \<Rightarrow> Some (Withheld (Sentinel ErrInvalidBodyIntegration) False, None))"

section \<open>Invariant of the runs\<close>

abbreviation writersOf :: "DigestAlgorithm list \<Rightarrow> bytes \<Rightarrow> digestWriter list" where
  "writersOf algorithms content \<equiv> map (\<lambda>a. \<lparr>dwAlgorithm = a, dwWritten = content\<rparr>) algorithms"

fun pendingBytes :: "reader \<Rightarrow> bytes" where
  "pendingBytes (ReaderFinalizing n digests content) = content"
| "pendingBytes (ReaderFinalized n err content) = content"
| "pendingBytes _ = []"

text \<open>What the position of the reader says about the end of file, the digests and the trailers.\<close>

fun readerInv ::
  "hashes \<Rightarrow> (Digest list \<Rightarrow> header \<Rightarrow> header \<times> goerr option) \<Rightarrow> header \<Rightarrow> signingBody \<Rightarrow> reader \<Rightarrow> bool" where
  "readerInv H fin t0 b ReaderIdle \<longleftrightarrow> (sbEofObserved b \<longrightarrow> sbTerminal b)"
| "readerInv H fin t0 b ReaderEntered \<longleftrightarrow> \<not> sbEofObserved b"
| "readerInv H fin t0 b (ReaderGot len r) \<longleftrightarrow> \<not> sbEofObserved b"
| "readerInv H fin t0 b (ReaderFinalizing n digests content) \<longleftrightarrow>
     sbEofObserved b \<and> digests = sumDigests H (sbWriters b) \<and> sbTrailer b = t0"
| "readerInv H fin t0 b (ReaderFinalized n err content) \<longleftrightarrow>
     sbEofObserved b \<and> fin (sumDigests H (sbWriters b)) t0 = (sbTrailer b, err)"
| "readerInv H fin t0 b ReaderPanicked \<longleftrightarrow> True"

definition streamInv ::
  "hashes \<Rightarrow> (Digest list \<Rightarrow> header \<Rightarrow> header \<times> goerr option) \<Rightarrow> DigestAlgorithm list \<Rightarrow> int \<Rightarrow> header \<Rightarrow> stream \<Rightarrow> bool" where
  "streamInv H fin algorithms maxBytes t0 y \<longleftrightarrow>
     (let b = stBody y in
      \<exists>content. sbWriters b = writersOf algorithms content \<and> sbWritten b = go_len content \<and>
        sbMaxBytes b = maxBytes \<and> go_len content \<le> maxBytes \<and>
        prefix (stDelivered y) content \<and>
        (stReader y \<noteq> ReaderPanicked \<longrightarrow> content = stDelivered y @ pendingBytes (stReader y)) \<and>
        sbDone b = Some (sbTerminal b) \<and> (\<not> sbEofObserved b \<longrightarrow> sbTrailer b = t0) \<and>
        readerInv H fin t0 b (stReader y) \<and>
        (sbTerminal b \<and> sbResult b = None \<longrightarrow>
           stReader y = ReaderIdle \<and> sbEofObserved b \<and> fin (sumDigests H (sbWriters b)) t0 = (sbTrailer b, None)))"

lemma completeLocked_simps [simp]:
  "sbWriters (completeLocked e b) = sbWriters b" "sbWritten (completeLocked e b) = sbWritten b"
  "sbMaxBytes (completeLocked e b) = sbMaxBytes b" "sbEofObserved (completeLocked e b) = sbEofObserved b"
  "sbTrailer (completeLocked e b) = sbTrailer b" "sbCloseErr (completeLocked e b) = sbCloseErr b"
  "sbTerminal (completeLocked e b)"
  "sbResult (completeLocked e b) = (if sbTerminal b then sbResult b else e)"
  by (simp_all add: completeLocked_def)

lemma completeLocked_done: "sbDone b = Some (sbTerminal b) \<Longrightarrow> sbDone (completeLocked e b) = Some True"
  by (simp add: completeLocked_def)

lemma closeOnce_simps [simp]:
  "sbWriters (closeOnce e b) = sbWriters b" "sbWritten (closeOnce e b) = sbWritten b"
  "sbMaxBytes (closeOnce e b) = sbMaxBytes b" "sbEofObserved (closeOnce e b) = sbEofObserved b"
  "sbTrailer (closeOnce e b) = sbTrailer b" "sbTerminal (closeOnce e b) = sbTerminal b"
  "sbResult (closeOnce e b) = sbResult b" "sbDone (closeOnce e b) = sbDone b"
  by (simp_all add: closeOnce_def split: option.splits)

lemma readerInv_cong:
  "sbEofObserved b' = sbEofObserved b \<Longrightarrow> sbWriters b' = sbWriters b \<Longrightarrow> sbTrailer b' = sbTrailer b \<Longrightarrow>
   (sbTerminal b \<Longrightarrow> sbTerminal b') \<Longrightarrow> readerInv H fin t0 b p \<Longrightarrow> readerInv H fin t0 b' p"
  by (cases p) auto

text \<open>Completing with an error, from any goroutine, keeps the invariant.\<close>

lemma streamInv_fail:
  assumes "streamInv H fin algorithms maxBytes t0 y"
  shows "streamInv H fin algorithms maxBytes t0 (y\<lparr>stBody := completeLocked (Some e) (stBody y)\<rparr>)"
proof -
  have "readerInv H fin t0 (completeLocked (Some e) (stBody y)) (stReader y)"
    if "readerInv H fin t0 (stBody y) (stReader y)"
    using that by (rule readerInv_cong [rotated 4]) simp_all
  then show ?thesis
    using assms by (auto simp: streamInv_def Let_def completeLocked_done split: if_splits)
qed

lemma map_hashWrite: "map (hashWrite c) (writersOf algorithms content) = writersOf algorithms (content @ c)"
  by (simp add: hashWrite_def)

lemma hashWrite_comp [simp]:
  "hashWrite c \<circ> (\<lambda>a. \<lparr>dwAlgorithm = a, dwWritten = content\<rparr>) = (\<lambda>a. \<lparr>dwAlgorithm = a, dwWritten = content @ c\<rparr>)"
  by (rule ext) (simp add: hashWrite_def)

lemma take_chunk [simp]: "take (nat (rrCount r)) (chunk r) = chunk r"
  by (simp add: chunk_def)

lemma streamInv_commit:
  assumes inv: "streamInv H fin algorithms maxBytes t0 y" and p: "stReader y = ReaderGot len r"
    and step: "streamStep H fin EvCommit y = Some z"
  shows "streamInv H fin algorithms maxBytes t0 z"
proof -
  let ?b = "stBody y"
  obtain content where c: "sbWriters ?b = writersOf algorithms content" "sbWritten ?b = go_len content"
    "sbMaxBytes ?b = maxBytes" "go_len content \<le> maxBytes" "content = stDelivered y"
    "sbDone ?b = Some (sbTerminal ?b)" "sbTrailer ?b = t0" "\<not> sbEofObserved ?b" "sbTerminal ?b \<longrightarrow> sbResult ?b \<noteq> None"
    using inv p by (auto simp: streamInv_def Let_def)
  have fail: "streamInv H fin algorithms maxBytes t0 (y\<lparr>stReader := ReaderIdle, stBody := completeLocked (Some e) ?b\<rparr>)" for e
    using c by (auto simp: streamInv_def Let_def completeLocked_done)
  have keep: "streamInv H fin algorithms maxBytes t0 (y\<lparr>stReader := ReaderIdle\<rparr>)"
    using c by (auto simp: streamInv_def Let_def)
  let ?b1 = "?b\<lparr>sbWritten := sbWritten ?b + rrCount r, sbWriters := map (hashWrite (chunk r)) (sbWriters ?b)\<rparr>"
  have b1: "sbWriters ?b1 = writersOf algorithms (content @ chunk r)" using c(1) map_hashWrite by simp
  show ?thesis
  proof (cases "rrCount r < 0 \<or> rrCount r > len \<or> sbTerminal ?b \<or> rrCount r > maxBytes - go_len content \<or>
      rrCount r = 0 \<and> rrErr r = None")
    case True
    then show ?thesis
      using step p c(2,3) fail keep by (auto simp: readCommit_def split: if_splits option.splits)
  next
    case False
    then have len: "go_len (content @ chunk r) \<le> maxBytes" "sbWritten ?b1 = go_len (content @ chunk r)"
      using c(2) by simp_all
    show ?thesis
    proof (cases "rrErr r")
      case None
      then have "z = y\<lparr>stReader := ReaderIdle, stBody := ?b1, stDelivered := stDelivered y @ chunk r\<rparr>"
        using False step p c(2,3) by (simp add: readCommit_def Let_def)
      then show ?thesis
        using False c len b1 by (auto simp: streamInv_def Let_def intro!: exI [of _ "content @ chunk r"])
    next
      case (Some err)
      then have "z = (if \<not> errorsIs err IoEOF
          then y\<lparr>stReader := ReaderIdle, stBody := completeLocked (Some (Sentinel ErrBodyRead)) ?b1,
                 stDelivered := stDelivered y @ chunk r\<rparr>
          else y\<lparr>stReader := ReaderFinalizing (rrCount r) (sumDigests H (sbWriters ?b1)) (chunk r),
                 stBody := ?b1\<lparr>sbEofObserved := True\<rparr>\<rparr>)"
        using False step p c(2,3) by (cases "errorsIs err IoEOF") (simp_all add: readCommit_def Let_def)
      then show ?thesis
        using False c len b1 completeLocked_done [of ?b1]
        by (auto simp: streamInv_def Let_def intro!: exI [of _ "content @ chunk r"])
    qed
  qed
qed

lemma streamInv_close:
  assumes "streamInv H fin algorithms maxBytes t0 y"
  shows "streamInv H fin algorithms maxBytes t0 (y\<lparr>stBody := closeOnce e (stBody y)\<rparr>)"
    and "streamInv H fin algorithms maxBytes t0 (y\<lparr>stBody := snd (closeCommit (stBody y))\<rparr>)"
proof -
  have "readerInv H fin t0 (closeOnce e (stBody y)) (stReader y)" if "readerInv H fin t0 (stBody y) (stReader y)"
    using that by (rule readerInv_cong [rotated 4]) simp_all
  then show "streamInv H fin algorithms maxBytes t0 (y\<lparr>stBody := closeOnce e (stBody y)\<rparr>)"
    using assms by (auto simp: streamInv_def Let_def)
  show "streamInv H fin algorithms maxBytes t0 (y\<lparr>stBody := snd (closeCommit (stBody y))\<rparr>)"
    using streamInv_fail [OF assms, of "Sentinel ErrBodyRead"] assms
    by (cases y) (auto simp: closeCommit_def Let_def)
qed

lemma streamInv_finalize:
  assumes inv: "streamInv H fin algorithms maxBytes t0 y" and p: "stReader y = ReaderFinalizing n digests content"
    and step: "streamStep H fin EvFinalize y = Some z"
  shows "streamInv H fin algorithms maxBytes t0 z"
proof -
  let ?b = "stBody y"
  obtain trailer err where f: "fin digests (sbTrailer ?b) = (trailer, err)" by fastforce
  have b: "sbEofObserved ?b" "digests = sumDigests H (sbWriters ?b)" "sbTrailer ?b = t0"
    "sbTerminal ?b \<longrightarrow> sbResult ?b \<noteq> None"
    using inv p by (auto simp: streamInv_def Let_def)
  have z: "z = y\<lparr>stReader := (case err of Some (GoPanic m) \<Rightarrow> ReaderPanicked | _ \<Rightarrow> ReaderFinalized n err content),
                 stBody := ?b\<lparr>sbTrailer := trailer\<rparr>\<rparr>"
    using step p f by simp
  have "stReader z = ReaderPanicked \<or> stReader z = ReaderFinalized n err content"
    using z by (auto split: option.splits goerr.splits)
  then show ?thesis
    using inv p b f z by (auto simp: streamInv_def Let_def)
qed

lemma streamInv_complete:
  assumes inv: "streamInv H fin algorithms maxBytes t0 y" and p: "stReader y = ReaderFinalized n err content"
  shows "streamInv H fin algorithms maxBytes t0
    (y\<lparr>stReader := ReaderIdle, stBody := completeLocked err (stBody y), stDelivered := stDelivered y @ content\<rparr>)"
  using assms by (auto simp: streamInv_def Let_def completeLocked_done)

lemma streamInv_step:
  assumes inv: "streamInv H fin algorithms maxBytes t0 y" and step: "streamStep H fin ev y = Some z"
  shows "streamInv H fin algorithms maxBytes t0 z"
proof (cases ev)
  case EvEnter
  then show ?thesis
    using step inv by (auto simp: readEnter_def streamInv_def Let_def split: if_splits reader.splits)
next
  case (EvCancelled err)
  then show ?thesis
    using step streamInv_fail [OF inv, of err] by (auto simp: streamInv_def Let_def split: reader.splits)
next
  case (EvUnderlyingRead len r)
  then show ?thesis using step inv by (auto simp: streamInv_def Let_def split: reader.splits)
next
  case EvCommit
  then show ?thesis
    using step streamInv_commit [OF inv] by (cases "stReader y") (auto split: prod.splits readStep.splits)
next
  case EvFinalize
  then show ?thesis
    using step streamInv_finalize [OF inv] by (cases "stReader y") (auto split: prod.splits)
next
  case EvComplete
  then show ?thesis
    using step streamInv_complete [OF inv] by (cases "stReader y") (auto simp: readComplete_def)
next
  case (EvCloseUnderlying err)
  then show ?thesis using step streamInv_close(1) [OF inv] by (auto split: if_splits)
next
  case EvCloseCommit
  then show ?thesis using step streamInv_close(2) [OF inv] by (auto split: if_splits)
qed

lemma streamInv_run:
  "runStream H fin evs y = Some z \<Longrightarrow> streamInv H fin algorithms maxBytes t0 y \<Longrightarrow>
   streamInv H fin algorithms maxBytes t0 z"
  by (induction evs arbitrary: y) (auto dest: streamInv_step split: option.splits)

lemma streamInv_bound:
  assumes "streamInv H fin algorithms maxBytes t0 y"
  shows "go_len (stDelivered y) \<le> maxBytes" "sbDone (stBody y) = Some (sbTerminal (stBody y))"
proof -
  obtain content where "prefix (stDelivered y) content" "go_len content \<le> maxBytes"
    "sbDone (stBody y) = Some (sbTerminal (stBody y))"
    using assms unfolding streamInv_def Let_def by blast
  then show "go_len (stDelivered y) \<le> maxBytes" "sbDone (stBody y) = Some (sbTerminal (stBody y))"
    using prefix_length_le by fastforce+
qed

lemma streamInv_finished:
  assumes "streamInv H fin algorithms maxBytes t0 y" "sbTerminal (stBody y)" "sbResult (stBody y) = None"
  shows "fin (sumDigests H (writersOf algorithms (stDelivered y))) t0 = (sbTrailer (stBody y), None)"
    "stReader y = ReaderIdle"
proof -
  obtain content where c: "sbWriters (stBody y) = writersOf algorithms content"
    "stReader y \<noteq> ReaderPanicked \<longrightarrow> content = stDelivered y @ pendingBytes (stReader y)"
    "stReader y = ReaderIdle" "fin (sumDigests H (sbWriters (stBody y))) t0 = (sbTrailer (stBody y), None)"
    using assms unfolding streamInv_def Let_def by blast
  then show "fin (sumDigests H (writersOf algorithms (stDelivered y))) t0 = (sbTrailer (stBody y), None)"
    "stReader y = ReaderIdle" by simp_all
qed

text \<open>The first completion is final, and what was delivered stays delivered.\<close>

lemma terminal_step:
  assumes "streamStep H fin ev y = Some z" "sbTerminal (stBody y)"
  shows "sbTerminal (stBody z) \<and> sbResult (stBody z) = sbResult (stBody y)"
  using assms
  by (cases ev)
    (auto simp: readCommit_def readComplete_def closeCommit_def Let_def
      split: if_splits reader.splits prod.splits option.splits readStep.splits)

lemma terminal_run:
  "runStream H fin evs y = Some z \<Longrightarrow> sbTerminal (stBody y) \<Longrightarrow>
   sbTerminal (stBody z) \<and> sbResult (stBody z) = sbResult (stBody y)"
  by (induction evs arbitrary: y) (auto dest!: terminal_step split: option.splits)

lemma runStream_append:
  "runStream H fin (evs @ evs2) y =
     (case runStream H fin evs y of None \<Rightarrow> None | Some z \<Rightarrow> runStream H fin evs2 z)"
  by (induction evs arbitrary: y) (auto split: option.splits)

section \<open>The streamed digests are those of \<^verbatim>\<open>ComputeDigests\<close>\<close>

lemma hashSum_writers:
  assumes "list_all2 (digestEntry H content) algorithms es"
  shows "map (hashSum H) (writersOf algorithms content) = es"
  using assms by (induction rule: list_all2_induct) (auto simp: hashSum_def digestEntry_def checksum_def split: if_splits)

lemma sumDigests_eq:
  "ComputeDigests H algorithms content = Inr field \<Longrightarrow> sumDigests H (writersOf algorithms content) = field"
  by (erule ComputeDigests_ok) (simp only: sumDigests_def hashSum_writers)

text \<open>Whether the algorithms are acceptable does not depend on the content.\<close>

lemma computeDigests_loop_isOk:
  "isOk (computeDigests_loop H c seen es as) \<longleftrightarrow>
   distinct as \<and> set as \<inter> seen = {} \<and> set as \<subseteq> {SHA256, SHA512}"
  by (induction as arbitrary: seen es) (auto simp: checksum_def)

lemma ComputeDigests_isOk:
  "isOk (ComputeDigests H as c) \<longleftrightarrow> as \<noteq> [] \<and> distinct as \<and> set as \<subseteq> {SHA256, SHA512}"
  using computeDigests_loop_isOk [of H c "{}" "[]" as]
  by (auto simp: ComputeDigests_def isOk_def split: sum.splits)

lemma newWriters: "set as \<subseteq> {SHA256, SHA512} \<Longrightarrow> mapRes newDigestWriter as = Inr (writersOf as [])"
  by (induction as) (auto simp: newDigestWriter_def)

section \<open>Whole reads\<close>

definition readEvents :: "int \<Rightarrow> readResult \<Rightarrow> streamEvent list" where
  "readEvents len r = [EvEnter, EvUnderlyingRead len r, EvCommit]"

text \<open>An uninterrupted \<^verbatim>\<open>Read\<close> is the run of its events.\<close>

lemma read_is_run:
  assumes "stReader y = ReaderIdle" "readEnter (stBody y) = None"
  shows "(case readCommit H len r (stBody y) of
      (ReadReturns n e, b1) \<Rightarrow>
        signingBody_Read H fin None len r (stBody y) = ((n, e), b1) \<and>
        runStream H fin (readEvents len r) y =
          Some (y\<lparr>stBody := b1, stDelivered := stDelivered y @ take (nat n) (chunk r)\<rparr>)
    | (ReadFinalizes n digests, b1) \<Rightarrow>
        (\<forall>trailer err. fin digests (sbTrailer b1) = (trailer, err) \<and> (\<forall>m. err \<noteq> Some (GoPanic m)) \<longrightarrow>
           signingBody_Read H fin None len r (stBody y) = readComplete n err (b1\<lparr>sbTrailer := trailer\<rparr>) \<and>
           runStream H fin (readEvents len r @ [EvFinalize, EvComplete]) y =
             Some (y\<lparr>stBody := snd (signingBody_Read H fin None len r (stBody y)),
                     stDelivered := stDelivered y @ take (nat n) (chunk r)\<rparr>)))"
  using assms
  by (cases y)
    (auto simp: signingBody_Read_def readEvents_def split: prod.splits readStep.splits option.splits goerr.splits)

lemma readCommit_data:
  assumes "\<not> sbTerminal b" "0 < rrCount r" "rrCount r \<le> len" "rrCount r \<le> sbMaxBytes b - sbWritten b" "rrErr r = None"
  shows "readCommit H len r b =
    (ReadReturns (rrCount r) None,
     b\<lparr>sbWritten := sbWritten b + rrCount r, sbWriters := map (hashWrite (chunk r)) (sbWriters b)\<rparr>)"
  using assms by (simp add: readCommit_def Let_def)

lemma readCommit_end:
  assumes "\<not> sbTerminal b" "0 \<le> rrCount r" "rrCount r \<le> len" "rrCount r \<le> sbMaxBytes b - sbWritten b"
    "rrErr r = Some err" "errorsIs err IoEOF"
  shows "readCommit H len r b =
    (ReadFinalizes (rrCount r) (sumDigests H (map (hashWrite (chunk r)) (sbWriters b))),
     b\<lparr>sbWritten := sbWritten b + rrCount r, sbWriters := map (hashWrite (chunk r)) (sbWriters b), sbEofObserved := True\<rparr>)"
  using assms by (simp add: readCommit_def Let_def)

definition bodyEvents :: "(nat \<Rightarrow> readResult) \<Rightarrow> nat \<Rightarrow> nat \<Rightarrow> streamEvent list" where
  "bodyEvents rd k n = concat (map (\<lambda>i. readEvents readBufferSize (rd i)) [k..<Suc n]) @ [EvFinalize, EvComplete]"

lemma bodyEvents_step: "k < n \<Longrightarrow> bodyEvents rd k n = readEvents readBufferSize (rd k) @ bodyEvents rd (Suc k) n"
  by (simp add: bodyEvents_def upt_conv_Cons)

lemma bodyEvents_last: "bodyEvents rd n n = readEvents readBufferSize (rd n) @ [EvFinalize, EvComplete]"
  by (simp add: bodyEvents_def)

text \<open>A body read to its end is finalised with its digests, and completed with the error of that.\<close>

lemma run_body:
  assumes "completeBody (\<lambda>_. None) rd k n" "\<not> sbTerminal (stBody y)" "stReader y = ReaderIdle"
    and "sbWriters (stBody y) = writersOf algorithms (stDelivered y)" "sbWritten (stBody y) = go_len (stDelivered y)"
    and "go_len (stDelivered y @ deliveredBytes rd k n) \<le> sbMaxBytes (stBody y)"
    and "fin (sumDigests H (writersOf algorithms (stDelivered y @ deliveredBytes rd k n))) (sbTrailer (stBody y)) = (trailer, err)"
    and "\<forall>m. err \<noteq> Some (GoPanic m)"
  shows "\<exists>z. runStream H fin (bodyEvents rd k n) y = Some z \<and> stReader z = ReaderIdle \<and>
    stDelivered z = stDelivered y @ deliveredBytes rd k n \<and> sbTerminal (stBody z) \<and> sbResult (stBody z) = err \<and>
    sbTrailer (stBody z) = trailer \<and> sbDone (stBody z) = map_option (\<lambda>_. True) (sbDone (stBody y))"
  using assms
proof (induction "n - k" arbitrary: k y)
  case 0
  then have k: "k = n" by (simp add: completeBody_def)
  let ?b = "stBody y"
  obtain e where e: "0 \<le> rrCount (rd n)" "rrCount (rd n) \<le> readBufferSize" "rrErr (rd n) = Some e" "errorsIs e IoEOF"
    using 0(2) unfolding k completeBody_last by blast
  have room: "rrCount (rd n) \<le> sbMaxBytes ?b - sbWritten ?b" using 0(6,7) e(1) by (simp add: k deliveredBytes_last)
  note commit = readCommit_end [OF 0(3) e(1,2) room e(3,4), of H]
  have "readEnter ?b = None" using 0(3) by (simp add: readEnter_def)
  then show ?case
    using 0 commit by (cases err)
      (auto simp: k bodyEvents_last readEvents_def readComplete_def map_hashWrite deliveredBytes_last completeLocked_def
        split: goerr.splits)
next
  case (Suc m)
  then have kn: "k < n" and m: "m = n - Suc k" by simp_all
  let ?b = "stBody y"
  let ?y = "y\<lparr>stBody := ?b\<lparr>sbWritten := sbWritten ?b + rrCount (rd k), sbWriters := map (hashWrite (chunk (rd k))) (sbWriters ?b)\<rparr>,
              stDelivered := stDelivered y @ chunk (rd k)\<rparr>"
  note c = Suc.prems(1) [unfolded completeBody_step [OF kn]]
  note d = deliveredBytes_step [OF kn, of rd]
  have room: "rrCount (rd k) \<le> sbMaxBytes ?b - sbWritten ?b" "0 < rrCount (rd k)" using Suc.prems(5,6) c by (simp_all add: d)
  have enter: "readEnter ?b = None" using Suc.prems(2) by (simp add: readEnter_def)
  have commit: "readCommit H readBufferSize (rd k) ?b = (ReadReturns (rrCount (rd k)) None, stBody ?y)"
    using readCommit_data [OF Suc.prems(2) room(2) _ room(1), of readBufferSize H] c by simp
  have one: "runStream H fin (readEvents readBufferSize (rd k)) y = Some ?y"
    using read_is_run [OF Suc.prems(3) enter, where H = H and fin = fin and len = readBufferSize and r = "rd k"] commit by simp
  have "\<exists>z. runStream H fin (bodyEvents rd (Suc k) n) ?y = Some z \<and> stReader z = ReaderIdle \<and>
    stDelivered z = stDelivered ?y @ deliveredBytes rd (Suc k) n \<and> sbTerminal (stBody z) \<and> sbResult (stBody z) = err \<and>
    sbTrailer (stBody z) = trailer \<and> sbDone (stBody z) = map_option (\<lambda>_. True) (sbDone (stBody ?y))"
    by (rule Suc.hyps(1) [OF m]) (use Suc.prems c room in \<open>simp_all add: d map_hashWrite\<close>)
  then show ?case using one by (simp add: bodyEvents_step [OF kn] runStream_append d)
qed

section \<open>The round tripper\<close>

lemma startTrailerSigning_ok:
  assumes "startTrailerSigning t r = Inr (clone, declared, b)"
  obtains clone0 trailer where "normalizeProtectedRequest r = Inr clone0"
    "normalizeTrailerFields (ReqTrailer clone0) = Inr trailer" "declared = applicationTrailerNames trailer"
    "ReqBody r \<noteq> NilBody" "ReqMethod r \<noteq> ''CONNECT''"
    "\<not> hasSignatureOrDigestFields (ReqHeader clone0)" "\<not> hasSignatureOrDigestFields trailer"
    "ReqContentLength clone = -1" "ReqTransferEncoding clone = [''chunked'']"
    "mapRes newDigestWriter (tsAlgorithms t) = Inr (sbWriters b)"
    "b = \<lparr>sbMaxBytes = tsMaxBytes t, sbWritten = 0, sbWriters = sbWriters b, sbTerminal = False,
          sbEofObserved = False, sbResult = None, sbDone = None, sbCloseErr = None, sbTrailer = ReqTrailer clone\<rparr>"
  using assms that unfolding startTrailerSigning_def
  by (auto simp: bindRes_Inr Let_def split: if_splits)

lemma startTrailerSigning_inv:
  assumes "startTrailerSigning t r = Inr (clone, declared, b)" "0 \<le> tsMaxBytes t"
    "isOk (ComputeDigests H (tsAlgorithms t) [])"
  shows "streamInv H fin (tsAlgorithms t) (tsMaxBytes t) (ReqTrailer clone) (startStream (completion b))"
proof -
  have "mapRes newDigestWriter (tsAlgorithms t) = Inr (writersOf (tsAlgorithms t) [])"
    using assms(3) newWriters unfolding ComputeDigests_isOk by blast
  then have "sbWriters b = writersOf (tsAlgorithms t) []"
    using startTrailerSigning_ok [OF assms(1)] by (metis sum.inject(2))
  moreover have "sbMaxBytes b = tsMaxBytes t" "sbWritten b = 0" "\<not> sbTerminal b" "\<not> sbEofObserved b" "sbDone b = None"
    "sbTrailer b = ReqTrailer clone"
    by (rule startTrailerSigning_ok [OF assms(1)], metis signingBody.simps)+
  ultimately show ?thesis
    using assms(2) by (simp add: streamInv_def startStream_def completion_def Let_def)
qed

lemma NewTrailerSigning_ok:
  assumes "NewTrailerSigningRoundTripper h H config = Inr t"
  shows "0 < tsMaxBytes t" "isOk (ComputeDigests H (tsAlgorithms t) c)" "signingProfileCoversTrailerDigest h (tsSigner t)"
    "validSignatureLabel (tsLabel t)"
proof -
  have "isOk (ComputeDigests H (tsAlgorithms t) [])"
    using assms by (auto simp: NewTrailerSigningRoundTripper_def split: option.splits if_splits)
  then show "isOk (ComputeDigests H (tsAlgorithms t) c)" by (simp add: ComputeDigests_isOk)
qed (use assms in \<open>auto simp: NewTrailerSigningRoundTripper_def split: option.splits if_splits\<close>)

lemma finalizeTrailers_ok:
  assumes "finalizeTrailers h u H P env t request clone declared digests current = (trailer, None)"
  obtains trailers d i v sf external given where
    "normalizeTrailerFields (ReqTrailer request) = Inr trailers" "\<not> hasSignatureOrDigestFields trailers"
    "sameTrailerNames declared (applicationTrailerNames trailers)" "DigestField_String h digests = Inr d"
    "Signer_Sign h u H P env (Some (tsSigner t))
       (requestMessage (clone\<lparr>ReqTrailer := headerSet trailers ''Content-Digest'' d\<rparr>) external) (tsLabel t) given = Inr sf"
    "SignatureInputField h sf = Inr i" "SignatureField h sf = Inr v"
    "trailer = headerSet (headerSet (headerSet trailers ''Content-Digest'' d) ''Signature-Input'' i) ''Signature'' v"
proof -
  obtain trailers d i v where f: "normalizeTrailerFields (ReqTrailer request) = Inr trailers"
    "\<not> hasSignatureOrDigestFields trailers" "sameTrailerNames declared (applicationTrailerNames trailers)"
    "DigestField_String h digests = Inr d"
    "signTrailers h u H P env t request (clone\<lparr>ReqTrailer := headerSet trailers ''Content-Digest'' d\<rparr>) = Inr (i, v)"
    "trailer = headerSet (headerSet (headerSet trailers ''Content-Digest'' d) ''Signature-Input'' i) ''Signature'' v"
    using assms by (auto simp: finalizeTrailers_def Let_def split: sum.splits if_splits)
  from f(5) obtain sf external given where
    "Signer_Sign h u H P env (Some (tsSigner t))
       (requestMessage (clone\<lparr>ReqTrailer := headerSet trailers ''Content-Digest'' d\<rparr>) external) (tsLabel t) given = Inr sf"
    "SignatureInputField h sf = Inr i" "SignatureField h sf = Inr v"
    unfolding signTrailers_def bindRes_Inr by auto
  with f that show ?thesis by blast
qed

lemma signedTrailer_values:
  "headerValues (headerSet (headerSet (headerSet trailers ''Content-Digest'' d) ''Signature-Input'' i) ''Signature'' v)
     ''Content-Digest'' = [d]"
  "headerValues (headerSet (headerSet (headerSet trailers ''Content-Digest'' d) ''Signature-Input'' i) ''Signature'' v)
     ''Signature-Input'' = [i]"
  "headerValues (headerSet (headerSet (headerSet trailers ''Content-Digest'' d) ''Signature-Input'' i) ''Signature'' v)
     ''Signature'' = [v]"
  by (simp_all add: headerValues_def headerSet_def headerPut_values headerPut_other)

lemma sameTrailerNames_eq: "finite left \<Longrightarrow> finite right \<Longrightarrow> sameTrailerNames left right \<longleftrightarrow> left = right"
  by (auto simp: sameTrailerNames_def dest: card_subset_eq [of right left])

lemma TrailerSigning_released:
  assumes "TrailerSigning_RoundTrip h u H P env (Some t) (Some r) atEof events reply closeErr = Some (Released response, Some y)"
  obtains clone declared b where "startTrailerSigning t r = Inr (clone, declared, b)" "reply = Inr (Some response)"
    "runStream H (finalizeTrailers h u H P env t atEof clone declared) events (startStream (completion b)) = Some y"
    "sbDone (stBody y) = Some True" "sbResult (stBody y) = None"
proof -
  obtain clone declared b where s: "startTrailerSigning t r = Inr (clone, declared, b)"
    using assms by (cases "startTrailerSigning t r") (auto simp: TrailerSigning_RoundTrip_def)
  let ?run = "runStream H (finalizeTrailers h u H P env t atEof clone declared) events (startStream (completion b))"
  obtain y0 b' where y: "?run = Some y0" "releaseResponse closeErr reply (stBody y0) = (Released response, b')"
    "y = y0\<lparr>stBody := b'\<rparr>"
  proof (cases ?run)
    case (Some y0)
    obtain out b' where "releaseResponse closeErr reply (stBody y0) = (out, b')" by fastforce
    then show ?thesis using that assms s Some by (simp add: TrailerSigning_RoundTrip_def)
  qed (use assms s in \<open>simp add: TrailerSigning_RoundTrip_def\<close>)
  have "reply = Inr (Some response) \<and> b' = stBody y0 \<and> sbDone (stBody y0) = Some True \<and> sbResult (stBody y0) = None"
    using y(2) by (auto simp: releaseResponse_def split: sum.splits option.splits if_splits)
  then show ?thesis using that s y by simp
qed

text \<open>After a completion without error nothing more is delivered and the trailers stay.\<close>

lemma finished_step:
  assumes "streamStep H fin ev y = Some z" "sbTerminal (stBody y)" "stReader y = ReaderIdle"
  shows "sbTerminal (stBody z) \<and> stReader z = ReaderIdle \<and> stDelivered z = stDelivered y \<and>
    sbTrailer (stBody z) = sbTrailer (stBody y)"
  using assms
  by (cases ev) (auto simp: readEnter_def closeCommit_def Let_def split: if_splits option.splits)

lemma finished_run:
  "runStream H fin evs y = Some z \<Longrightarrow> sbTerminal (stBody y) \<Longrightarrow> stReader y = ReaderIdle \<Longrightarrow>
   stDelivered z = stDelivered y \<and> sbTrailer (stBody z) = sbTrailer (stBody y)"
  by (induction evs arbitrary: y) (auto dest!: finished_step split: option.splits)

section \<open>Example\<close>

definition exampleStreaming :: TrailerSigningRoundTripper where
  "exampleStreaming =
     \<lparr>tsSigner = exampleSigningProfile\<lparr>SPComponents := [trailerDigestComponent]\<rparr>, tsLabel = ''s'', tsAlgorithms = [SHA256],
      tsMaxBytes = 4, tsOptions = (\<lambda>_. Inr ''n''), tsExternalContext = None\<rparr>"

definition exampleStreamingConfig :: TrailerSigningRoundTripperConfig where
  "exampleStreamingConfig =
     \<lparr>TSTransport = True, TSSigner = Some (Some (exampleSigningProfile\<lparr>SPComponents := [trailerDigestComponent]\<rparr>)),
      TSLabel = ''s'', TSAlgorithms = [SHA256], TSMaxBytes = 4, TSOptions = Some (\<lambda>_. Inr ''n''),
      TSExternalContext = None\<rparr>"

lemma exampleStreaming_new:
  "NewTrailerSigningRoundTripper exampleTrailerWire exampleHashes exampleStreamingConfig = Inr exampleStreaming"
proof -
  have "signingProfileCoversTrailerDigest exampleTrailerWire (exampleSigningProfile\<lparr>SPComponents := [trailerDigestComponent]\<rparr>)"
    by (simp add: signingProfileCoversTrailerDigest_def coversTrailerDigest_def)
  moreover have "\<not> signingProfileCoversProtocolDependentTrailerField
      (exampleSigningProfile\<lparr>SPComponents := [trailerDigestComponent]\<rparr>)"
    by (simp add: signingProfileCoversProtocolDependentTrailerField_def trailerDigestComponent_def)
  moreover have "isOk (ComputeDigests exampleHashes [SHA256] [])" "validSignatureLabel ''s''" by code_simp+
  ultimately show ?thesis
    by (simp add: NewTrailerSigningRoundTripper_def exampleStreamingConfig_def exampleStreaming_def)
qed

definition exampleRead :: "nat \<Rightarrow> readResult" where
  "exampleRead k = \<lparr>rrCount = 2, rrBuffer = (\<lambda>i. if i = 0 then CHR ''h'' else CHR ''i''), rrErr = Some (Sentinel IoEOF)\<rparr>"

definition exampleReply :: Response where
  "exampleReply = exampleReceived\<lparr>RespHeader := []\<rparr>"

definition exampleStreamed :: "(released \<times> stream option) option" where
  "exampleStreamed =
     TrailerSigning_RoundTrip exampleTrailerWire exampleURLs exampleHashes exampleCrypto exampleSignEnv
       (Some exampleStreaming) (Some exampleUpload) exampleUpload
       (bodyEvents exampleRead 0 0 @ [EvCloseUnderlying None, EvCloseCommit]) (Inr (Some exampleReply)) None"

lemma exampleStreamed_ok:
  "case exampleStreamed of Some (Released r, Some y) \<Rightarrow> stDelivered y = ''hi'' | _ \<Rightarrow> False"
  by code_simp

text \<open>The body of the example before it is read.\<close>

definition exampleSigningBody :: signingBody where
  "exampleSigningBody =
     \<lparr>sbMaxBytes = 4, sbWritten = 0, sbWriters = [\<lparr>dwAlgorithm = SHA256, dwWritten = []\<rparr>], sbTerminal = False,
      sbEofObserved = False, sbResult = None, sbDone = None, sbCloseErr = None,
      sbTrailer = [(''Content-Digest'', []), (''Signature-Input'', []), (''Signature'', [])]\<rparr>"

lemma exampleSigningBody_start:
  obtains clone declared where "startTrailerSigning exampleStreaming exampleUpload = Inr (clone, declared, exampleSigningBody)"
    "ReqTrailer clone = [(''Content-Digest'', []), (''Signature-Input'', []), (''Signature'', [])]" "declared = {}"
proof -
  have "case startTrailerSigning exampleStreaming exampleUpload of
      Inr (clone, declared, b) \<Rightarrow> b = exampleSigningBody \<and> declared = {} \<and>
        ReqTrailer clone = [(''Content-Digest'', []), (''Signature-Input'', []), (''Signature'', [])]
    | Inl _ \<Rightarrow> False" by code_simp
  then show ?thesis using that by (auto split: sum.splits prod.splits)
qed

lemma exampleFinalize_ok:
  "case startTrailerSigning exampleStreaming exampleUpload of
     Inl _ \<Rightarrow> False
   | Inr (clone, declared, b) \<Rightarrow>
       declared = {} \<and> b = exampleSigningBody \<and>
       (case ComputeDigests exampleHashes (tsAlgorithms exampleStreaming) ''hi'' of
          Inl _ \<Rightarrow> False
        | Inr field \<Rightarrow>
            (case finalizeTrailers exampleTrailerWire exampleURLs exampleHashes exampleCrypto exampleSignEnv exampleStreaming
                    exampleUpload clone declared field (ReqTrailer clone) of
               (trailer, None) \<Rightarrow> True | (trailer, Some _) \<Rightarrow> False))"
  by code_simp

section \<open>Properties\<close>



text \<open>What holds of the signing body in every run: the transport never receives more than the limit; the body
  completes successfully only with the outcome of \<^verbatim>\<open>finalize\<close> on the digests of exactly what was delivered;
  the first completion is final, whatever is called afterwards; and after a successful one nothing more is
  delivered and the trailers stay.\<close>

theorem trailer_body_invariant:
  assumes "NewTrailerSigningRoundTripper h H config = Inr t" "startTrailerSigning t r = Inr (clone, declared, b)"
    and "runStream H fin events (startStream (completion b)) = Some y"
  shows "go_len (stDelivered y) \<le> tsMaxBytes t \<and>
    (sbTerminal (stBody y) \<and> sbResult (stBody y) = None \<longrightarrow>
       (\<exists>field. ComputeDigests H (tsAlgorithms t) (stDelivered y) = Inr field \<and>
          fin field (ReqTrailer clone) = (sbTrailer (stBody y), None))) \<and>
    (\<forall>later z. sbTerminal (stBody y) \<and> runStream H fin later y = Some z \<longrightarrow>
       sbTerminal (stBody z) \<and> sbResult (stBody z) = sbResult (stBody y) \<and>
       (sbResult (stBody y) = None \<longrightarrow>
          stDelivered z = stDelivered y \<and> sbTrailer (stBody z) = sbTrailer (stBody y)))"
proof -
  note t = NewTrailerSigning_ok [OF assms(1)]
  have "0 \<le> tsMaxBytes t" using t(1) by simp
  note inv = streamInv_run [OF assms(3) startTrailerSigning_inv [OF assms(2) this t(2)]]
  obtain field where field: "ComputeDigests H (tsAlgorithms t) (stDelivered y) = Inr field"
    using t(2) [of "stDelivered y"] unfolding isOk_iff by blast
  show ?thesis
    using streamInv_bound(1) [OF inv] streamInv_finished [OF inv] field sumDigests_eq [OF field]
      terminal_run [of H fin _ y] finished_run [of H fin _ y] by auto
qed

theorem trailer_body_invariant_witness:
  "\<exists>y. runStream exampleHashes (\<lambda>digests trailer. ([], None)) (bodyEvents exampleRead 0 0)
       (startStream (completion exampleSigningBody)) = Some y \<and>
     sbTerminal (stBody y) \<and> go_len (stDelivered y) \<le> 4"
proof -
  obtain clone declared where s: "startTrailerSigning exampleStreaming exampleUpload = Inr (clone, declared, exampleSigningBody)"
    by (rule exampleSigningBody_start)
  have "case runStream exampleHashes (\<lambda>digests trailer. ([], None)) (bodyEvents exampleRead 0 0)
      (startStream (completion exampleSigningBody)) of Some y \<Rightarrow> sbTerminal (stBody y) | None \<Rightarrow> False" by code_simp
  then obtain y where y: "runStream exampleHashes (\<lambda>digests trailer. ([], None)) (bodyEvents exampleRead 0 0)
      (startStream (completion exampleSigningBody)) = Some y" "sbTerminal (stBody y)" by (auto split: option.splits)
  have "tsMaxBytes exampleStreaming = 4" by (simp add: exampleStreaming_def)
  with trailer_body_invariant [OF exampleStreaming_new s y(1)] y show ?thesis by auto
qed

text \<open>C35. A complete body is signed and its response released: when the original body delivers its data and then
  ends, within the limit, and \<^verbatim>\<open>finalize\<close> succeeds on its digests, the transport that reads it to the end
  receives all of it, and a response it then returns is released.\<close>

theorem trailer_signing_completes:
  assumes "NewTrailerSigningRoundTripper h H config = Inr t" "startTrailerSigning t r = Inr (clone, declared, b)"
    and "completeBody (\<lambda>_. None) rd 0 n" "go_len (deliveredBytes rd 0 n) \<le> tsMaxBytes t"
    and "ComputeDigests H (tsAlgorithms t) (deliveredBytes rd 0 n) = Inr field"
    and "finalizeTrailers h u H P env t atEof clone declared field (ReqTrailer clone) = (trailer, None)"
  shows "\<exists>y. TrailerSigning_RoundTrip h u H P env (Some t) (Some r) atEof (bodyEvents rd 0 n) (Inr (Some response)) closeErr =
      Some (Released response, Some y) \<and>
    stDelivered y = deliveredBytes rd 0 n \<and> sbTrailer (stBody y) = trailer"
proof -
  let ?y0 = "startStream (completion b)" and ?fin = "finalizeTrailers h u H P env t atEof clone declared"
  have t: "0 \<le> tsMaxBytes t" "isOk (ComputeDigests H (tsAlgorithms t) [])"
    using NewTrailerSigning_ok [OF assms(1)] by simp_all
  have w: "sbWriters b = writersOf (tsAlgorithms t) []"
    by (rule startTrailerSigning_ok [OF assms(2)]) (use t(2) newWriters in \<open>auto simp: ComputeDigests_isOk\<close>)
  have b: "sbMaxBytes b = tsMaxBytes t" "sbWritten b = 0" "\<not> sbTerminal b" "sbDone b = None" "sbTrailer b = ReqTrailer clone"
    by (rule startTrailerSigning_ok [OF assms(2)], metis signingBody.simps)+
  obtain z where z: "runStream H ?fin (bodyEvents rd 0 n) ?y0 = Some z"
    "stDelivered z = deliveredBytes rd 0 n" "sbResult (stBody z) = None" "sbTrailer (stBody z) = trailer"
    "sbDone (stBody z) = Some True"
    using run_body [OF assms(3), of ?y0 "tsAlgorithms t" ?fin H trailer None]
      w b assms(4,6) sumDigests_eq [OF assms(5)]
    by (auto simp: startStream_def completion_def)
  then show ?thesis
    by (intro exI [of _ z]) (simp add: TrailerSigning_RoundTrip_def assms(2) releaseResponse_def)
qed

theorem trailer_signing_completes_witness:
  "\<exists>y. TrailerSigning_RoundTrip exampleTrailerWire exampleURLs exampleHashes exampleCrypto exampleSignEnv
       (Some exampleStreaming) (Some exampleUpload) exampleUpload (bodyEvents exampleRead 0 0) (Inr (Some exampleReply)) None =
     Some (Released exampleReply, Some y) \<and> stDelivered y = ''hi''"
proof -
  have c: "completeBody (\<lambda>_. None) exampleRead 0 0"
    by (simp add: completeBody_last exampleRead_def readBufferSize_def)
  have d: "deliveredBytes exampleRead 0 0 = ''hi''"
    by (simp add: deliveredBytes_last exampleRead_def chunk_def numeral_2_eq_2)
  have m: "go_len (deliveredBytes exampleRead 0 0) \<le> tsMaxBytes exampleStreaming" by (simp add: d exampleStreaming_def)
  obtain field where f: "ComputeDigests exampleHashes (tsAlgorithms exampleStreaming) (deliveredBytes exampleRead 0 0) = Inr field"
    using NewTrailerSigning_ok(2) [OF exampleStreaming_new, of "deliveredBytes exampleRead 0 0"] unfolding isOk_iff by blast
  from exampleFinalize_ok f obtain clone trailer where
    "startTrailerSigning exampleStreaming exampleUpload = Inr (clone, {}, exampleSigningBody)"
    "finalizeTrailers exampleTrailerWire exampleURLs exampleHashes exampleCrypto exampleSignEnv exampleStreaming
       exampleUpload clone {} field (ReqTrailer clone) = (trailer, None)"
    by (auto simp: d split: sum.splits prod.splits option.splits)
  from trailer_signing_completes [OF exampleStreaming_new this(1) c m f this(2), of exampleReply None] d
  show ?thesis by auto
qed

end
