(* ===== verification/TrailerResponse.thy ===== *)
theory TrailerResponse
  imports TrailerSigning
begin

text \<open>
  The streaming half of \<^verbatim>\<open>body_integration.go\<close> for responses: \<^verbatim>\<open>trailerResponseWriter\<close>, which passes a handler's
  response on while it hashes the content, and \<^verbatim>\<open>TrailerResponseSigningMiddleware\<close>, which then signs the
  trailers or removes them. The handler is the sequence of its operations; the reactions of the wrapped
  writer to \<^verbatim>\<open>Write\<close> and \<^verbatim>\<open>Flush\<close> are part of them.
\<close>

section \<open>The streaming writer\<close>

text \<open>
  \<open>twHeader\<close> is the header map of the wrapped writer, which the handler shares; \<open>twSent\<close> the statuses passed to
  it and \<open>twEmitted\<close> the bytes it has taken.
\<close>

record trailerResponseWriter =
  twHeader :: header
  twMethod :: string
  twCommittedHeader :: header
  twTrailerNames :: "string list"
  twStatus :: int
  twMaxBytes :: int
  twWritten :: int
  twWriters :: "digestWriter list"
  twFailure :: "goerr option"
  twFailureStatus :: int
  twSent :: "int list"
  twEmitted :: bytes

fun trailerNames_loop :: "string list \<Rightarrow> string list \<Rightarrow> string list res" where
  "trailerNames_loop names [] = Inr names"
| "trailerNames_loop names (rawName # rest) =
     (let name = trim [CHR '' '', CHR 0x09] rawName; canonical = CanonicalHeaderKey name in
      if name = [] \<or> \<not> validHTTPToken name \<or> \<not> validResponseTrailerName canonical
      then Inl (Sentinel ErrInvalidBodyIntegration)
      else trailerNames_loop (List.insert canonical names) rest)"

definition responseTrailerNames :: "header \<Rightarrow> string list res" where
  "responseTrailerNames header =
     (case protectedFieldValues header ''Trailer'' of
        Inl err \<Rightarrow> Inl err
      | Inr (vs, present) \<Rightarrow>
          (case trailerNames_loop [''Content-Digest'', ''Signature'', ''Signature-Input'']
                  (if present then concat (map (split CHR '','') vs) else []) of
             Inl err \<Rightarrow> Inl err
           | Inr names \<Rightarrow> Inr (sort names)))"

definition rejectSuccessfulConnect :: "trailerResponseWriter \<Rightarrow> trailerResponseWriter" where
  "rejectSuccessfulConnect w =
     w\<lparr>twFailure := Some (Sentinel ErrInvalidBodyIntegration), twHeader := [], twSent := twSent w @ [501], twStatus := 501\<rparr>"

definition failureStatusCode :: "trailerResponseWriter \<Rightarrow> int" where
  "failureStatusCode w = (if twFailureStatus w \<noteq> 0 then twFailureStatus w else 500)"

definition declareTrailers :: "header \<Rightarrow> string list \<Rightarrow> header" where
  "declareTrailers header names =
     headerSet (deleteHeaderField (deleteHeaderField (deleteHeaderField header
       ''Content-Length'') ''Transfer-Encoding'') ''Trailer'') ''Trailer'' (join '','' names)"

definition tw_WriteHeader :: "int \<Rightarrow> trailerResponseWriter \<Rightarrow> trailerResponseWriter" where
  "tw_WriteHeader status w =
     (if twFailure w \<noteq> None \<or> twStatus w \<noteq> 0 then w
      else if status = 101
      then w\<lparr>twFailure := Some (Sentinel ErrInvalidBodyIntegration), twFailureStatus := 501\<rparr>
      else if twMethod w = ''CONNECT'' \<and> status \<ge> 200 \<and> status \<le> 299 then rejectSuccessfulConnect w
      else if status = 204 \<or> status = 205 \<or> status = 304
      then w\<lparr>twFailure := Some (Sentinel ErrInvalidBodyIntegration), twFailureStatus := 501\<rparr>
      else
        case normalizeProtectedHeader (twHeader w) of
          Inl err \<Rightarrow> w\<lparr>twFailure := Some err\<rparr>
        | Inr normalizedHeader \<Rightarrow>
            if hasSignatureOrDigestFields (twHeader w) then w\<lparr>twFailure := Some (Sentinel ErrExistingSignatures)\<rparr>
            else
              case responseTrailerNames (twHeader w) of
                Inl err \<Rightarrow> w\<lparr>twFailure := Some err\<rparr>
              | Inr trailerNames \<Rightarrow>
                  let w1 = w\<lparr>twHeader := declareTrailers (twHeader w) trailerNames, twSent := twSent w @ [status]\<rparr> in
                  if status < 100 \<or> status > 199 \<or> status = 101
                  then w1\<lparr>twStatus := status, twCommittedHeader := declareTrailers normalizedHeader trailerNames,
                          twTrailerNames := trailerNames\<rparr>
                  else w1)"

definition countsContent :: "trailerResponseWriter \<Rightarrow> bool" where
  "countsContent w \<longleftrightarrow> twMethod w \<noteq> ''HEAD'' \<and> responseBodyAllowed (twStatus w)"

text \<open>The accounting for the first \<open>n\<close> bytes of the content, which the wrapped writer has taken.\<close>

definition recordWritten :: "int \<Rightarrow> bytes \<Rightarrow> trailerResponseWriter \<Rightarrow> trailerResponseWriter" where
  "recordWritten n content w =
     (let taken = take (nat n) content;
          counted = (if countsContent w
            then w\<lparr>twWritten := twWritten w + n, twWriters := map (hashWrite taken) (twWriters w)\<rparr> else w)
      in counted\<lparr>twEmitted := twEmitted counted @ taken\<rparr>)"

text \<open>\<open>underlying\<close>: what the wrapped writer returns for this content.\<close>

definition tw_Write ::
  "bytes \<Rightarrow> int \<times> goerr option \<Rightarrow> trailerResponseWriter \<Rightarrow> (int \<times> goerr option) \<times> trailerResponseWriter" where
  "tw_Write content underlying w =
     (case twFailure w of
        Some failure \<Rightarrow> ((0, Some failure), w)
      | None \<Rightarrow>
          let w1 = (if twStatus w = 0 then tw_WriteHeader 200 w else w) in
          case twFailure w1 of
            Some failure \<Rightarrow> ((0, Some failure), w1)
          | None \<Rightarrow>
              if countsContent w1 \<and> go_len content > twMaxBytes w1 - twWritten w1
              then ((0, Some (Sentinel ErrBodyTooLarge)), w1\<lparr>twFailure := Some (Sentinel ErrBodyTooLarge)\<rparr>)
              else
                case underlying of
                  (n, err) \<Rightarrow>
                    if n < 0 \<or> n > go_len content
                    then ((0, Some (Sentinel ErrBodyRead)), w1\<lparr>twFailure := Some (Sentinel ErrBodyRead)\<rparr>)
                    else
                      let w2 = recordWritten n content w1 in
                      if err \<noteq> None \<or> n \<noteq> go_len content
                      then ((n, Some (Sentinel ErrBodyRead)), w2\<lparr>twFailure := Some (Sentinel ErrBodyRead)\<rparr>)
                      else ((n, None), w2))"

definition FlushError :: "goerr option \<Rightarrow> trailerResponseWriter \<Rightarrow> goerr option \<times> trailerResponseWriter" where
  "FlushError flushed w =
     (case twFailure w of
        Some failure \<Rightarrow> (Some failure, w)
      | None \<Rightarrow>
          let w1 = (if twStatus w = 0 then tw_WriteHeader 200 w else w) in
          case twFailure w1 of
            Some failure \<Rightarrow> (Some failure, w1)
          | None \<Rightarrow>
              (case flushed of
                 None \<Rightarrow> (None, w1)
               | Some err \<Rightarrow>
                   if errorsIs err HttpErrNotSupported then (Some err, w1)
                   else (Some (Sentinel ErrBodyRead), w1\<lparr>twFailure := Some (Sentinel ErrBodyRead)\<rparr>)))"

definition rejectProtocolBypass :: "trailerResponseWriter \<Rightarrow> trailerResponseWriter" where
  "rejectProtocolBypass w =
     (case twFailure w of None \<Rightarrow> w\<lparr>twFailure := Some (Sentinel ErrInvalidBodyIntegration)\<rparr> | Some _ \<Rightarrow> w)"

definition Hijack :: "trailerResponseWriter \<Rightarrow> goerr \<times> trailerResponseWriter" where
  "Hijack w = (Sentinel ErrInvalidBodyIntegration, rejectProtocolBypass w)"

definition EnableFullDuplex :: "trailerResponseWriter \<Rightarrow> goerr \<times> trailerResponseWriter" where
  "EnableFullDuplex w = (Sentinel ErrInvalidBodyIntegration, rejectProtocolBypass w)"

datatype streamOp =
    OpSetHeader header
  | OpWriteHeader int
  | OpWrite bytes "int \<times> goerr option"
  | OpFlush "goerr option"
  | OpHijack
  | OpEnableFullDuplex

fun applyOp :: "streamOp \<Rightarrow> trailerResponseWriter \<Rightarrow> trailerResponseWriter" where
  "applyOp (OpSetHeader header) w = w\<lparr>twHeader := header\<rparr>"
| "applyOp (OpWriteHeader status) w = tw_WriteHeader status w"
| "applyOp (OpWrite content underlying) w = snd (tw_Write content underlying w)"
| "applyOp (OpFlush flushed) w = snd (FlushError flushed w)"
| "applyOp OpHijack w = snd (Hijack w)"
| "applyOp OpEnableFullDuplex w = snd (EnableFullDuplex w)"

definition runStreamOps :: "streamOp list \<Rightarrow> trailerResponseWriter \<Rightarrow> trailerResponseWriter" where
  "runStreamOps ops w = foldl (\<lambda>w op. applyOp op w) w ops"

section \<open>The trailers to sign\<close>

fun declaredTrailers_loop :: "header \<Rightarrow> header \<Rightarrow> string list \<Rightarrow> header res" where
  "declaredTrailers_loop header trailers [] = Inr trailers"
| "declaredTrailers_loop header trailers (name # names) =
     (case protectedFieldValues header name of
        Inl err \<Rightarrow> Inl err
      | Inr (vs, _) \<Rightarrow> declaredTrailers_loop header (headerPut trailers name vs) names)"

fun lateTrailers_loop :: "string set \<Rightarrow> string set \<Rightarrow> header \<Rightarrow> header \<Rightarrow> header res" where
  "lateTrailers_loop declaredNames lateNames trailers [] = Inr trailers"
| "lateTrailers_loop declaredNames lateNames trailers ((key, vs) # rest) =
     (if \<not> hasPrefix key TrailerPrefix then lateTrailers_loop declaredNames lateNames trailers rest
      else
        let name = drop (length TrailerPrefix) key; canonical = CanonicalHeaderKey name in
        if name = [] \<or> \<not> validHTTPToken name \<or> \<not> validResponseTrailerName canonical
        then Inl (Sentinel ErrInvalidBodyIntegration)
        else if canonical \<in> declaredNames then Inl (Sentinel ErrAmbiguousProtectedField)
        else if canonical \<in> lateNames then Inl (Sentinel ErrAmbiguousProtectedField)
        else lateTrailers_loop declaredNames (insert canonical lateNames) (headerPut trailers canonical ([] @ vs)) rest)"

definition signingTrailers ::
  "('p, 'd) httpsfv \<Rightarrow> Digest list \<Rightarrow> trailerResponseWriter \<Rightarrow> header res" where
  "signingTrailers h digests w =
     bindRes (declaredTrailers_loop (twHeader w) [] (twTrailerNames w)) (\<lambda>declared.
     bindRes (lateTrailers_loop (set (twTrailerNames w)) {} declared (twHeader w)) (\<lambda>trailers.
     bindRes (DigestField_String h digests) (\<lambda>field.
     normalizeProtectedHeader (headerSet trailers ''Content-Digest'' field))))"

section \<open>The middleware\<close>

record TrailerResponseSigningMiddlewareConfig =
  TMSigner :: "SigningProfile option option"
  TMLabel :: string
  TMAlgorithms :: "DigestAlgorithm list"
  TMMaxBytes :: int
  TMOptions :: "(Request \<Rightarrow> string res) option"
  TMExternalContext :: "(Request \<Rightarrow> ExternalRequestContext option res) option"
  TMReportError :: bool

record trailerResponseSigning =
  tmSigner :: SigningProfile
  tmLabel :: string
  tmAlgorithms :: "DigestAlgorithm list"
  tmMaxBytes :: int
  tmOptions :: "Request \<Rightarrow> string res"
  tmExternalContext :: "(Request \<Rightarrow> ExternalRequestContext option res) option"

definition NewTrailerResponseSigningMiddleware ::
  "('p, 'd) httpsfv \<Rightarrow> hashes \<Rightarrow> TrailerResponseSigningMiddlewareConfig \<Rightarrow> trailerResponseSigning res" where
  "NewTrailerResponseSigningMiddleware h H config =
     (case (TMSigner config, TMOptions config) of
        (Some (Some profile), Some options) \<Rightarrow>
          if \<not> validSignatureLabel (TMLabel config) \<or> TMMaxBytes config \<le> 0 \<or> \<not> TMReportError config \<or>
             \<not> signingProfileCoversTrailerDigest h profile \<or> signingProfileCoversProtocolDependentTrailerField profile
          then Inl (Sentinel ErrInvalidBodyIntegration)
          else if \<not> isOk (ComputeDigests H (TMAlgorithms config) []) then Inl (Sentinel ErrInvalidBodyIntegration)
          else Inr \<lparr>tmSigner = profile, tmLabel = TMLabel config, tmAlgorithms = [] @ TMAlgorithms config,
                    tmMaxBytes = TMMaxBytes config, tmOptions = options, tmExternalContext = TMExternalContext config\<rparr>
      | _ \<Rightarrow> Inl (Sentinel ErrInvalidBodyIntegration))"

definition removeTrailerSigningFields :: "header \<Rightarrow> header" where
  "removeTrailerSigningFields header =
     filter (\<lambda>(name, _). \<not> hasPrefix name TrailerPrefix)
       (deleteHeaderField (deleteHeaderField (deleteHeaderField (deleteHeaderField header
          ''Content-Digest'') ''Signature-Input'') ''Signature'') ''Trailer'')"

text \<open>
  What one call leaves behind: the header map, from which the server sends the trailers, the statuses and the
  content that were sent, and the reported error; \<open>None\<close> when the response was signed.
\<close>

record servedTrailers =
  svHeader :: header
  svSent :: "int list"
  svEmitted :: bytes
  svReport :: "goerr option"

definition rejectUnsignedTrailerResponse :: "int \<Rightarrow> goerr \<Rightarrow> trailerResponseWriter \<Rightarrow> servedTrailers" where
  "rejectUnsignedTrailerResponse status err w =
     \<lparr>svHeader = [], svSent = twSent w @ [status], svEmitted = twEmitted w, svReport = Some err\<rparr>"

definition withdrawTrailers :: "goerr \<Rightarrow> trailerResponseWriter \<Rightarrow> servedTrailers" where
  "withdrawTrailers err w =
     \<lparr>svHeader = removeTrailerSigningFields (twHeader w), svSent = twSent w, svEmitted = twEmitted w, svReport = Some err\<rparr>"

text \<open>A panic of a callback leaves the handler; any other failure goes to \<open>recover\<close>.\<close>

definition orElse :: "'a res \<Rightarrow> (goerr \<Rightarrow> servedTrailers) \<Rightarrow> ('a \<Rightarrow> servedTrailers res) \<Rightarrow> servedTrailers res" where
  "orElse r recover k =
     (case r of Inl (GoPanic m) \<Rightarrow> Inl (GoPanic m) | Inl err \<Rightarrow> Inr (recover err) | Inr x \<Rightarrow> k x)"

definition configureTrailerSigningResponse :: "Request \<Rightarrow> Response \<Rightarrow> Response" where
  "configureTrailerSigningResponse relatedRequest response =
     (if ReqProtoMajor relatedRequest \<noteq> 1 then response
      else response\<lparr>RespProtoMajor := ReqProtoMajor relatedRequest, RespProtoMinor := ReqProtoMinor relatedRequest,
                    RespContentLength := -1, RespTransferEncoding := [''chunked'']\<rparr>)"

text \<open>The checks before the handler runs: the related request, the signing options and the external context.\<close>

definition prepareTrailerResponse ::
  "trailerResponseSigning \<Rightarrow> header \<Rightarrow> Request \<Rightarrow> (Request \<times> string \<times> ExternalRequestContext option) res" where
  "prepareTrailerResponse m outer request =
     bindRes (normalizeProtectedHeader outer) (\<lambda>normalizedHeader.
     if hasSignatureOrDigestFields normalizedHeader then Inl (Sentinel ErrInvalidBodyIntegration)
     else
       bindRes (normalizeProtectedRequest request) (\<lambda>relatedRequest.
       bindRes (classified (Sentinel ErrHTTPIntegrationSigning) (tmOptions m (cloneRequestSnapshot relatedRequest))) (\<lambda>options.
       bindRes (externalContext (tmExternalContext m) (cloneRequestSnapshot relatedRequest)
                  (Sentinel ErrHTTPIntegrationSigning)) (\<lambda>external.
       Inr (relatedRequest, options, external)))))"

text \<open>The response that is signed, with the header that was committed and the trailers that will follow.\<close>

definition trailerResponse :: "trailerResponseWriter \<Rightarrow> Request \<Rightarrow> header \<Rightarrow> Response" where
  "trailerResponse w relatedRequest trailers =
     configureTrailerSigningResponse relatedRequest
       \<lparr>RespStatusCode = twStatus w, RespProtoMajor = 0, RespProtoMinor = 0, RespHeader = twCommittedHeader w,
        RespBody = NoBody, RespContentLength = 0, RespTransferEncoding = [], RespClose = False,
        RespUncompressed = False, RespTrailer = trailers, RespRequest = Some relatedRequest\<rparr>"

text \<open>The trailers of a response whose handler has returned without a failure.\<close>

definition signStreamedResponse ::
  "('p, 'd) httpsfv \<Rightarrow> urls \<Rightarrow> hashes \<Rightarrow> crypto \<Rightarrow> signEnv \<Rightarrow> trailerResponseSigning \<Rightarrow> Request \<Rightarrow> string \<Rightarrow>
   ExternalRequestContext option \<Rightarrow> trailerResponseWriter \<Rightarrow> header res" where
  "signStreamedResponse h u H P env m relatedRequest options external w =
     bindRes (normalizeProtectedHeader (twHeader w)) (\<lambda>normalizedHeader.
     if hasSignatureOrDigestFields normalizedHeader then Inl (Sentinel ErrExistingSignatures)
     else
       let digests = sumDigests H (twWriters w) in
       bindRes (signingTrailers h digests w) (\<lambda>trailers.
       bindRes (classified (Sentinel ErrHTTPIntegrationSigning)
                  (Signer_Sign h u H P env (Some (tmSigner m))
                     (responseMessage (trailerResponse w relatedRequest trailers) relatedRequest external ResponseTransportWrite)
                     (tmLabel m) options)) (\<lambda>sf.
       bindRes (DigestField_String h digests) (\<lambda>d.
       bindRes (SignatureInputField h sf) (\<lambda>i.
       bindRes (SignatureField h sf) (\<lambda>v.
       Inr (headerSet (headerSet (headerSet (twHeader w) ''Content-Digest'' d) ''Signature-Input'' i) ''Signature'' v)))))))"

definition newTrailerResponseWriter ::
  "trailerResponseSigning \<Rightarrow> header \<Rightarrow> Request \<Rightarrow> digestWriter list \<Rightarrow> trailerResponseWriter" where
  "newTrailerResponseWriter m outer relatedRequest writers =
     \<lparr>twHeader = outer, twMethod = ReqMethod relatedRequest, twCommittedHeader = [], twTrailerNames = [], twStatus = 0,
      twMaxBytes = tmMaxBytes m, twWritten = 0, twWriters = writers, twFailure = None, twFailureStatus = 0,
      twSent = [], twEmitted = []\<rparr>"

definition finishTrailerResponse ::
  "('p, 'd) httpsfv \<Rightarrow> urls \<Rightarrow> hashes \<Rightarrow> crypto \<Rightarrow> signEnv \<Rightarrow> trailerResponseSigning \<Rightarrow> Request \<Rightarrow> string \<Rightarrow>
   ExternalRequestContext option \<Rightarrow> trailerResponseWriter \<Rightarrow> servedTrailers res" where
  "finishTrailerResponse h u H P env m relatedRequest options external w0 =
     (let w = (if twStatus w0 = 0 \<and> twFailure w0 = None then tw_WriteHeader 200 w0 else w0) in
      case twFailure w of
        Some failure \<Rightarrow>
          Inr (if twStatus w = 0 then rejectUnsignedTrailerResponse (failureStatusCode w) failure w
               else withdrawTrailers failure w)
      | None \<Rightarrow>
          orElse (signStreamedResponse h u H P env m relatedRequest options external w) (\<lambda>err. withdrawTrailers err w)
            (\<lambda>header. Inr \<lparr>svHeader = header, svSent = twSent w, svEmitted = twEmitted w, svReport = None\<rparr>))"

text \<open>
  An unsupported algorithm would leave a nil hash in the stream, whose use panics; the constructor rules it
  out.
\<close>

definition TrailerResponse_ServeHTTP ::
  "('p, 'd) httpsfv \<Rightarrow> urls \<Rightarrow> hashes \<Rightarrow> crypto \<Rightarrow> signEnv \<Rightarrow> trailerResponseSigning \<Rightarrow> header \<Rightarrow>
   streamOp list option \<Rightarrow> Request option \<Rightarrow> servedTrailers res" where
  "TrailerResponse_ServeHTTP h u H P env m outer handler request =
     (let reject = (\<lambda>status err. \<lparr>svHeader = [], svSent = [status], svEmitted = [], svReport = Some err\<rparr>) in
      case (handler, request) of
        (Some ops, Some r) \<Rightarrow>
          if ReqMethod r = ''HEAD'' \<or> ReqProtoMajor r = 1 \<and> ReqProtoMinor r = 0
          then Inr (reject 501 (Sentinel ErrInvalidBodyIntegration))
          else
            orElse (prepareTrailerResponse m outer r) (reject 500) (\<lambda>(relatedRequest, options, external).
              case mapRes newDigestWriter (tmAlgorithms m) of
                Inl _ \<Rightarrow> Inl (GoPanic ''nil hash'')
              | Inr writers \<Rightarrow>
                  finishTrailerResponse h u H P env m relatedRequest options external
                    (runStreamOps ops (newTrailerResponseWriter m outer relatedRequest writers)))
      | _ \<Rightarrow> Inr (reject 500 (Sentinel ErrInvalidBodyIntegration)))"

section \<open>Invariant of the streaming writer\<close>

definition wfTrailerWriter :: "DigestAlgorithm list \<Rightarrow> trailerResponseWriter \<Rightarrow> bool" where
  "wfTrailerWriter algorithms w \<longleftrightarrow>
     (\<exists>content. twWriters w = writersOf algorithms content \<and> twWritten w = go_len content \<and>
        go_len content \<le> twMaxBytes w \<and>
        (if twStatus w = 0 then content = [] \<and> twEmitted w = []
         else (countsContent w \<longrightarrow> twEmitted w = content) \<and> twSent w \<noteq> [] \<and> last (twSent w) = twStatus w)) \<and>
     (twFailure w = None \<longrightarrow> twStatus w \<notin> {101, 204, 205, 304})"

text \<open>What an operation keeps: the limit, the method, the first status and the first failure.\<close>

definition streamKeeps :: "trailerResponseWriter \<Rightarrow> trailerResponseWriter \<Rightarrow> bool" where
  "streamKeeps w w' \<longleftrightarrow>
     twMaxBytes w' = twMaxBytes w \<and> twMethod w' = twMethod w \<and>
     (twStatus w \<noteq> 0 \<longrightarrow> twStatus w' = twStatus w \<and> twCommittedHeader w' = twCommittedHeader w \<and>
        twTrailerNames w' = twTrailerNames w \<and> twSent w' = twSent w) \<and>
     (twFailure w \<noteq> None \<longrightarrow> twFailure w' = twFailure w) \<and>
     prefix (twEmitted w) (twEmitted w')"

lemma tw_WriteHeader_ok:
  assumes "wfTrailerWriter algorithms w"
  shows "wfTrailerWriter algorithms (tw_WriteHeader status w)" "streamKeeps w (tw_WriteHeader status w)"
    "twEmitted (tw_WriteHeader status w) = twEmitted w" "twWritten (tw_WriteHeader status w) = twWritten w"
    "twWriters (tw_WriteHeader status w) = twWriters w"
proof -
  have "wfTrailerWriter algorithms (tw_WriteHeader status w) \<and> streamKeeps w (tw_WriteHeader status w) \<and>
      twEmitted (tw_WriteHeader status w) = twEmitted w \<and> twWritten (tw_WriteHeader status w) = twWritten w \<and>
      twWriters (tw_WriteHeader status w) = twWriters w"
  proof (cases "twFailure w \<noteq> None \<or> twStatus w \<noteq> 0")
    case True
    then show ?thesis using assms by (auto simp: tw_WriteHeader_def streamKeeps_def)
  next
    case False
    then have w: "twWriters w = writersOf algorithms []" "twWritten w = 0" "0 \<le> twMaxBytes w" "twEmitted w = []"
      "twFailure w = None" "twStatus w = 0"
      using assms by (auto simp: wfTrailerWriter_def)
    then show ?thesis
      by (auto simp: tw_WriteHeader_def rejectSuccessfulConnect_def streamKeeps_def wfTrailerWriter_def Let_def
          split: sum.split)
  qed
  then show "wfTrailerWriter algorithms (tw_WriteHeader status w)" "streamKeeps w (tw_WriteHeader status w)"
    "twEmitted (tw_WriteHeader status w) = twEmitted w" "twWritten (tw_WriteHeader status w) = twWritten w"
    "twWriters (tw_WriteHeader status w) = twWriters w" by blast+
qed

lemma streamKeeps_refl [simp]: "streamKeeps w w"
  by (simp add: streamKeeps_def)

lemma streamKeeps_trans: "streamKeeps a b \<Longrightarrow> streamKeeps b c \<Longrightarrow> streamKeeps a c"
  unfolding streamKeeps_def by (metis prefix_order.trans)

lemma fail_ok:
  assumes "wfTrailerWriter algorithms w" "twFailure w = None"
  shows "wfTrailerWriter algorithms (w\<lparr>twFailure := Some e\<rparr>) \<and> streamKeeps w (w\<lparr>twFailure := Some e\<rparr>)"
  using assms by (auto simp: wfTrailerWriter_def streamKeeps_def countsContent_def)

lemma setHeader_ok:
  assumes "wfTrailerWriter algorithms w"
  shows "wfTrailerWriter algorithms (w\<lparr>twHeader := header\<rparr>) \<and> streamKeeps w (w\<lparr>twHeader := header\<rparr>)"
  using assms by (auto simp: wfTrailerWriter_def streamKeeps_def countsContent_def)

text \<open>The writer after the implicit \<^verbatim>\<open>WriteHeader\<close>.\<close>

definition committed :: "trailerResponseWriter \<Rightarrow> trailerResponseWriter" where
  "committed w = (if twStatus w = 0 then tw_WriteHeader 200 w else w)"

lemma committed_ok:
  assumes "wfTrailerWriter algorithms w"
  shows "wfTrailerWriter algorithms (committed w)" "streamKeeps w (committed w)"
    "twFailure w = None \<Longrightarrow> twFailure (committed w) = None \<Longrightarrow> twStatus (committed w) \<noteq> 0"
  using tw_WriteHeader_ok(1,2) [OF assms, of 200] assms
  by (auto simp: committed_def tw_WriteHeader_def rejectSuccessfulConnect_def Let_def split: if_splits sum.splits)

lemma recordWritten_ok:
  assumes "wfTrailerWriter algorithms w" "twFailure w = None" "twStatus w \<noteq> 0" "0 \<le> n" "n \<le> go_len content"
    and "\<not> (countsContent w \<and> go_len content > twMaxBytes w - twWritten w)"
  shows "wfTrailerWriter algorithms (recordWritten n content w)" "streamKeeps w (recordWritten n content w)"
    "twFailure (recordWritten n content w) = None"
proof -
  let ?taken = "take (nat n) content"
  have len: "go_len ?taken = n" using assms(4,5) by simp
  obtain c where c: "twWriters w = writersOf algorithms c" "twWritten w = go_len c" "go_len c \<le> twMaxBytes w"
    "countsContent w \<longrightarrow> twEmitted w = c" "twSent w \<noteq> []" "last (twSent w) = twStatus w"
    "twStatus w \<notin> {101, 204, 205, 304}"
    using assms(1-3) by (auto simp: wfTrailerWriter_def)
  show "streamKeeps w (recordWritten n content w)" "twFailure (recordWritten n content w) = None"
    using assms(2) by (simp_all add: streamKeeps_def recordWritten_def Let_def)
  show "wfTrailerWriter algorithms (recordWritten n content w)"
  proof (cases "countsContent w")
    case True
    then have "go_len (c @ ?taken) \<le> twMaxBytes w" using assms(5,6) c(2) len by simp
    then show ?thesis
      using True c len assms(3) unfolding wfTrailerWriter_def
      by (intro conjI exI [of _ "c @ ?taken"]) (auto simp: recordWritten_def Let_def countsContent_def)
  next
    case False
    then show ?thesis
      using c assms(3) unfolding wfTrailerWriter_def
      by (intro conjI exI [of _ c]) (auto simp: recordWritten_def Let_def countsContent_def)
  qed
qed

lemma tw_Write_ok:
  assumes "wfTrailerWriter algorithms w" "tw_Write content underlying w = (out, w')"
  shows "wfTrailerWriter algorithms w' \<and> streamKeeps w w'"
proof (cases "twFailure w")
  case (Some failure)
  then show ?thesis using assms by (simp add: tw_Write_def)
next
  case None
  note fold = committed_def [symmetric]
  note k = committed_ok [OF assms(1)]
  obtain n err where u: "underlying = (n, err)" by fastforce
  show ?thesis
  proof (cases "twFailure (committed w)")
    case (Some failure)
    then have "w' = committed w" using assms(2) None by (simp add: tw_Write_def fold Let_def)
    then show ?thesis using k(1,2) by simp
  next
    case no: None
    note st = k(3) [OF None no]
    note f = fail_ok [OF k(1) no]
    consider (large) "countsContent (committed w) \<and> go_len content > twMaxBytes (committed w) - twWritten (committed w)"
      | (count) "\<not> (countsContent (committed w) \<and> go_len content > twMaxBytes (committed w) - twWritten (committed w))"
        "n < 0 \<or> n > go_len content"
      | (taken) "\<not> (countsContent (committed w) \<and> go_len content > twMaxBytes (committed w) - twWritten (committed w))"
        "0 \<le> n" "n \<le> go_len content" by linarith
    then show ?thesis
    proof cases
      case large
      then have "w' = (committed w)\<lparr>twFailure := Some (Sentinel ErrBodyTooLarge)\<rparr>"
        using assms(2) None no by (simp add: tw_Write_def fold Let_def)
      then show ?thesis using f k(2) streamKeeps_trans by blast
    next
      case count
      then have "w' = (committed w)\<lparr>twFailure := Some (Sentinel ErrBodyRead)\<rparr>"
        using assms(2) None no u by (auto simp: tw_Write_def fold Let_def split: if_splits)
      then show ?thesis using f k(2) streamKeeps_trans by blast
    next
      case taken
      let ?w2 = "recordWritten n content (committed w)"
      note t = recordWritten_ok [OF k(1) no st taken(2,3,1)]
      have "w' = (if err \<noteq> None \<or> n \<noteq> go_len content then ?w2\<lparr>twFailure := Some (Sentinel ErrBodyRead)\<rparr> else ?w2)"
        using assms(2) None no u taken by (auto simp: tw_Write_def fold Let_def not_less split: if_splits)
      then show ?thesis
        using t fail_ok [OF t(1,3)] k(2) streamKeeps_trans by (auto split: if_splits)
    qed
  qed
qed

lemma FlushError_ok:
  assumes "wfTrailerWriter algorithms w" "FlushError flushed w = (out, w')"
  shows "wfTrailerWriter algorithms w' \<and> streamKeeps w w'"
proof (cases "twFailure w")
  case (Some failure)
  then show ?thesis using assms by (simp add: FlushError_def)
next
  case None
  note fold = committed_def [symmetric]
  note k = committed_ok [OF assms(1)]
  show ?thesis
  proof (cases "twFailure (committed w)")
    case (Some failure)
    then show ?thesis using assms(2) None k by (simp add: FlushError_def fold Let_def)
  next
    case no: None
    note f = fail_ok [OF k(1) no, of "Sentinel ErrBodyRead"]
    have "w' = committed w \<or> w' = (committed w)\<lparr>twFailure := Some (Sentinel ErrBodyRead)\<rparr>"
      using assms(2) None no by (auto simp: FlushError_def fold Let_def split: option.splits if_splits)
    then show ?thesis using k f streamKeeps_trans by blast
  qed
qed

lemma rejectProtocolBypass_ok:
  "wfTrailerWriter algorithms w \<Longrightarrow>
   wfTrailerWriter algorithms (rejectProtocolBypass w) \<and> streamKeeps w (rejectProtocolBypass w)"
  using fail_ok [of algorithms w] by (auto simp: rejectProtocolBypass_def split: option.splits)

lemma applyOp_ok:
  assumes "wfTrailerWriter algorithms w"
  shows "wfTrailerWriter algorithms (applyOp op w) \<and> streamKeeps w (applyOp op w)"
proof (cases op)
  case (OpWrite content underlying)
  obtain out w' where "tw_Write content underlying w = (out, w')" by fastforce
  then show ?thesis using OpWrite tw_Write_ok [OF assms] by simp
next
  case (OpFlush flushed)
  obtain out w' where "FlushError flushed w = (out, w')" by fastforce
  then show ?thesis using OpFlush FlushError_ok [OF assms] by simp
qed (use assms setHeader_ok tw_WriteHeader_ok rejectProtocolBypass_ok in \<open>simp_all add: Hijack_def EnableFullDuplex_def\<close>)

lemma runStreamOps_ok:
  assumes "wfTrailerWriter algorithms w"
  shows "wfTrailerWriter algorithms (runStreamOps ops w) \<and> streamKeeps w (runStreamOps ops w)"
proof -
  have "wfTrailerWriter algorithms (foldl (\<lambda>w op. applyOp op w) w ops) \<and> streamKeeps w (foldl (\<lambda>w op. applyOp op w) w ops)"
    using assms
  proof (induction ops arbitrary: w)
    case (Cons op ops)
    have a: "wfTrailerWriter algorithms (applyOp op w)" "streamKeeps w (applyOp op w)"
      using applyOp_ok [OF Cons.prems] by blast+
    from Cons.IH [OF a(1)] a(2) show ?case using streamKeeps_trans by auto
  qed simp
  then show ?thesis by (simp add: runStreamOps_def)
qed

lemma newTrailerResponseWriter_wf:
  "0 \<le> tmMaxBytes m \<Longrightarrow> wfTrailerWriter algorithms (newTrailerResponseWriter m outer related (writersOf algorithms []))"
  by (auto simp: wfTrailerWriter_def newTrailerResponseWriter_def intro!: exI [of _ "[]"])

section \<open>Correctness of the middleware\<close>

lemma orElse_Inr:
  "orElse r recover k = Inr out \<longleftrightarrow>
   (\<exists>err. r = Inl err \<and> (\<forall>m. err \<noteq> GoPanic m) \<and> out = recover err) \<or> (\<exists>x. r = Inr x \<and> k x = Inr out)"
  by (auto simp: orElse_def split: sum.splits goerr.splits)

lemma NewTrailerResponse_ok:
  assumes "NewTrailerResponseSigningMiddleware h H config = Inr m"
  shows "0 < tmMaxBytes m" "isOk (ComputeDigests H (tmAlgorithms m) c)" "signingProfileCoversTrailerDigest h (tmSigner m)"
proof -
  have "isOk (ComputeDigests H (tmAlgorithms m) [])"
    using assms by (auto simp: NewTrailerResponseSigningMiddleware_def split: option.splits if_splits)
  then show "isOk (ComputeDigests H (tmAlgorithms m) c)" by (simp add: ComputeDigests_isOk)
qed (use assms in \<open>auto simp: NewTrailerResponseSigningMiddleware_def split: option.splits if_splits\<close>)

lemma removed_fields:
  assumes "name \<in> {''Content-Digest'', ''Signature-Input'', ''Signature'', ''Trailer''}"
  shows "matching name (removeTrailerSigningFields header) = []"
proof -
  have "matching name (deleteHeaderField (deleteHeaderField (deleteHeaderField (deleteHeaderField header
      ''Content-Digest'') ''Signature-Input'') ''Signature'') ''Trailer'') = []"
    using assms by (auto simp: matching_delete EqualFold_refl)
  then show ?thesis
    by (simp add: removeTrailerSigningFields_def matching_def filter_empty_conv)
qed

lemma removed_prefix: "(key, vs) \<in> set (removeTrailerSigningFields header) \<Longrightarrow> \<not> hasPrefix key TrailerPrefix"
  by (auto simp: removeTrailerSigningFields_def)

lemma signingTrailers_digest:
  assumes "signingTrailers h digests w = Inr trailers"
  obtains d where "DigestField_String h digests = Inr d" "headerValues trailers ''Content-Digest'' = [d]"
proof -
  obtain d before where d: "DigestField_String h digests = Inr d"
    "normalizeProtectedHeader (headerSet before ''Content-Digest'' d) = Inr trailers"
    using assms by (auto simp: signingTrailers_def bindRes_Inr)
  have n: "''Content-Digest'' \<in> set protectedHTTPFieldNames" by (simp add: protectedHTTPFieldNames_def)
  let ?m = "matching ''Content-Digest'' (headerSet before ''Content-Digest'' d)"
  have "\<exists>rest. ?m = rest @ [(''Content-Digest'', [d])]" by (simp add: headerSet_def matching_put EqualFold_refl)
  moreover have "length ?m \<le> 1"
    using normalizeProtectedHeader_ok(1) [OF d(2) n] by (simp add: unambiguous_def)
  ultimately have "?m = [(''Content-Digest'', [d])]" by auto
  then have "headerValues trailers ''Content-Digest'' = [d]" using normalized_headerValues [OF d(2) n] by simp
  then show ?thesis using that d(1) by blast
qed

lemma signStreamedResponse_ok:
  assumes "signStreamedResponse h u H P env m related options external w = Inr header"
  obtains trailers sf d i v where "signingTrailers h (sumDigests H (twWriters w)) w = Inr trailers"
    "Signer_Sign h u H P env (Some (tmSigner m))
       (responseMessage (trailerResponse w related trailers) related external ResponseTransportWrite) (tmLabel m) options = Inr sf"
    "DigestField_String h (sumDigests H (twWriters w)) = Inr d" "SignatureInputField h sf = Inr i" "SignatureField h sf = Inr v"
    "header = headerSet (headerSet (headerSet (twHeader w) ''Content-Digest'' d) ''Signature-Input'' i) ''Signature'' v"
  using assms that unfolding signStreamedResponse_def
  by (auto simp: bindRes_Inr Let_def split: if_splits)

lemma trailerResponse_simps [simp]:
  "RespStatusCode (trailerResponse w related trailers) = twStatus w"
  "RespTrailer (trailerResponse w related trailers) = trailers"
  "RespHeader (trailerResponse w related trailers) = twCommittedHeader w"
  by (simp_all add: trailerResponse_def configureTrailerSigningResponse_def)

lemma final_status:
  assumes "wfTrailerWriter algorithms w" "twFailure w = None" "twMethod w \<noteq> ''HEAD''" "200 \<le> twStatus w"
  shows "twWriters w = writersOf algorithms (twEmitted w)" "go_len (twEmitted w) \<le> twMaxBytes w"
    "last (twSent w) = twStatus w"
proof -
  have "countsContent w" using assms by (auto simp: countsContent_def responseBodyAllowed_def wfTrailerWriter_def)
  with assms show "twWriters w = writersOf algorithms (twEmitted w)" "go_len (twEmitted w) \<le> twMaxBytes w"
    "last (twSent w) = twStatus w" by (auto simp: wfTrailerWriter_def)
qed

lemma finishTrailerResponse_signed:
  assumes "finishTrailerResponse h u H P env m related options external w0 = Inr out" "svReport out = None"
  shows "let w = if twStatus w0 = 0 \<and> twFailure w0 = None then tw_WriteHeader 200 w0 else w0 in
    twFailure w = None \<and> signStreamedResponse h u H P env m related options external w = Inr (svHeader out) \<and>
    svSent out = twSent w \<and> svEmitted out = twEmitted w"
proof -
  define w where "w = (if twStatus w0 = 0 \<and> twFailure w0 = None then tw_WriteHeader 200 w0 else w0)"
  have "twFailure w = None \<and> signStreamedResponse h u H P env m related options external w = Inr (svHeader out) \<and>
    svSent out = twSent w \<and> svEmitted out = twEmitted w"
    using assms
    by (cases "twFailure w")
      (auto simp: finishTrailerResponse_def Let_def orElse_Inr rejectUnsignedTrailerResponse_def withdrawTrailers_def
        w_def [symmetric] split: if_splits)
  then show ?thesis by (simp add: w_def Let_def)
qed

lemma finishTrailerResponse_withdrawn:
  assumes "finishTrailerResponse h u H P env m related options external w0 = Inr out" "svReport out = Some err"
  shows "svHeader out = [] \<or> (\<exists>header. svHeader out = removeTrailerSigningFields header)"
proof -
  define w where "w = (if twStatus w0 = 0 \<and> twFailure w0 = None then tw_WriteHeader 200 w0 else w0)"
  show ?thesis
    using assms
    by (cases "twFailure w")
      (auto simp: finishTrailerResponse_def Let_def orElse_Inr rejectUnsignedTrailerResponse_def withdrawTrailers_def
        w_def [symmetric] split: if_splits)
qed

lemma ServeHTTP_signed:
  assumes "TrailerResponse_ServeHTTP h u H P env m outer (Some ops) (Some r) = Inr out" "svReport out = None"
    and "0 \<le> tmMaxBytes m" "isOk (ComputeDigests H (tmAlgorithms m) [])"
  obtains w related options external where
    "wfTrailerWriter (tmAlgorithms m) w" "twMethod w \<noteq> ''HEAD''" "twMaxBytes w = tmMaxBytes m" "twFailure w = None"
    "normalizeProtectedRequest r = Inr related"
    "signStreamedResponse h u H P env m related options external w = Inr (svHeader out)"
    "svSent out = twSent w" "svEmitted out = twEmitted w" "twStatus w \<noteq> 0"
proof -
  have ws: "mapRes newDigestWriter (tmAlgorithms m) = Inr (writersOf (tmAlgorithms m) [])"
    using assms(4) newWriters unfolding ComputeDigests_isOk by blast
  have head: "ReqMethod r \<noteq> ''HEAD''"
    using assms(1,2) by (auto simp: TrailerResponse_ServeHTTP_def Let_def split: if_splits)
  obtain related options external where p: "prepareTrailerResponse m outer r = Inr (related, options, external)"
    "finishTrailerResponse h u H P env m related options external
       (runStreamOps ops (newTrailerResponseWriter m outer related (writersOf (tmAlgorithms m) []))) = Inr out"
    using assms(1,2) ws by (auto simp: TrailerResponse_ServeHTTP_def orElse_Inr Let_def split: if_splits)
  let ?w0 = "newTrailerResponseWriter m outer related (writersOf (tmAlgorithms m) [])"
  let ?w1 = "runStreamOps ops ?w0"
  have rel: "normalizeProtectedRequest r = Inr related"
    using p(1) by (auto simp: prepareTrailerResponse_def bindRes_Inr split: if_splits)
  then have meth: "ReqMethod related = ReqMethod r"
    by (auto simp: normalizeProtectedRequest_def split: sum.splits)
  note w0 = newTrailerResponseWriter_wf [OF assms(3), of "tmAlgorithms m" outer related]
  have w1: "wfTrailerWriter (tmAlgorithms m) ?w1" "streamKeeps ?w0 ?w1" using runStreamOps_ok [OF w0] by blast+
  define w where "w = (if twStatus ?w1 = 0 \<and> twFailure ?w1 = None then tw_WriteHeader 200 ?w1 else ?w1)"
  have wf: "wfTrailerWriter (tmAlgorithms m) w"
    using w1(1) tw_WriteHeader_ok(1) [OF w1(1), of 200] by (simp add: w_def)
  have keeps: "streamKeeps ?w0 w"
    using w1(2) streamKeeps_trans [OF w1(2) tw_WriteHeader_ok(2) [OF w1(1), of 200]] by (simp add: w_def)
  have k: "twMaxBytes w = tmMaxBytes m" "twMethod w = ReqMethod related"
    using keeps by (simp_all add: streamKeeps_def newTrailerResponseWriter_def)
  have f: "twFailure w = None" "signStreamedResponse h u H P env m related options external w = Inr (svHeader out)"
    "svSent out = twSent w" "svEmitted out = twEmitted w"
    using finishTrailerResponse_signed [OF p(2) assms(2)] unfolding Let_def w_def [symmetric] by blast+
  have st: "twStatus w \<noteq> 0"
    using f(1) committed_ok(3) [OF w1(1)] by (auto simp: committed_def w_def split: if_splits)
  have "twMethod w \<noteq> ''HEAD''" by (simp add: k(2) meth head)
  from that [OF wf this k(1) f(1) rel f(2-4) st] show ?thesis .
qed

section \<open>Example\<close>

definition exampleTrailerSigning :: trailerResponseSigning where
  "exampleTrailerSigning =
     \<lparr>tmSigner = exampleSigningProfile\<lparr>SPComponents := [trailerDigestComponent]\<rparr>, tmLabel = ''s'', tmAlgorithms = [SHA256],
      tmMaxBytes = 4, tmOptions = (\<lambda>_. Inr ''n''), tmExternalContext = None\<rparr>"

definition exampleTrailerSigningConfig :: TrailerResponseSigningMiddlewareConfig where
  "exampleTrailerSigningConfig =
     \<lparr>TMSigner = Some (Some (exampleSigningProfile\<lparr>SPComponents := [trailerDigestComponent]\<rparr>)), TMLabel = ''s'',
      TMAlgorithms = [SHA256], TMMaxBytes = 4, TMOptions = Some (\<lambda>_. Inr ''n''), TMExternalContext = None,
      TMReportError = True\<rparr>"

lemma exampleTrailerSigning_new:
  "NewTrailerResponseSigningMiddleware exampleTrailerWire exampleHashes exampleTrailerSigningConfig = Inr exampleTrailerSigning"
proof -
  have "signingProfileCoversTrailerDigest exampleTrailerWire (exampleSigningProfile\<lparr>SPComponents := [trailerDigestComponent]\<rparr>)"
    by (simp add: signingProfileCoversTrailerDigest_def coversTrailerDigest_def)
  moreover have "\<not> signingProfileCoversProtocolDependentTrailerField
      (exampleSigningProfile\<lparr>SPComponents := [trailerDigestComponent]\<rparr>)"
    by (simp add: signingProfileCoversProtocolDependentTrailerField_def trailerDigestComponent_def)
  moreover have "isOk (ComputeDigests exampleHashes [SHA256] [])" "validSignatureLabel ''s''" by code_simp+
  ultimately show ?thesis
    by (simp add: NewTrailerResponseSigningMiddleware_def exampleTrailerSigningConfig_def exampleTrailerSigning_def)
qed

definition exampleTrailerServing :: "streamOp list \<Rightarrow> servedTrailers res" where
  "exampleTrailerServing ops =
     TrailerResponse_ServeHTTP exampleTrailerWire exampleURLs exampleHashes exampleCrypto exampleSignEnv
       exampleTrailerSigning [] (Some ops) (Some exampleRequest)"

lemma exampleTrailerServing_signed:
  "case exampleTrailerServing [OpWriteHeader 201, OpWrite ''hi'' (2, None)] of
     Inr out \<Rightarrow> svReport out = None \<and> svSent out = [201] \<and> svEmitted out = ''hi'' | Inl _ \<Rightarrow> False"
  by code_simp

lemma exampleTrailerServing_withdrawn:
  "case exampleTrailerServing [OpWrite ''hi'' (2, None), OpWrite ''hello'' (5, None)] of
     Inr out \<Rightarrow> svReport out = Some (Sentinel ErrBodyTooLarge) \<and> svEmitted out = ''hi'' | Inl _ \<Rightarrow> False"
  by code_simp

section \<open>Properties\<close>





end
