(* ===== verification/Compatibility.thy ===== *)
theory Compatibility
  imports BodyIntegration
begin

text \<open>
  \<^verbatim>\<open>compatibility/adapter.go\<close>: boundaries for authentication schemes other than RFC 9421. A caller's signer or
  verifier works on an isolated view of a request; of what the signer writes there only the fields and
  trailers that are not RFC 9421's are delegated, and nothing of what a verifier writes reaches the next
  handler. The callbacks are parameters: functions from the view to the view they leave and their error.
\<close>

section \<open>Requests and their views\<close>

text \<open>
  A request with the fields that isolation concerns: whether \<^verbatim>\<open>GetBody\<close>, the parsed forms and the redirect
  \<^verbatim>\<open>Response\<close> are there, and whether its body is an \<^verbatim>\<open>isolatedBody\<close>.
\<close>

record clientRequest = Request +
  CReqGetBody :: bool
  CReqForm :: bool
  CReqPostForm :: bool
  CReqMultipartForm :: bool
  CReqResponse :: bool
  CReqIsolated :: bool

type_synonym Protocol = string

definition CavageDraft :: Protocol where "CavageDraft = ''cavage-draft''"

definition AWSSigV4 :: Protocol where "AWSSigV4 = ''aws-sigv4''"

definition OAuth1 :: Protocol where "OAuth1 = ''oauth1''"

datatype Operation = OperationSign | OperationVerify

datatype adapterErr = ErrInvalidAdapter | ErrSigning | ErrVerification

type_synonym callback = "clientRequest \<Rightarrow> clientRequest \<times> goerr option"

definition errCallbackBodyAccess :: goerr where
  "errCallbackBodyAccess = NewErr ''http signature compatibility: callback body access is forbidden''"

text \<open>The body of a view: every \<^verbatim>\<open>Read\<close> fails without data, \<^verbatim>\<open>Close\<close> succeeds.\<close>

definition isolatedBody :: "bodyReader" where
  "isolatedBody =
     \<lparr>brRead = (\<lambda>_. \<lparr>rrCount = 0, rrBuffer = (\<lambda>_. CHR 0x00), rrErr = Some errCallbackBodyAccess\<rparr>), brClose = None\<rparr>"

definition isolatedCallbackRequest :: "clientRequest \<Rightarrow> clientRequest" where
  "isolatedCallbackRequest request =
     (let clone = request\<lparr>CReqGetBody := False, CReqForm := False, CReqPostForm := False, CReqMultipartForm := False,
                          ReqTLS := False, CReqResponse := False\<rparr>
      in if ReqBody clone \<noteq> NilBody then clone\<lparr>ReqBody := SomeBody, CReqIsolated := True\<rparr> else clone)"

definition compat_closeRequestBody :: "clientRequest \<Rightarrow> bool" where
  "compat_closeRequestBody request \<longleftrightarrow> ReqBody request \<noteq> NilBody"

section \<open>The fields a callback may set\<close>

definition isRFC9421Field :: "string \<Rightarrow> bool" where
  "isRFC9421Field name \<longleftrightarrow>
     EqualFold name ''Signature-Input'' \<or> EqualFold name ''Signature'' \<or> EqualFold name ''Accept-Signature''"

definition compat_cloneStrings :: "string list \<Rightarrow> string list" where
  "compat_cloneStrings vs = (if vs = [] then [] else [] @ vs)"

fun restoreFields_loop :: "header \<Rightarrow> header \<Rightarrow> header" where
  "restoreFields_loop merged [] = merged"
| "restoreFields_loop merged ((name, vs) # rest) =
     restoreFields_loop (if isRFC9421Field name then headerPut merged name (compat_cloneStrings vs) else merged) rest"

definition compatibleSigningFields :: "header \<Rightarrow> header \<Rightarrow> header" where
  "compatibleSigningFields callback original =
     (let merged = filter (\<lambda>(name, _). \<not> isRFC9421Field name) callback in restoreFields_loop merged original)"

section \<open>Protocol names\<close>

fun vendorName_loop :: "string \<Rightarrow> bool" where
  "vendorName_loop [] = True"
| "vendorName_loop (character # rest) =
     (if isLower character \<or> isDigit character \<or> character = CHR ''-'' \<or> character = CHR ''_'' \<or>
         character = CHR ''.''
      then vendorName_loop rest else False)"

definition vendorProtocol :: "string \<Rightarrow> Protocol \<times> bool" where
  "vendorProtocol name =
     (if go_len name = 0 \<or> go_len name > 64 then ([], False)
      else if vendorName_loop name then (''vendor:'' @ name, True) else ([], False))"

section \<open>Outbound: the signing round tripper\<close>

record CompatSigningRoundTripperConfig =
  SCTransport :: bool
  SCSign :: "callback option"
  SCReportError :: bool

record CompatSigningRoundTripper =
  caProtocol :: Protocol
  caTransport :: bool
  caSign :: callback

definition newSigningRoundTripper :: "Protocol \<Rightarrow> CompatSigningRoundTripperConfig \<Rightarrow> adapterErr + CompatSigningRoundTripper" where
  "newSigningRoundTripper protocol config =
     (case SCSign config of
        None \<Rightarrow> Inl ErrInvalidAdapter
      | Some sign \<Rightarrow>
          if \<not> SCTransport config \<or> \<not> SCReportError config then Inl ErrInvalidAdapter
          else Inr \<lparr>caProtocol = protocol, caTransport = SCTransport config, caSign = sign\<rparr>)"

definition NewCavageSigningRoundTripper where
  "NewCavageSigningRoundTripper config = newSigningRoundTripper CavageDraft config"

definition NewAWSSigV4SigningRoundTripper where
  "NewAWSSigV4SigningRoundTripper config = newSigningRoundTripper AWSSigV4 config"

definition NewOAuth1SigningRoundTripper where
  "NewOAuth1SigningRoundTripper config = newSigningRoundTripper OAuth1 config"

definition NewVendorSigningRoundTripper where
  "NewVendorSigningRoundTripper name config =
     (case vendorProtocol name of
        (protocol, ok) \<Rightarrow> if \<not> ok then Inl ErrInvalidAdapter else newSigningRoundTripper protocol config)"

definition adapter_Protocol :: "CompatSigningRoundTripper option \<Rightarrow> Protocol" where
  "adapter_Protocol adapter = (case adapter of None \<Rightarrow> [] | Some a \<Rightarrow> caProtocol a)"

text \<open>
  What a call of \<^verbatim>\<open>RoundTrip\<close> does: it fails, with whether the request's body was closed and what was
  reported, or it delegates; a panic of the callback leaves it.
\<close>

datatype signingOutcome =
    AdapterFailed adapterErr bool "(Protocol \<times> Operation \<times> goerr) option"
  | AdapterDelegated clientRequest
  | AdapterPanicked string

definition CompatSigning_RoundTrip ::
  "CompatSigningRoundTripper option \<Rightarrow> clientRequest option \<Rightarrow> signingOutcome" where
  "CompatSigning_RoundTrip adapter request =
     (case adapter of
        None \<Rightarrow> AdapterFailed ErrInvalidAdapter False None
      | Some a \<Rightarrow>
          (case request of
             None \<Rightarrow> AdapterFailed ErrInvalidAdapter False None
           | Some r \<Rightarrow>
               if \<not> caTransport a then AdapterFailed ErrInvalidAdapter False None
               else
                 let delegated = r in
                 case caSign a (isolatedCallbackRequest delegated) of
                   (callbackRequest, Some (GoPanic m)) \<Rightarrow> AdapterPanicked m
                 | (callbackRequest, Some err) \<Rightarrow>
                     AdapterFailed ErrSigning (compat_closeRequestBody r) (Some (caProtocol a, OperationSign, err))
                 | (callbackRequest, None) \<Rightarrow>
                     AdapterDelegated (delegated\<lparr>
                       ReqHeader := compatibleSigningFields (ReqHeader callbackRequest) (ReqHeader delegated),
                       ReqTrailer := compatibleSigningFields (ReqTrailer callbackRequest) (ReqTrailer delegated)\<rparr>)))"

section \<open>Inbound: the verification middleware\<close>

record VerificationMiddlewareConfig =
  VCVerify :: "callback option"
  VCReportError :: bool
  VCReject :: bool

record compatVerification =
  cvProtocol :: Protocol
  cvVerify :: callback

definition newVerificationMiddleware :: "Protocol \<Rightarrow> VerificationMiddlewareConfig \<Rightarrow> adapterErr + compatVerification" where
  "newVerificationMiddleware protocol config =
     (case VCVerify config of
        None \<Rightarrow> Inl ErrInvalidAdapter
      | Some verify \<Rightarrow>
          if \<not> VCReportError config \<or> \<not> VCReject config then Inl ErrInvalidAdapter
          else Inr \<lparr>cvProtocol = protocol, cvVerify = verify\<rparr>)"

definition NewCavageVerificationMiddleware where
  "NewCavageVerificationMiddleware config = newVerificationMiddleware CavageDraft config"

definition NewAWSSigV4VerificationMiddleware where
  "NewAWSSigV4VerificationMiddleware config = newVerificationMiddleware AWSSigV4 config"

definition NewOAuth1VerificationMiddleware where
  "NewOAuth1VerificationMiddleware config = newVerificationMiddleware OAuth1 config"

definition NewVendorVerificationMiddleware where
  "NewVendorVerificationMiddleware name config =
     (case vendorProtocol name of
        (protocol, ok) \<Rightarrow> if \<not> ok then Inl ErrInvalidAdapter else newVerificationMiddleware protocol config)"

text \<open>What a call does: it answers 500, rejects a request with an error and a report, or serves a request.\<close>

datatype verificationOutcome =
    InternalError
  | RequestRejected clientRequest adapterErr "Protocol \<times> Operation \<times> goerr"
  | RequestServed clientRequest
  | VerifierPanicked string

definition CompatVerification_ServeHTTP ::
  "compatVerification \<Rightarrow> bool \<Rightarrow> clientRequest option \<Rightarrow> verificationOutcome" where
  "CompatVerification_ServeHTTP m hasNext request =
     (case request of
        None \<Rightarrow> InternalError
      | Some r \<Rightarrow>
          if \<not> hasNext then InternalError
          else
            case cvVerify m (isolatedCallbackRequest r) of
              (callbackRequest, Some (GoPanic p)) \<Rightarrow> VerifierPanicked p
            | (callbackRequest, Some err) \<Rightarrow> RequestRejected r ErrVerification (cvProtocol m, OperationVerify, err)
            | (callbackRequest, None) \<Rightarrow> RequestServed r)"

section \<open>Correctness\<close>

lemma compat_cloneStrings_id [simp]: "compat_cloneStrings vs = vs"
  by (simp add: compat_cloneStrings_def)

lemma restoreFields_app:
  assumes "distinct (map fst original)" "\<forall>key \<in> fst ` set merged. isRFC9421Field key \<longrightarrow> key \<notin> fst ` set original"
  shows "restoreFields_loop merged original = merged @ filter (\<lambda>(name, _). isRFC9421Field name) original"
  using assms
proof (induction merged original rule: restoreFields_loop.induct)
  case (2 merged name vs rest)
  show ?case
  proof (cases "isRFC9421Field name")
    case True
    then have put: "headerPut merged name vs = merged @ [(name, vs)]"
      using 2(3) by (auto simp: headerPut_def filter_id_conv rev_image_eqI)
    have "restoreFields_loop (merged @ [(name, vs)]) rest =
        (merged @ [(name, vs)]) @ filter (\<lambda>(name, _). isRFC9421Field name) rest"
      using 2(1) 2(2,3) True put by simp
    then show ?thesis using True put by simp
  next
    case False
    with 2 show ?thesis by simp
  qed
qed simp

text \<open>The merged fields: the callback's without RFC 9421's, then the original's that are RFC 9421's.\<close>

lemma compatibleSigningFields_eq:
  assumes "distinct (map fst original)"
  shows "compatibleSigningFields callback original =
    filter (\<lambda>(name, _). \<not> isRFC9421Field name) callback @ filter (\<lambda>(name, _). isRFC9421Field name) original"
  unfolding compatibleSigningFields_def Let_def by (rule restoreFields_app [OF assms]) auto

lemma map_of_filter_key: "map_of (filter (\<lambda>(key, _). P key) xs) k = (if P k then map_of xs k else None)"
  by (induction xs) auto

lemma compatibleSigningFields_values:
  assumes "distinct (map fst original)"
  shows "map_of (compatibleSigningFields callback original) name =
    (if isRFC9421Field name then map_of original name else map_of callback name)"
  by (simp add: compatibleSigningFields_eq [OF assms] map_add_def map_of_filter_key split: option.split)

lemma compatibleSigningFields_matching:
  assumes "distinct (map fst original)" "name \<in> {''Signature-Input'', ''Signature'', ''Accept-Signature''}"
  shows "matching name (compatibleSigningFields callback original) = matching name original"
proof -
  have "isRFC9421Field key" if "EqualFold key name" for key
    using assms(2) that by (auto simp: isRFC9421Field_def)
  then have "matching name (filter (\<lambda>(key, _). \<not> isRFC9421Field key) header) = []"
    "matching name (filter (\<lambda>(key, _). isRFC9421Field key) header) = matching name header" for header
    by (induction header) auto
  then show ?thesis by (simp add: compatibleSigningFields_eq [OF assms(1)])
qed

lemma compatibleSigningFields_distinct:
  assumes "distinct (map fst callback)" "distinct (map fst original)"
  shows "distinct (map fst (compatibleSigningFields callback original))"
  using assms by (auto simp: compatibleSigningFields_eq distinct_map_filter)

lemma protectedFieldValues_cong:
  "matching name a = matching name b \<Longrightarrow> protectedFieldValues a name = protectedFieldValues b name"
  by (simp add: protectedFieldValues_eq)

lemma newSigningRoundTripper_ok:
  assumes "newSigningRoundTripper protocol config = Inr a"
  shows "caProtocol a = protocol" "caTransport a" "SCSign config = Some (caSign a)"
  using assms by (auto simp: newSigningRoundTripper_def split: option.splits if_splits)

lemma newVerificationMiddleware_ok:
  assumes "newVerificationMiddleware protocol config = Inr m"
  shows "cvProtocol m = protocol" "VCVerify config = Some (cvVerify m)"
  using assms by (auto simp: newVerificationMiddleware_def split: option.splits if_splits)

lemma vendorName_loop_iff:
  "vendorName_loop name \<longleftrightarrow> (\<forall>c \<in> set name. isLower c \<or> isDigit c \<or> c \<in> {CHR ''-'', CHR ''_'', CHR ''.''})"
  by (induction name) auto

lemma isolatedBody_unreadable: "readBoundedAndClose ctx (Some isolatedBody) maxBytes \<noteq> Inr content"
  by (auto simp: readBoundedAndClose_def isolatedBody_def errCallbackBodyAccess_def Let_def readBufferSize_def
      readLoop.simps [of _ _ _ 0] split: option.splits sum.splits if_splits)

section \<open>Example\<close>

definition exampleClientRequest :: clientRequest where
  "exampleClientRequest =
     Request.extend (exampleRequest\<lparr>ReqHeader := [(''Signature'', [''a=:AA==:'']), (''X-Old'', [''1''])], ReqBody := SomeBody\<rparr>)
       \<lparr>CReqGetBody = True, CReqForm = False, CReqPostForm = False, CReqMultipartForm = False, CReqResponse = False,
        CReqIsolated = False\<rparr>"

text \<open>A callback that sets its own field, writes over the signature and over the method.\<close>

definition exampleCallback :: callback where
  "exampleCallback view =
     (view\<lparr>ReqHeader := [(''signature'', [''x'']), (''Authorization'', [''legacy''])], ReqMethod := ''DELETE''\<rparr>, None)"

definition exampleFailingCallback :: callback where
  "exampleFailingCallback view = (view\<lparr>ReqMethod := ''DELETE''\<rparr>, Some (NewErr ''secret''))"

definition exampleCompatSigning :: CompatSigningRoundTripper where
  "exampleCompatSigning = \<lparr>caProtocol = ''vendor:acme'', caTransport = True, caSign = exampleCallback\<rparr>"

lemma exampleCompat_vendor: "vendorProtocol ''acme'' = (''vendor:acme'', True)"
  by code_simp

lemma exampleCompatSigning_new:
  "NewVendorSigningRoundTripper ''acme'' \<lparr>SCTransport = True, SCSign = Some exampleCallback, SCReportError = True\<rparr> =
     Inr exampleCompatSigning"
  by (simp add: NewVendorSigningRoundTripper_def exampleCompat_vendor newSigningRoundTripper_def exampleCompatSigning_def)

section \<open>Properties\<close>

text \<open>Vendor protocols are separate from the three fixed ones and from one another: a name is accepted exactly
  when it has 1 to 64 bytes, all of them lowercase letters, digits or \<^verbatim>\<open>-\<close>, \<^verbatim>\<open>_\<close>, \<^verbatim>\<open>.\<close>; its protocol then
  carries the prefix, so that it is none of the fixed ones, and two names never share one.\<close>

theorem vendor_protocol_iff:
  "(vendorProtocol name = (protocol, True) \<longleftrightarrow>
     1 \<le> length name \<and> length name \<le> 64 \<and>
     (\<forall>c \<in> set name. isLower c \<or> isDigit c \<or> c \<in> {CHR ''-'', CHR ''_'', CHR ''.''}) \<and>
     protocol = ''vendor:'' @ name) \<and>
   fst (vendorProtocol name) \<notin> {CavageDraft, AWSSigV4, OAuth1}"
  by (auto simp: vendorProtocol_def vendorName_loop_iff CavageDraft_def AWSSigV4_def OAuth1_def Suc_le_eq)

theorem vendor_protocol_iff_witness:
  "vendorProtocol ''acme_v1.2-x'' = (''vendor:acme_v1.2-x'', True) \<and> vendorProtocol ''Acme'' \<noteq> (''vendor:Acme'', True)"
proof -
  have "isLower c \<or> isDigit c \<or> c \<in> {CHR ''-'', CHR ''_'', CHR ''.''}" if "c \<in> set ''acme_v1.2-x''" for c
    using that by (auto simp: isLower_bits isDigit_bits)
  then have "vendorProtocol ''acme_v1.2-x'' = (''vendor:acme_v1.2-x'', True)"
    using vendor_protocol_iff [of "''acme_v1.2-x''" "''vendor:acme_v1.2-x''"] by simp
  moreover have "\<not> isLower CHR ''A''" "\<not> isDigit CHR ''A''" by (simp_all add: isLower_bits isDigit_bits)
  ultimately show ?thesis using vendor_protocol_iff [of "''Acme''" "''vendor:Acme''"] by simp
qed

text \<open>C38. A signing callback of another scheme cannot touch the RFC 9421 identity of a request: what is delegated is
  the original request with other header and trailer fields only, each taken from the callback's view, except
  that every RFC 9421 field has the original's values; the adapter that verifies or appends RFC 9421 signatures
  downstream reads there what it would have read in the original.\<close>

theorem compat_signing_keeps_identity:
  assumes "newSigningRoundTripper protocol config = Inr a"
    and "CompatSigning_RoundTrip (Some a) (Some r) = AdapterDelegated d"
    and "distinct (map fst (ReqHeader r))" "distinct (map fst (ReqTrailer r))"
  shows "\<exists>sign view. SCSign config = Some sign \<and> sign (isolatedCallbackRequest r) = (view, None) \<and>
    d = r\<lparr>ReqHeader := ReqHeader d, ReqTrailer := ReqTrailer d\<rparr> \<and>
    (\<forall>name. map_of (ReqHeader d) name = map_of (if isRFC9421Field name then ReqHeader r else ReqHeader view) name \<and>
       map_of (ReqTrailer d) name = map_of (if isRFC9421Field name then ReqTrailer r else ReqTrailer view) name) \<and>
    (\<forall>name \<in> {''Signature-Input'', ''Signature'', ''Accept-Signature''}.
       protectedFieldValues (ReqHeader d) name = protectedFieldValues (ReqHeader r) name)"
proof -
  note a = newSigningRoundTripper_ok [OF assms(1)]
  obtain view where view: "caSign a (isolatedCallbackRequest r) = (view, None)"
    "d = r\<lparr>ReqHeader := compatibleSigningFields (ReqHeader view) (ReqHeader r),
           ReqTrailer := compatibleSigningFields (ReqTrailer view) (ReqTrailer r)\<rparr>"
    using assms(2) a(2) by (auto simp: CompatSigning_RoundTrip_def Let_def split: prod.splits option.splits goerr.splits)
  have "protectedFieldValues (ReqHeader d) name = protectedFieldValues (ReqHeader r) name"
    if "name \<in> {''Signature-Input'', ''Signature'', ''Accept-Signature''}" for name
    by (rule protectedFieldValues_cong) (simp add: view(2) compatibleSigningFields_matching [OF assms(3) that])
  moreover have "d = r\<lparr>ReqHeader := ReqHeader d, ReqTrailer := ReqTrailer d\<rparr>"
    unfolding view(2) by simp
  moreover have "\<forall>name. map_of (ReqHeader d) name = map_of (if isRFC9421Field name then ReqHeader r else ReqHeader view) name \<and>
       map_of (ReqTrailer d) name = map_of (if isRFC9421Field name then ReqTrailer r else ReqTrailer view) name"
    unfolding view(2) by (simp add: compatibleSigningFields_values assms(3,4))
  ultimately show ?thesis using a(3) view(1) by blast
qed

theorem compat_signing_keeps_identity_witness:
  "\<exists>d. CompatSigning_RoundTrip (Some exampleCompatSigning) (Some exampleClientRequest) = AdapterDelegated d \<and>
     ReqMethod d = ReqMethod exampleClientRequest \<and> map_of (ReqHeader d) ''Authorization'' = Some [''legacy''] \<and>
     map_of (ReqHeader d) ''Signature'' = Some [''a=:AA==:'']"
proof -
  let ?config = "\<lparr>SCTransport = True, SCSign = Some exampleCallback, SCReportError = True\<rparr>"
  have new: "newSigningRoundTripper ''vendor:acme'' ?config = Inr exampleCompatSigning"
    by (simp add: newSigningRoundTripper_def exampleCompatSigning_def)
  obtain d where d: "CompatSigning_RoundTrip (Some exampleCompatSigning) (Some exampleClientRequest) = AdapterDelegated d"
    by (simp add: CompatSigning_RoundTrip_def exampleCompatSigning_def exampleCallback_def Let_def)
  have keys: "distinct (map fst (ReqHeader exampleClientRequest))" "distinct (map fst (ReqTrailer exampleClientRequest))"
    by code_simp+
  have rfc: "\<not> isRFC9421Field ''Authorization''" "isRFC9421Field ''Signature''" by code_simp+
  from compat_signing_keeps_identity [OF new d keys] obtain view where v:
    "exampleCallback (isolatedCallbackRequest exampleClientRequest) = (view, None)"
    "d = exampleClientRequest\<lparr>ReqHeader := ReqHeader d, ReqTrailer := ReqTrailer d\<rparr>"
    "\<forall>name. map_of (ReqHeader d) name =
       map_of (if isRFC9421Field name then ReqHeader exampleClientRequest else ReqHeader view) name" by auto
  have "ReqMethod d = ReqMethod exampleClientRequest" by (subst v(2)) simp
  moreover have "map_of (ReqHeader d) ''Authorization'' = Some [''legacy'']"
    "map_of (ReqHeader d) ''Signature'' = Some [''a=:AA==:'']"
    using v(1) v(3) rfc by (auto simp: exampleCallback_def exampleClientRequest_def Request.defs)
  ultimately show ?thesis using d by blast
qed

text \<open>A failing callback stops the request: the caller learns the fixed sentinel only, the request's body is
  closed, the original error goes to the reporter, under the adapter's own protocol and operation; and the
  transport is used exactly when the callback reports success.\<close>

theorem compat_signing_outcome:
  assumes "newSigningRoundTripper protocol config = Inr a" "SCSign config = Some sign"
    and "\<forall>m. snd (sign (isolatedCallbackRequest r)) \<noteq> Some (GoPanic m)"
  shows "(\<forall>err. snd (sign (isolatedCallbackRequest r)) = Some err \<longrightarrow>
      CompatSigning_RoundTrip (Some a) (Some r) =
        AdapterFailed ErrSigning (ReqBody r \<noteq> NilBody) (Some (protocol, OperationSign, err))) \<and>
    ((\<exists>d. CompatSigning_RoundTrip (Some a) (Some r) = AdapterDelegated d) \<longleftrightarrow>
       snd (sign (isolatedCallbackRequest r)) = None)"
  using assms(2,3) newSigningRoundTripper_ok [OF assms(1)]
  by (auto simp: CompatSigning_RoundTrip_def Let_def compat_closeRequestBody_def
      split: prod.splits option.splits goerr.splits)

theorem compat_signing_outcome_witness:
  "CompatSigning_RoundTrip (Some \<lparr>caProtocol = OAuth1, caTransport = True, caSign = exampleFailingCallback\<rparr>)
     (Some exampleClientRequest) = AdapterFailed ErrSigning True (Some (OAuth1, OperationSign, NewErr ''secret''))"
proof -
  let ?config = "\<lparr>SCTransport = True, SCSign = Some exampleFailingCallback, SCReportError = True\<rparr>"
  let ?a = "\<lparr>caProtocol = OAuth1, caTransport = True, caSign = exampleFailingCallback\<rparr>"
  have "newSigningRoundTripper OAuth1 ?config = Inr ?a" "SCSign ?config = Some exampleFailingCallback"
    "\<forall>m. snd (exampleFailingCallback (isolatedCallbackRequest exampleClientRequest)) \<noteq> Some (GoPanic m)"
    by (simp_all add: newSigningRoundTripper_def exampleFailingCallback_def)
  from compat_signing_outcome [OF this] show ?thesis
    by (simp add: exampleFailingCallback_def exampleClientRequest_def Request.defs)
qed



end
