(* ===== verification/EndToEnd.thy ===== *)
theory EndToEnd
  imports Compatibility
begin

text \<open>
  Where the components meet: verifiers that share a memory replay store, a verifier that receives what a
  signer has signed, and the header maps that pass from one adapter to the next. The properties over these are
  in the root theory.
\<close>

section \<open>Verifiers that share a store\<close>

text \<open>The calls of a sequence, each from the state that the previous one left.\<close>

fun runCalls :: "('c \<Rightarrow> 's \<Rightarrow> 'r \<times> 's) \<Rightarrow> 'c list \<Rightarrow> 's \<Rightarrow> 'r list \<times> 's" where
  "runCalls f [] s = ([], s)"
| "runCalls f (c # cs) s = (case f c s of (r, s') \<Rightarrow> (case runCalls f cs s' of (rs, s'') \<Rightarrow> (r # rs, s'')))"

text \<open>\<open>ctx\<close> and \<open>now\<close> are what this call of \<^verbatim>\<open>Consume\<close> observes of its context and of the store's clock.\<close>

definition storeConsume :: "ctxObs \<Rightarrow> time \<Rightarrow> ReplayRecord \<Rightarrow> MemoryReplayStore \<Rightarrow> unit res \<times> MemoryReplayStore" where
  "storeConsume ctx now record st =
     (case Consume ctx (Some (st\<lparr>clock := Some now\<rparr>)) record of
        (r, Some st') \<Rightarrow> (r, st')
      | (r, None) \<Rightarrow> (r, st))"

record verificationCall =
  vcEnv :: "MemoryReplayStore verifyEnv"
  vcStoreCtx :: ctxObs
  vcStoreNow :: time
  vcProfile :: VerificationProfile
  vcMessage :: MessageContext
  vcLabel :: string
  vcInputs :: "SignatureInput list"
  vcSignatures :: "SignatureValue list"

definition verifyCall ::
  "('p, 'd) httpsfv \<Rightarrow> urls \<Rightarrow> hashes \<Rightarrow> crypto \<Rightarrow> verificationCall \<Rightarrow> MemoryReplayStore \<Rightarrow>
   (verr + VerifiedSignature) \<times> MemoryReplayStore" where
  "verifyCall h u H P c st =
     Verifier_Verify h u H P ((vcEnv c)\<lparr>veConsume := storeConsume (vcStoreCtx c) (vcStoreNow c)\<rparr>)
       (Some (vcProfile c)) (vcMessage c) (vcLabel c) (vcInputs c) (vcSignatures c) st"

text \<open>The replay record of the signature that a call selects, if it has a nonce.\<close>

definition selectedRecord :: "verificationCall \<Rightarrow> ReplayRecord option" where
  "selectedRecord c =
     (case selectSignature (vcLabel c) (vcInputs c) (vcSignatures c) of
        None \<Rightarrow> None
      | Some (input, signature) \<Rightarrow>
          if fst (stringParameter input ''nonce'') = [] then None else Some (replayRecordOf (vcProfile c) input))"

section \<open>The interface between verifier and store\<close>

text \<open>
  A state in which accepted records are guarded: a guarded record stays so, and no later record with its identity
  and an expiration that is not later is accepted.
\<close>

locale guarded_calls =
  fixes call :: "'c \<Rightarrow> 's \<Rightarrow> 'r \<times> 's"
    and accepts :: "'c \<Rightarrow> 'r \<Rightarrow> ReplayRecord option"
    and sound :: "'s \<Rightarrow> bool"
    and guarded :: "ReplayRecord \<Rightarrow> 's \<Rightarrow> bool"
  assumes sound_call: "sound s \<Longrightarrow> sound (snd (call c s))"
    and guarded_call: "sound s \<Longrightarrow> guarded rec s \<Longrightarrow> guarded rec (snd (call c s))"
    and guards: "sound s \<Longrightarrow> accepts c (fst (call c s)) = Some rec \<Longrightarrow> guarded rec (snd (call c s))"
    and refuses: "sound s \<Longrightarrow> guarded rec s \<Longrightarrow> accepts c (fst (call c s)) = Some rec' \<Longrightarrow>
      recordIdentity rec' = recordIdentity rec \<Longrightarrow> RecExpiresAt rec < RecExpiresAt rec'"
begin

lemma guarded_refuses:
  assumes "sound s" "guarded rec s" "j < length cs" "accepts (cs ! j) (fst (runCalls call cs s) ! j) = Some rec'"
    "recordIdentity rec' = recordIdentity rec"
  shows "RecExpiresAt rec < RecExpiresAt rec'"
  using assms
proof (induction cs arbitrary: s j)
  case (Cons c cs)
  obtain r t where c: "call c s = (r, t)" by fastforce
  obtain rs u where cs: "runCalls call cs t = (rs, u)" by fastforce
  have t: "sound t" "guarded rec t"
    using sound_call [OF Cons.prems(1), of c] guarded_call [OF Cons.prems(1,2), of c] c by simp_all
  show ?case
  proof (cases j)
    case 0
    then show ?thesis using refuses [OF Cons.prems(1,2), of c rec'] Cons.prems(4,5) c cs by simp
  next
    case (Suc k)
    then show ?thesis using Cons.IH [OF t, of k] Cons.prems(3-5) c cs by simp
  qed
qed simp

lemma accepted_once:
  assumes "sound s" "i < j" "j < length cs" "accepts (cs ! i) (fst (runCalls call cs s) ! i) = Some rec"
    "accepts (cs ! j) (fst (runCalls call cs s) ! j) = Some rec'" "recordIdentity rec' = recordIdentity rec"
  shows "RecExpiresAt rec < RecExpiresAt rec'"
  using assms
proof (induction cs arbitrary: s i j)
  case (Cons c cs)
  obtain r t where c: "call c s = (r, t)" by fastforce
  obtain rs u where cs: "runCalls call cs t = (rs, u)" by fastforce
  have t: "sound t" using sound_call [OF Cons.prems(1), of c] c by simp
  obtain k where j: "j = Suc k" using Cons.prems(2) by (cases j) auto
  show ?case
  proof (cases i)
    case 0
    then have "guarded rec t" using guards [OF Cons.prems(1), of c rec] Cons.prems(4) c cs by simp
    then show ?thesis
      using guarded_refuses [OF t, of rec k cs rec'] Cons.prems(3,5,6) c cs by (simp add: j)
  next
    case (Suc m)
    then show ?thesis using Cons.IH [OF t, of m k] Cons.prems(2-6) c cs by (simp add: j)
  qed
qed simp

end

section \<open>The memory store provides it\<close>

definition soundStore :: "MemoryReplayStore \<Rightarrow> bool" where
  "soundStore st \<longleftrightarrow> (\<exists>s. state st = Some s \<and> wfReplay s)"

definition guardedIn :: "ReplayRecord \<Rightarrow> MemoryReplayStore \<Rightarrow> bool" where
  "guardedIn rec st \<longleftrightarrow>
     (\<exists>s. state st = Some s \<and>
        (RecExpiresAt rec \<le> latestNow s \<or> (\<exists>t. absReplay s (recordIdentity rec) = Some t \<and> RecExpiresAt rec \<le> t)))"

lemma storeConsume_cases:
  assumes "storeConsume ctx now rec st = (r, st')" "state st = Some s"
  shows "(\<exists>e. r = Inl e) \<and> state st' = state st \<or>
    (\<exists>s'. consumeLocked (capacity st) (maxTTL st) now rec s = (r, s') \<and> state st' = Some s')"
  using assms
  by (auto simp: storeConsume_def Consume_def Let_def split: if_splits option.splits prod.splits)

lemma storeConsume_guards:
  assumes "soundStore st" "storeConsume ctx now rec st = (r, st')"
  shows "soundStore st'" "guardedIn old st \<Longrightarrow> guardedIn old st'" "r = Inr () \<Longrightarrow> guardedIn rec st'"
    "r = Inr () \<Longrightarrow> guardedIn old st \<Longrightarrow> recordIdentity rec = recordIdentity old \<Longrightarrow> RecExpiresAt old < RecExpiresAt rec"
proof -
  obtain s where s: "state st = Some s" "wfReplay s" using assms(1) by (auto simp: soundStore_def)
  let ?all = "soundStore st' \<and> (guardedIn old st \<longrightarrow> guardedIn old st') \<and> (r = Inr () \<longrightarrow> guardedIn rec st') \<and>
    (r = Inr () \<longrightarrow> guardedIn old st \<longrightarrow> recordIdentity rec = recordIdentity old \<longrightarrow> RecExpiresAt old < RecExpiresAt rec)"
  from storeConsume_cases [OF assms(2) s(1)] have ?all
  proof
    assume "(\<exists>e. r = Inl e) \<and> state st' = state st"
    then show ?all using assms(1) by (auto simp: soundStore_def guardedIn_def)
  next
    assume "\<exists>s'. consumeLocked (capacity st) (maxTTL st) now rec s = (r, s') \<and> state st' = Some s'"
    then obtain s' where s': "consumeLocked (capacity st) (maxTTL st) now rec s = (r, s')" "state st' = Some s'" by blast
    note spec = consumeLocked_spec [OF s(2) s'(1)]
    have new: "max (latestNow s) now < RecExpiresAt rec" if "r = Inr ()"
      using spec(3) that by (auto elim: replaySpec_okE)
    have acc: "absReplay s' (recordIdentity rec) = Some (RecExpiresAt rec)" if "r = Inr ()"
      using memory.accepted [OF s(2)] that s'(1) by (metis fst_conv snd_conv)
    have keep: "guardedIn old st'" if g: "guardedIn old st"
    proof -
      show ?thesis
      proof (cases "RecExpiresAt old \<le> max (latestNow s) now")
        case True
        then show ?thesis using spec(2) s'(2) by (simp add: guardedIn_def)
      next
        case False
        then obtain t where t: "absReplay s (recordIdentity old) = Some t" "RecExpiresAt old \<le> t"
          using g s(1) by (auto simp: guardedIn_def)
        then have "absReplay s' (recordIdentity old) = Some t"
          using memory.retained [OF s(2) t(1), of now "capacity st" "maxTTL st" rec] s'(1) False by (simp add: not_le)
        then show ?thesis using t(2) s'(2) by (auto simp: guardedIn_def)
      qed
    qed
    have "RecExpiresAt old < RecExpiresAt rec"
      if r: "r = Inr ()" and g: "guardedIn old st" and i: "recordIdentity rec = recordIdentity old"
    proof (rule ccontr)
      assume "\<not> ?thesis"
      then obtain t where "absReplay s (recordIdentity rec) = Some t" "max (latestNow s) now < t"
        using g s(1) new [OF r] i by (force simp: guardedIn_def)
      then show False using memory.refused [OF s(2)] r s'(1) by (metis fst_conv)
    qed
    then show ?all using keep acc spec(1) s'(2) by (auto simp: soundStore_def guardedIn_def)
  qed
  then show "soundStore st'" "guardedIn old st \<Longrightarrow> guardedIn old st'" "r = Inr () \<Longrightarrow> guardedIn rec st'"
    "r = Inr () \<Longrightarrow> guardedIn old st \<Longrightarrow> recordIdentity rec = recordIdentity old \<Longrightarrow> RecExpiresAt old < RecExpiresAt rec"
    by blast+
qed

definition acceptedRecord :: "verificationCall \<Rightarrow> verr + VerifiedSignature \<Rightarrow> ReplayRecord option" where
  "acceptedRecord c r = (case r of Inl _ \<Rightarrow> None | Inr _ \<Rightarrow> selectedRecord c)"

text \<open>A call of the verifier leaves the store or makes one call of \<^verbatim>\<open>Consume\<close>, with the selected record.\<close>

lemma verifyCall_step:
  assumes "verifyCall h u H P c st = (r, st')"
  shows "(st' = st \<and> acceptedRecord c r = None) \<or>
    (\<exists>rec x. selectedRecord c = Some rec \<and> storeConsume (vcStoreCtx c) (vcStoreNow c) rec st = (x, st') \<and>
       (\<forall>v. r = Inr v \<longrightarrow> x = Inr ()))"
proof -
  let ?env = "(vcEnv c)\<lparr>veConsume := storeConsume (vcStoreCtx c) (vcStoreNow c)\<rparr>" and ?p = "vcProfile c"
  note V = assms [unfolded verifyCall_def Verifier_Verify_def]
  show ?thesis
  proof (cases "selectVerified ?env (Some ?p) (vcMessage c) (vcLabel c) (vcInputs c) (vcSignatures c)")
    case (Inl err)
    then show ?thesis using V by (auto simp: acceptedRecord_def)
  next
    case (Inr t)
    then obtain input signature where sel:
      "selectVerified ?env (Some ?p) (vcMessage c) (vcLabel c) (vcInputs c) (vcSignatures c) = Inr (?p, input, signature)"
      by (cases t) (auto simp: selectVerified_ok)
    then have rec: "selectedRecord c =
        (if fst (stringParameter input ''nonce'') = [] then None else Some (replayRecordOf ?p input))"
      using selectSignature_ok [of "vcLabel c" "vcInputs c" "vcSignatures c" input signature]
      by (auto simp: selectedRecord_def selectVerified_ok)
    show ?thesis
    proof (cases "authenticate h u H P ?env ?p (vcMessage c) input signature")
      case (Inl err)
      with V sel show ?thesis by (auto simp: acceptedRecord_def)
    next
      case (Inr m)
      then obtain key where m: "m = acceptedMetadata ?p input key" unfolding authenticate_iff by blast
      obtain x t where x: "storeConsume (vcStoreCtx c) (vcStoreNow c) (replayRecordOf ?p input) st = (x, t)" by fastforce
      have v: "(r, st') = (case consumeNonce ?env m st of (Inl e, s') \<Rightarrow> (Inl e, s') | (Inr _, s') \<Rightarrow> (Inr (vmResult m), s'))"
        using V sel Inr by (simp split: prod.splits sum.splits)
      show ?thesis
      proof (cases "fst (stringParameter input ''nonce'') = []")
        case True
        then show ?thesis using v rec by (simp add: m consumeNonce_eq acceptedRecord_def split: sum.split)
      next
        case False
        have "st' = t" "\<forall>w. r = Inr w \<longrightarrow> x = Inr ()"
          using v x False by (auto simp: m consumeNonce_eq split: sum.splits goerr.splits option.splits)
        then show ?thesis using x rec False by auto
      qed
    qed
  qed
qed

interpretation verifying: guarded_calls "verifyCall h u H P" acceptedRecord soundStore guardedIn
proof
  fix st :: MemoryReplayStore and c rec rec'
  assume st: "soundStore st"
  obtain r st' where c: "verifyCall h u H P c st = (r, st')" by fastforce
  from verifyCall_step [OF c] consider (kept) "st' = st" "acceptedRecord c r = None"
    | (consumed) old x where "selectedRecord c = Some old" "storeConsume (vcStoreCtx c) (vcStoreNow c) old st = (x, st')"
      "\<forall>v. r = Inr v \<longrightarrow> x = Inr ()" by metis
  then have all: "soundStore st' \<and> (guardedIn rec st \<longrightarrow> guardedIn rec st') \<and>
    (acceptedRecord c r = Some rec' \<longrightarrow> guardedIn rec' st' \<and>
       (guardedIn rec st \<longrightarrow> recordIdentity rec' = recordIdentity rec \<longrightarrow> RecExpiresAt rec < RecExpiresAt rec'))" for rec rec'
  proof cases
    case kept
    then show ?thesis using st by (auto simp: acceptedRecord_def split: sum.splits)
  next
    case consumed
    then show ?thesis
      using storeConsume_guards [OF st consumed(2)] by (auto simp: acceptedRecord_def split: sum.splits)
  qed
  show "soundStore (snd (verifyCall h u H P c st))" using all c by simp
  show "guardedIn rec (snd (verifyCall h u H P c st))" if "guardedIn rec st" using all c that by simp
  show "guardedIn rec (snd (verifyCall h u H P c st))" if "acceptedRecord c (fst (verifyCall h u H P c st)) = Some rec"
    using all c that by simp
  show "RecExpiresAt rec < RecExpiresAt rec'" if "guardedIn rec st"
    "acceptedRecord c (fst (verifyCall h u H P c st)) = Some rec'" "recordIdentity rec' = recordIdentity rec"
    using all c that by simp
qed

lemma NewMemoryReplayStore_sound: "NewMemoryReplayStore config = Inr st \<Longrightarrow> soundStore st"
  by (auto simp: NewMemoryReplayStore_def soundStore_def wf_empty split: if_splits)

section \<open>A verifier that receives what a signer has signed\<close>

text \<open>The two policies fit together: what the one demands, the other provides.\<close>

definition profilesAgree :: "('p, 'd) httpsfv \<Rightarrow> SigningProfile \<Rightarrow> VerificationProfile \<Rightarrow> bool" where
  "profilesAgree h p q \<longleftrightarrow>
     comparisonKeyOrEmpty h ` set (VPRequiredComponents q) \<subseteq> comparisonKeyOrEmpty h ` set (SPComponents p) \<and>
     (SPComponents p = [] \<longrightarrow> VPAllowEmptyCoverage q) \<and>
     SPAlgorithms p \<subseteq> VPAlgorithms q \<and> (VPRequireExternal q \<longrightarrow> SPRequireExternal p) \<and>
     VPCreated q \<noteq> ParameterForbidden \<and>
     presenceAllowed (VPExpires q) (SPExpires p = ParameterRequired) \<and>
     presenceAllowed (VPAlgorithmParameter q) (SPAlgorithmParameter p = ParameterRequired) \<and>
     presenceAllowed (VPNonce q) (SPNonce p = ParameterRequired) \<and>
     presenceAllowed (VPTag q) (SPTag p = ParameterRequired) \<and>
     (SPTag p = ParameterRequired \<longrightarrow> SPTagValue p \<in> VPAllowedTags q)"

text \<open>The verification happens within the window, up to the second by which the signed times are rounded.\<close>

definition inWindow :: "SigningProfile \<Rightarrow> VerificationProfile \<Rightarrow> time \<Rightarrow> time \<Rightarrow> bool" where
  "inWindow p q signedAt now \<longleftrightarrow>
     signedAt \<le> now + VPClockSkew q \<and> now + second \<le> signedAt + VPMaxAge q + VPClockSkew q \<and>
     (SPExpires p = ParameterRequired \<longrightarrow> now + second \<le> signedAt + SPLifetime p + VPClockSkew q)"

definition signedInput :: "SigningProfile \<Rightarrow> SigningKey \<Rightarrow> string \<Rightarrow> string \<Rightarrow> time \<Rightarrow> SignatureInput" where
  "signedInput p key label given now =
     \<lparr>InLabel = label, InComponents = SPComponents p, InParameters = signingParameters p key given now\<rparr>"

lemma unixTime_shift: "l mod second = 0 \<Longrightarrow> unixTime (timeUnix (t + l)) = unixTime (timeUnix t) + l"
  unfolding timeUnix_whole unixTime_def using mult_div_mod_eq [of second l] by (simp add: algebra_simps)

lemma signedInput_simps [simp]:
  "InLabel (signedInput p key label given now) = label"
  "InComponents (signedInput p key label given now) = SPComponents p"
  "integerParameter (signedInput p key label given now) ''created'' = (timeUnix now, True)"
  "integerParameter (signedInput p key label given now) ''expires'' =
     (if SPExpires p = ParameterRequired then (timeUnix (now + SPLifetime p), True) else (0, False))"
  "stringParameter (signedInput p key label given now) ''keyid'' = (SKKeyID key, True)"
  "stringParameter (signedInput p key label given now) ''nonce'' =
     (if SPNonce p = ParameterRequired then (given, True) else ([], False))"
  "stringParameter (signedInput p key label given now) ''alg'' =
     (if SPAlgorithmParameter p = ParameterRequired then (SKAlgorithm key, True) else ([], False))"
  "stringParameter (signedInput p key label given now) ''tag'' =
     (if SPTag p = ParameterRequired then (SPTagValue p, True) else ([], False))"
  by (simp_all add: signedInput_def integerParameter_def stringParameter_def SignatureInput_Parameter_def
      signingParameters_lookup)

lemma signed_times:
  assumes "wfVerificationProfile h q" "wfSigningProfile h p" "profilesAgree h p q" "inWindow p q signedAt now"
  shows "creationInWindow q now (signedInput p key label given signedAt)" "notExpired q now (signedInput p key label given signedAt)"
    "0 \<le> signedAt \<Longrightarrow> retention q (signedInput p key label given signedAt) \<noteq> 0"
proof -
  let ?c = "unixTime (timeUnix signedAt)"
  note r = unixTime_timeUnix [of signedAt] window_no_wrap [OF assms(1)]
  have q: "0 < VPMaxAge q" "0 \<le> VPClockSkew q" "VPCreated q = ParameterOptional \<or> VPCreated q = ParameterRequired"
    using assms(1,3) by (auto simp: wfVerificationProfile_def profilesAgree_def validParameterPolicy_def)
  have s: "second \<le> SPLifetime p \<and> unixTime (timeUnix (signedAt + SPLifetime p)) = ?c + SPLifetime p"
    if "SPExpires p = ParameterRequired"
    using assms(2) that unixTime_shift by (auto simp: wfSigningProfile_def)
  have w: "signedAt \<le> now + VPClockSkew q" "now + second \<le> signedAt + VPMaxAge q + VPClockSkew q"
    "SPExpires p = ParameterRequired \<longrightarrow> now + second \<le> signedAt + SPLifetime p + VPClockSkew q"
    using assms(4) by (auto simp: inWindow_def)
  have "timeSub now ?c \<le> VPMaxAge q + VPClockSkew q"
    using r(1,2) w(2) q(1,2) by (auto simp: timeSub_def MinInt_def)
  then show "creationInWindow q now (signedInput p key label given signedAt)"
    using q r w(1) by (auto simp: creationInWindow_def presenceAllowed_def)
  have e: "presenceAllowed (VPExpires q) (SPExpires p = ParameterRequired)"
    using assms(3) by (simp add: profilesAgree_def)
  have sec: "0 < second" by (simp add: second_def)
  have later: "timeUnix signedAt < timeUnix (signedAt + SPLifetime p)" if "SPExpires p = ParameterRequired"
    using s [OF that] sec by (subst unixTime_less [symmetric]) linarith
  have "SPExpires p = ParameterRequired \<Longrightarrow> now < ?c + SPLifetime p + VPClockSkew q" using r(2) w(3) by linarith
  then show "notExpired q now (signedInput p key label given signedAt)"
    using s e later by (auto simp: notExpired_def)
  show "retention q (signedInput p key label given signedAt) \<noteq> 0" if "0 \<le> signedAt"
  proof -
    have "0 \<le> ?c" using that by (simp add: unixTime_def timeUnix_def second_def)
    then show ?thesis using q s sec r(3) by (auto simp: retention_def Let_def isZero_def)
  qed
qed

lemma signed_metadata:
  assumes "wfVerificationProfile h q" "wfSigningProfile h p" "profilesAgree h p q" "inWindow p q signedAt now" "0 \<le> signedAt"
    and "SKKeyID key \<noteq> []" "SKAlgorithm key \<in> SPAlgorithms p" "SPNonce p = ParameterRequired \<longrightarrow> given \<noteq> []"
  shows "metadataAllowed h q (signedInput p key label given signedAt)"
proof -
  have "\<forall>c \<in> set (SPComponents p). isOk (componentComparisonKey h c)"
    using assms(2) by (auto simp: wfSigningProfile_def profileCoverage_def)
  then show ?thesis
    using assms(3,6-8) signed_times(3) [OF assms(1-5)] by (auto simp: metadataAllowed_def profilesAgree_def isZero_def)
qed

lemma signed_verifies:
  assumes "primitivesCorrect P" "wfSigningProfile h p" "wfVerificationProfile h q" "profilesAgree h p q"
    and "Signer_Sign h u H P senv (Some p) message label given = Inr sf" "seProvider senv = Inr key"
    and "inWindow p q (seNow senv) (veInputNow env)" "0 \<le> seNow senv"
    and "veResolveErr env = None" "veResolve env (SKKeyID key) = Inr rkey" "RKAlgorithm rkey = SKAlgorithm key"
    and "RKKey rkey = publicOf (SKKey key)" "usableKey q (veKeyNow env) rkey (creation (SFInput sf))"
    and "\<forall>k. contextError (veContext env) k = None"
  shows "Verifier_Verify h u H P env (Some q) message label [SFInput sf] [SFSignature sf] s = (Inr v, s') \<longleftrightarrow>
    replayAccepted env q (SFInput sf) s s' \<and> v = verifiedResult (SFInput sf) rkey"
proof -
  have s: "validSignatureLabel label" "SPRequireExternal p \<longrightarrow> CtxExternalRequest message \<noteq> None"
    "SPNonce p = ParameterRequired \<longrightarrow> given \<noteq> []" "signWithKey h u H P senv p message label given key = Inr sf"
    using Signer_Sign_ok [OF assms(5)] assms(6) by (metis option.inject sum.inject(2))+
  obtain base sig where b: "usableSigningKey key (seNow senv)" "SKAlgorithm key \<in> SPAlgorithms p"
    "CreateSignatureBase h u message (SFInput sf) = Inr base"
    "Sign H P (seRandom senv) (seContext senv) 1 (SKAlgorithm key) (SKKey key) base = Inr sig"
    "SFInput sf = signedInput p key label given (seNow senv)"
    "SFSignature sf = \<lparr>SigLabel = label, SigValue = sig, SigParameters = []\<rparr>"
    using signWithKey_ok [OF s(4)] unfolding signedInput_def by metis
  let ?i = "signedInput p key label given (seNow senv)"
  have key: "SKKeyID key \<noteq> []" using b(1) by (simp add: usableSigningKey_def)
  note m = signed_metadata [OF assms(3,2,4,7,8) key b(2) s(3), of label]
  note t = signed_times [OF assms(3,2,4,7), of key label given]
  have "verifyPrimitive H P (SKAlgorithm key) (publicOf (SKKey key)) base sig = Inr True"
    using sign_verify_primitive [OF assms(1)] Sign_ok [OF b(4)] by blast
  then have prim: "Verify H P (veContext env) 1 (RKAlgorithm rkey) (RKKey rkey) base (SigValue (SFSignature sf)) = Inr ()"
    using assms(11,12,14) b(6) by (simp add: Verify_ok_iff)
  have alg: "SKAlgorithm key \<in> VPAlgorithms q" using assms(4) b(2) by (auto simp: profilesAgree_def)
  have acc: "acceptable h u H P env q message ?i (SFSignature sf) rkey base"
    using m t assms(9-13) prim alg b(3,5) by (simp add: acceptable_def)
  have unique: "acceptable h u H P env q message ?i (SFSignature sf) k b \<Longrightarrow> k = rkey" for k b
    using assms(10) by (simp add: acceptable_def)
  have sel: "selectVerified env (Some q) message label [?i] [SFSignature sf] = Inr (p', input, signature) \<longleftrightarrow>
      p' = q \<and> input = ?i \<and> signature = SFSignature sf" for p' input signature
    using s(1,2) assms(4,14) b(6)
    by (auto simp: selectVerified_ok matchingLabelSets_def profilesAgree_def validSignatureLabel_def)
  show ?thesis
    unfolding verify_iff b(5) sel using acc unique by blast
qed

section \<open>Header maps\<close>

text \<open>A Go map has one entry for each key. What the adapters delegate keeps that shape.\<close>

definition headerMap :: "header \<Rightarrow> bool" where
  "headerMap header \<longleftrightarrow> distinct (map fst header)"

definition requestMaps :: "('a) Request_scheme \<Rightarrow> bool" where
  "requestMaps r \<longleftrightarrow> headerMap (ReqHeader r) \<and> headerMap (ReqTrailer r)"

lemma headerMap_filter: "headerMap header \<Longrightarrow> headerMap (filter P header)"
  by (simp add: headerMap_def distinct_map_filter)

lemma headerMap_put: "headerMap header \<Longrightarrow> headerMap (headerPut header key vs)"
  using headerMap_filter [of header "\<lambda>(k, _). k \<noteq> key"] by (auto simp: headerMap_def headerPut_def)

lemma headerMap_updates [intro]:
  "headerMap header \<Longrightarrow> headerMap (headerSet header key v)"
  "headerMap header \<Longrightarrow> headerMap (deleteHeaderField header name)"
  by (simp_all add: headerSet_def headerMap_put deleteHeaderField_def headerMap_filter)

lemma headerMap_normalize_loop: "headerMap norm \<Longrightarrow> normalizeHeader_loop header norm names = Inr out \<Longrightarrow> headerMap out"
proof (induction header norm names rule: normalizeHeader_loop.induct)
  case (2 header norm name names)
  then show ?case
    by (auto simp: Let_def headerMap_put headerMap_updates split: sum.splits prod.splits if_splits)
qed simp

lemma headerMap_normalize: "headerMap header \<Longrightarrow> normalizeProtectedHeader header = Inr out \<Longrightarrow> headerMap out"
  unfolding normalizeProtectedHeader_def by (rule headerMap_normalize_loop)

lemma requestMaps_normalize: "requestMaps r \<Longrightarrow> normalizeProtectedRequest r = Inr clone \<Longrightarrow> requestMaps clone"
  by (auto simp: requestMaps_def normalizeProtectedRequest_def headerMap_normalize split: sum.splits)

lemma headerMap_signature: "headerMap header \<Longrightarrow> setSignatureFields h existing sf header = Inr out \<Longrightarrow> headerMap out"
  by (auto simp: setSignatureFields_def bindRes_Inr headerMap_updates split: option.splits sum.splits prod.splits)

lemma requestMaps_signed:
  assumes "SigningRoundTripper_RoundTrip h u H P env transport (Some r) = Delegated d" "requestMaps r"
  shows "requestMaps d"
proof -
  obtain t where t: "signRequest h u H P env t r = Inr d"
    using assms(1) by (auto simp: SigningRoundTripper_RoundTrip_def signingRoundTripError_def
        split: option.splits sum.splits goerr.splits)
  then obtain clone existing sf header where
    "normalizeProtectedRequest r = Inr clone" "setSignatureFields h existing sf (ReqHeader clone) = Inr header"
    "d = clone\<lparr>ReqHeader := header\<rparr>" by (auto simp: signRequest_def bindRes_Inr)
  with requestMaps_normalize [OF assms(2)] show ?thesis by (auto simp: requestMaps_def headerMap_signature)
qed

lemma requestMaps_digested:
  assumes "BufferedContentDigestRoundTripper_RoundTrip h H renv transport (Some r) = BodyDelegated d content"
    and "requestMaps r" "headerMap (rcTrailerAfterRead renv)"
  shows "requestMaps d"
proof -
  obtain t where t: "digestRequest h H renv t r = Inr (d, content)"
    using assms(1) by (auto simp: BufferedContentDigestRoundTripper_RoundTrip_def split: option.splits sum.splits)
  then obtain clone trailer field where "normalizeProtectedRequest r = Inr clone"
    "normalizeProtectedHeader (rcTrailerAfterRead renv) = Inr trailer"
    "d = frameDigestRequest (clone\<lparr>ReqTrailer := trailer\<rparr>) field content"
    by (auto simp: digestRequest_def bindRes_Inr split: if_splits)
  with requestMaps_normalize [OF assms(2)] headerMap_normalize [OF assms(3)] show ?thesis
    by (auto simp: requestMaps_def frameDigestRequest_def Let_def headerMap_updates)
qed

lemma requestMaps_compat:
  assumes "CompatSigning_RoundTrip (Some a) (Some r) = AdapterDelegated d" "requestMaps r"
    and "requestMaps (fst (caSign a (isolatedCallbackRequest r)))"
  shows "requestMaps d"
proof -
  obtain view where "caSign a (isolatedCallbackRequest r) = (view, None)"
    "d = r\<lparr>ReqHeader := compatibleSigningFields (ReqHeader view) (ReqHeader r),
           ReqTrailer := compatibleSigningFields (ReqTrailer view) (ReqTrailer r)\<rparr>"
    using assms(1)
    by (auto simp: CompatSigning_RoundTrip_def Let_def split: if_splits prod.splits option.splits goerr.splits)
  with assms(2,3) show ?thesis by (simp add: requestMaps_def headerMap_def compatibleSigningFields_distinct)
qed

section \<open>Example of a shared store\<close>

definition exampleObs :: ctxObs where
  "exampleObs = \<lparr>ctxNil = False, errAtEntry = None, errAfterClock = None, lockAcquired = True, errAfterWait = None\<rparr>"

definition exampleSharedStoreConfig :: MemoryReplayConfig where
  "exampleSharedStoreConfig =
     \<lparr>CfgCapacity = 2, CfgMaxTTL = 100 * second, CfgMaxKeyIDBytes = 8, CfgMaxNonceBytes = 8, CfgNow = Some exampleNow\<rparr>"

definition exampleSharedStore :: MemoryReplayStore where
  "exampleSharedStore =
     \<lparr>state = Some emptyReplayState, capacity = 2, maxTTL = 100 * second, maxKeyIDBytes = 8, maxNonceBytes = 8,
      clock = Some exampleNow\<rparr>"

definition exampleCall :: verificationCall where
  "exampleCall =
     \<lparr>vcEnv = exampleVerifyEnv (\<lambda>r s. (Inr (), s)), vcStoreCtx = exampleObs, vcStoreNow = exampleNow,
      vcProfile = exampleVerificationProfile, vcMessage = exampleContext, vcLabel = ''s'',
      vcInputs = [SFInput exampleSignedFields], vcSignatures = [SFSignature exampleSignedFields]\<rparr>"

lemma exampleSharedStore_new: "NewMemoryReplayStore exampleSharedStoreConfig = Inr exampleSharedStore"
  by (simp add: NewMemoryReplayStore_def exampleSharedStoreConfig_def exampleSharedStore_def second_def)

lemma exampleCall_verify:
  "verifyCall exampleSfv exampleURLs exampleHashes exampleCrypto exampleCall st =
   exampleVerify (exampleVerifyEnv (storeConsume exampleObs exampleNow)) st"
  by (simp add: verifyCall_def exampleCall_def exampleVerify_def exampleVerifyEnv_def)

lemma exampleConsume_first:
  "fst (storeConsume exampleObs exampleNow \<lparr>RecKeyID = ''k'', RecNonce = ''n'', RecExpiresAt = unixTime 1015\<rparr> exampleSharedStore) = Inr ()"
  by (simp add: storeConsume_def Consume_def exampleObs_def exampleSharedStore_def validReplayRecord_def consumeLocked_def
      emptyReplayState_def removeOldestExpired_def Len_def timeSub_def MaxInt_def MinInt_def Let_def exampleNow_def
      unixTime_def second_def isZero_def)

lemma exampleCall_accepted:
  "fst (verifyCall exampleSfv exampleURLs exampleHashes exampleCrypto exampleCall exampleSharedStore) = Inr exampleVerified"
proof -
  obtain st where "storeConsume exampleObs exampleNow
      \<lparr>RecKeyID = ''k'', RecNonce = ''n'', RecExpiresAt = unixTime 1015\<rparr> exampleSharedStore = (Inr (), st)"
    using exampleConsume_first by (metis prod.collapse)
  then show ?thesis by (simp add: exampleCall_verify exampleVerify_any)
qed

lemma exampleCall_record: "selectedRecord exampleCall = Some (replayRecordOf exampleVerificationProfile (SFInput exampleSignedFields))"
  by code_simp


end
